theory Spec2Isabelle
  imports Main "HOL-Library.Multiset"
begin

section \<open>Parse trees\<close>

text \<open>
  Both passes work on the same tree representation.  A source location carries the start
  position whose \<open>offset\<close> the checker sorts by; a missing location (\<open>null\<close>) is \<open>None\<close>.
\<close>

datatype SourcePosition = SourcePosition (offset: int)

datatype SourceRange = SourceRange (start: SourcePosition) (finish: SourcePosition)

type_synonym location = "SourceRange option"

datatype IdentifierToken = IdentifierToken (tokenLocation: location) (tokenValue: string)

datatype TokenType = VAR | LET | CONST | NULL | TRUE | FALSE | EQUAL

datatype Token = Token TokenType | IdToken IdentifierToken

text \<open>
  Kinds of the nodes that neither pass treats specially; such a node is a \<open>Node\<close> with its
  kind, its token fields and its child trees in field order.
\<close>

datatype ParseTreeType =
    ARGUMENT_LIST | ARRAY_LITERAL_EXPRESSION | BINARY_OPERATOR | CALL_EXPRESSION
  | CASE_CLAUSE | EXPRESSION_STATEMENT | FORMAL_PARAMETER_LIST | IF_STATEMENT
  | LITERAL_EXPRESSION | MEMBER_EXPRESSION | OBJECT_LITERAL_EXPRESSION | PAREN_EXPRESSION
  | PROPERTY_NAME_ASSIGNMENT | REST_PARAMETER | RETURN_STATEMENT | SPREAD_EXPRESSION
  | SUPER_EXPRESSION | THIS_EXPRESSION | TRY_STATEMENT | VARIABLE_STATEMENT

text \<open>
  The constructors follow the field order of the JavaScript node constructors.  A \<open>null\<close>
  child is \<open>NullTree\<close>.  \<open>FunctionDeclaration\<close> is also the node of a function expression
  (then its name may be \<open>None\<close>).  The two class nodes share the field selectors
  \<open>superClass\<close> and \<open>elements\<close>.
\<close>

datatype ParseTree =
    NullTree
  | Program "ParseTree list"
  | Block "ParseTree list"
  | FunctionDeclaration "IdentifierToken option" ParseTree ParseTree
  | ArrowFunctionExpression ParseTree ParseTree
  | GetAccessor location IdentifierToken ParseTree
  | SetAccessor location IdentifierToken ParseTree ParseTree
  | PropertyMethodAssignment location IdentifierToken bool ParseTree ParseTree
  | Catch ParseTree ParseTree
  | VariableDeclarationList TokenType "ParseTree list"
  | VariableDeclaration ParseTree ParseTree
  | BindingElement ParseTree ParseTree
  | BindingIdentifier location IdentifierToken
  | IdentifierExpression location IdentifierToken
  | ClassDeclaration ParseTree (superClass: ParseTree) (elements: "ParseTree list")
  | ClassExpression ParseTree (superClass: ParseTree) (elements: "ParseTree list")
  | Node ParseTreeType "Token list" "ParseTree list"

datatype error =
    ScopeMismatch
  | LetConstNotRewritten
  | GeneratedVariableNotDefined string
  | UnexpectedClassElement ParseTree
  | TypeError

text \<open>
  A method that may throw returns the error or its value, together with the state as the
  throw or the return leaves it: a JavaScript exception does not undo earlier writes.
\<close>

type_synonym ('a, 's) result = "(error + 'a) \<times> 's"

section \<open>FreeVariableChecker\<close>

text \<open>
  \<open>Scope\<close>: the two objects created by \<open>Object.create(null)\<close> are association lists in
  insertion order (the order \<open>for (name in ...)\<close> enumerates identifier keys in); a key is
  present (\<open>name in m\<close>) when it occurs in the list, whatever its value.  The \<open>parent\<close> link is
  the rest of the scope chain \<open>scope\<close>, innermost scope first; the empty chain is \<open>null\<close>.
  \<open>scopeId\<close> stands for the object's identity, which \<open>pop\<close> compares.  The trailing
  underscore of a private member's name is dropped throughout.
\<close>

record Scope =
  scopeId :: nat
  references :: "(string \<times> location) list"
  declarations :: "(string \<times> location) list"

record ReportedError =
  errorPosition :: SourcePosition
  errorFormat :: string
  errorArgs :: "string list"

record FreeVariableChecker =
  scope :: "Scope list"
  nextScopeId :: nat
  reporter :: "ReportedError list"

definition inKeys :: "string \<Rightarrow> (string \<times> 'a) list \<Rightarrow> bool" where
  "inKeys name m = (name \<in> set (map fst m))"

definition newScope :: "nat \<Rightarrow> Scope" where
  "newScope i = \<lparr>scopeId = i, references = [], declarations = []\<rparr>"

text \<open>What \<open>getVariableName\<close> and \<open>declareVariable\<close> are called with.\<close>

datatype NameArg = TreeArg ParseTree | TokenArg "IdentifierToken option" | StringArg string

text \<open>
  \<open>getVariableName\<close>: \<open>None\<close> is a \<open>null\<close> name.  A tree that is neither an identifier
  expression nor a binding identifier is returned as it is and then used as a property
  key, which JavaScript coerces to the string of a plain object.
\<close>

fun getVariableName :: "NameArg \<Rightarrow> string option" where
  "getVariableName (TreeArg (IdentifierExpression l tok)) = Some (tokenValue tok)"
| "getVariableName (TreeArg (BindingIdentifier l tok)) = Some (tokenValue tok)"
| "getVariableName (TreeArg NullTree) = None"
| "getVariableName (TreeArg t) = Some ''[object Object]''"
| "getVariableName (TokenArg (Some tok)) = Some (tokenValue tok)"
| "getVariableName (TokenArg None) = None"
| "getVariableName (StringArg s) = Some s"

text \<open>\<open>tree.location\<close> of such an argument; a string has none.\<close>

fun argLocation :: "NameArg \<Rightarrow> location" where
  "argLocation (TreeArg (IdentifierExpression l tok)) = l"
| "argLocation (TreeArg (BindingIdentifier l tok)) = l"
| "argLocation (TreeArg (GetAccessor l n b)) = l"
| "argLocation (TreeArg (SetAccessor l n p b)) = l"
| "argLocation (TreeArg (PropertyMethodAssignment l n g p b)) = l"
| "argLocation (TreeArg t) = None"
| "argLocation (TokenArg (Some tok)) = tokenLocation tok"
| "argLocation (TokenArg None) = None"
| "argLocation (StringArg s) = None"

definition pushScope :: "FreeVariableChecker \<Rightarrow> nat \<times> FreeVariableChecker" where
  "pushScope c =
     (nextScopeId c,
      c\<lparr>scope := newScope (nextScopeId c) # scope c, nextScopeId := Suc (nextScopeId c)\<rparr>)"

definition visitIdentifierExpression ::
  "ParseTree \<Rightarrow> FreeVariableChecker \<Rightarrow> (unit, FreeVariableChecker) result" where
  "visitIdentifierExpression tree c =
     (case scope c of
        [] \<Rightarrow> (Inl TypeError, c)
      | cur # rest \<Rightarrow>
          (case getVariableName (TreeArg tree) of
             None \<Rightarrow> (Inl TypeError, c)
           | Some name \<Rightarrow>
               if \<not> inKeys name (references cur)
               then (Inr (),
                     c\<lparr>scope := cur\<lparr>references :=
                          references cur @ [(name, argLocation (TreeArg tree))]\<rparr> # rest\<rparr>)
               else (Inr (), c)))"

definition declareVariable ::
  "NameArg \<Rightarrow> FreeVariableChecker \<Rightarrow> (unit, FreeVariableChecker) result" where
  "declareVariable tree c =
     (case getVariableName tree of
        None \<Rightarrow> (Inr (), c)
      | Some name \<Rightarrow>
          if name = [] then (Inr (), c)
          else (case scope c of
                  [] \<Rightarrow> (Inl TypeError, c)
                | cur # rest \<Rightarrow>
                    if \<not> inKeys name (declarations cur)
                    then (Inr (),
                          c\<lparr>scope := cur\<lparr>declarations :=
                               declarations cur @ [(name, argLocation tree)]\<rparr> # rest\<rparr>)
                    else (Inr (), c)))"

text \<open>\<open>reportError\<close> hands position, format and arguments to the error sink.\<close>

definition reportError ::
  "SourcePosition \<times> string \<times> string list \<Rightarrow> FreeVariableChecker \<Rightarrow> FreeVariableChecker" where
  "reportError e c =
     c\<lparr>reporter := reporter c @
        [\<lparr>errorPosition = fst e, errorFormat = fst (snd e), errorArgs = snd (snd e)\<rparr>]\<rparr>"

text \<open>
  The \<open>for (name in scope.references)\<close> loop of \<open>validateScope\<close> in the root scope: it
  collects the \<open>errors\<close> array and throws at the first unresolved name without a location.
\<close>

fun rootErrors ::
  "(string \<times> location) list \<Rightarrow> (string \<times> location) list \<Rightarrow>
   (SourcePosition \<times> string \<times> string list) list \<Rightarrow>
   error + (SourcePosition \<times> string \<times> string list) list" where
  "rootErrors [] decls errors = Inr errors"
| "rootErrors ((name, loc) # refs) decls errors =
     (if \<not> inKeys name decls
      then (case loc of
              None \<Rightarrow> Inl (GeneratedVariableNotDefined name)
            | Some l \<Rightarrow> rootErrors refs decls (errors @ [(start l, ''%s is not defined'', [name])]))
      else rootErrors refs decls errors)"

text \<open>The same loop in a scope with a parent: it writes into \<open>scope.parent.references\<close>.\<close>

fun promote ::
  "(string \<times> location) list \<Rightarrow> (string \<times> location) list \<Rightarrow>
   (string \<times> location) list \<Rightarrow> (string \<times> location) list" where
  "promote [] decls parentRefs = parentRefs"
| "promote ((name, loc) # refs) decls parentRefs =
     (if \<not> inKeys name decls \<and> \<not> inKeys name parentRefs
      then promote refs decls (parentRefs @ [(name, loc)])
      else promote refs decls parentRefs)"

text \<open>
  \<open>errors.sort\<close> with the comparator \<open>x[0].offset - y[0].offset\<close> is a sort on the offset;
  the model's sort is the stable one.
\<close>

definition validateScope ::
  "FreeVariableChecker \<Rightarrow> (unit, FreeVariableChecker) result" where
  "validateScope c =
     (case scope c of
        [] \<Rightarrow> (Inl TypeError, c)
      | [cur] \<Rightarrow>
          (case rootErrors (references cur) (declarations cur) [] of
             Inl e \<Rightarrow> (Inl e, c)
           | Inr errors \<Rightarrow>
               (Inr (), fold reportError (sort_key (\<lambda>e. offset (fst e)) errors) c))
      | cur # parent # rest \<Rightarrow>
          (Inr (),
           c\<lparr>scope := cur
                # parent\<lparr>references :=
                    promote (references cur) (declarations cur) (references parent)\<rparr>
                # rest\<rparr>))"

definition pop :: "nat \<Rightarrow> FreeVariableChecker \<Rightarrow> (unit, FreeVariableChecker) result" where
  "pop expected c =
     (case scope c of
        [] \<Rightarrow> (Inl ScopeMismatch, c)
      | cur # rest \<Rightarrow>
          if scopeId cur \<noteq> expected then (Inl ScopeMismatch, c)
          else (case validateScope c of
                  (Inl e, c') \<Rightarrow> (Inl e, c')
                | (Inr u, c') \<Rightarrow> (Inr (), c'\<lparr>scope := tl (scope c')\<rparr>)))"

text \<open>
  \<open>Object.getOwnPropertyNames(object).forEach(this.declareVariable, this)\<close> along the
  prototype chain of the global object: \<open>global\<close> is the list of the own property names of
  each object on that chain.
\<close>

fun declareAll :: "string list \<Rightarrow> FreeVariableChecker \<Rightarrow> (unit, FreeVariableChecker) result" where
  "declareAll [] c = (Inr (), c)"
| "declareAll (n # ns) c =
     (case declareVariable (StringArg n) c of
        (Inl e, c') \<Rightarrow> (Inl e, c')
      | (Inr u, c') \<Rightarrow> declareAll ns c')"

definition declareGlobals ::
  "string list list \<Rightarrow> FreeVariableChecker \<Rightarrow> (unit, FreeVariableChecker) result" where
  "declareGlobals global c = declareAll (concat global) c"

text \<open>
  The visitor.  \<open>visitAny\<close> dispatches on the node kind as \<open>ParseTreeVisitor\<close> does; a node
  kind the checker does not override is visited child by child, in field order
  (\<open>visitList\<close>).  \<open>visitAny\<close> of \<open>null\<close> does nothing.  \<open>visitProgram\<close> and \<open>visitFunction\<close>
  take the fields of the tree they read; \<open>visitDeclarations\<close> is the \<open>forEach\<close> of
  \<open>visitVariableDeclarationList\<close>.
\<close>

function (sequential)
  visitAny :: "ParseTree \<Rightarrow> FreeVariableChecker \<Rightarrow> (unit, FreeVariableChecker) result"
  and visitList :: "ParseTree list \<Rightarrow> FreeVariableChecker \<Rightarrow> (unit, FreeVariableChecker) result"
  and visitProgram ::
    "ParseTree list \<Rightarrow> string list list \<Rightarrow> FreeVariableChecker \<Rightarrow>
     (unit, FreeVariableChecker) result"
  and visitStatements ::
    "ParseTree list \<Rightarrow> FreeVariableChecker \<Rightarrow> (unit, FreeVariableChecker) result"
  and visitFunction ::
    "IdentifierToken option \<Rightarrow> ParseTree \<Rightarrow> ParseTree \<Rightarrow> FreeVariableChecker \<Rightarrow>
     (unit, FreeVariableChecker) result"
  and visitDeclarations ::
    "ParseTree list \<Rightarrow> FreeVariableChecker \<Rightarrow> (unit, FreeVariableChecker) result"
where
  "visitAny NullTree c = (Inr (), c)"
| "visitAny (Program programElements) c = visitProgram programElements [] c"
| "visitAny (Block statements) c = visitStatements statements c"
| "visitAny (FunctionDeclaration name formalParameterList functionBody) c =
     visitFunction name formalParameterList functionBody c"
| "visitAny (ArrowFunctionExpression formalParameters functionBody) c =
     visitFunction None formalParameters functionBody c"
| "visitAny (GetAccessor l propertyName body) c =
     (case pushScope c of
        (sc, c1) \<Rightarrow>
          (case visitAny body c1 of
             (Inl e, c2) \<Rightarrow> (Inl e, c2)
           | (Inr u, c2) \<Rightarrow> pop sc c2))"
| "visitAny (SetAccessor l propertyName parameter body) c =
     (case pushScope c of
        (sc, c1) \<Rightarrow>
          (case declareVariable
                  (TreeArg (case parameter of BindingElement binding initializer \<Rightarrow> binding
                            | _ \<Rightarrow> NullTree)) c1 of
             (Inl e, c2) \<Rightarrow> (Inl e, c2)
           | (Inr u, c2) \<Rightarrow>
               (case visitAny body c2 of
                  (Inl e, c3) \<Rightarrow> (Inl e, c3)
                | (Inr u, c3) \<Rightarrow> pop sc c3)))"
| "visitAny (Catch binding catchBody) c =
     (case pushScope c of
        (sc, c1) \<Rightarrow>
          (case visitAny binding c1 of
             (Inl e, c2) \<Rightarrow> (Inl e, c2)
           | (Inr u, c2) \<Rightarrow>
               (case visitAny catchBody c2 of
                  (Inl e, c3) \<Rightarrow> (Inl e, c3)
                | (Inr u, c3) \<Rightarrow> pop sc c3)))"
| "visitAny (VariableDeclarationList declarationType decls) c =
     (if declarationType \<noteq> VAR then (Inl LetConstNotRewritten, c)
      else visitDeclarations decls c)"
| "visitAny (BindingIdentifier l tok) c = declareVariable (TreeArg (BindingIdentifier l tok)) c"
| "visitAny (IdentifierExpression l tok) c =
     visitIdentifierExpression (IdentifierExpression l tok) c"
| "visitAny (PropertyMethodAssignment l name isGenerator formalParameterList functionBody) c =
     visitList [formalParameterList, functionBody] c"
| "visitAny (VariableDeclaration lvalue initializer) c = visitList [lvalue, initializer] c"
| "visitAny (BindingElement binding initializer) c = visitList [binding, initializer] c"
| "visitAny (ClassDeclaration name extends members) c =
     visitList (name # extends # members) c"
| "visitAny (ClassExpression name extends members) c =
     visitList (name # extends # members) c"
| "visitAny (Node kind toks children) c = visitList children c"
| "visitList [] c = (Inr (), c)"
| "visitList (t # ts) c =
     (case visitAny t c of
        (Inl e, c1) \<Rightarrow> (Inl e, c1)
      | (Inr u, c1) \<Rightarrow> visitList ts c1)"
| "visitProgram programElements global c =
     (case pushScope c of
        (sc, c1) \<Rightarrow>
          (case declareGlobals global c1 of
             (Inl e, c2) \<Rightarrow> (Inl e, c2)
           | (Inr u, c2) \<Rightarrow>
               (case visitStatements programElements c2 of
                  (Inl e, c3) \<Rightarrow> (Inl e, c3)
                | (Inr u, c3) \<Rightarrow> pop sc c3)))"
| "visitStatements [] c = (Inr (), c)"
| "visitStatements (s # ss) c =
     (case (case s of
              FunctionDeclaration name formalParameterList functionBody \<Rightarrow>
                declareVariable (TokenArg name) c
            | _ \<Rightarrow> (Inr (), c)) of
        (Inl e, c1) \<Rightarrow> (Inl e, c1)
      | (Inr u, c1) \<Rightarrow>
          (case visitAny s c1 of
             (Inl e, c2) \<Rightarrow> (Inl e, c2)
           | (Inr u, c2) \<Rightarrow> visitStatements ss c2))"
| "visitFunction name formalParameterList body c =
     (case pushScope c of
        (sc, c1) \<Rightarrow>
          (case (case name of None \<Rightarrow> (Inr (), c1) | Some tok \<Rightarrow> declareVariable (TokenArg name) c1) of
             (Inl e, c2) \<Rightarrow> (Inl e, c2)
           | (Inr u, c2) \<Rightarrow>
               (case declareVariable (StringArg ''arguments'') c2 of
                  (Inl e, c3) \<Rightarrow> (Inl e, c3)
                | (Inr u, c3) \<Rightarrow>
                    (case visitAny formalParameterList c3 of
                       (Inl e, c4) \<Rightarrow> (Inl e, c4)
                     | (Inr u, c4) \<Rightarrow>
                         (case visitAny body c4 of
                            (Inl e, c5) \<Rightarrow> (Inl e, c5)
                          | (Inr u, c5) \<Rightarrow> pop sc c5)))))"
| "visitDeclarations [] c = (Inr (), c)"
| "visitDeclarations (VariableDeclaration lvalue initializer # ds) c =
     (case declareVariable (TreeArg lvalue) c of
        (Inl e, c1) \<Rightarrow> (Inl e, c1)
      | (Inr u, c1) \<Rightarrow>
          (case visitAny initializer c1 of
             (Inl e, c2) \<Rightarrow> (Inl e, c2)
           | (Inr u, c2) \<Rightarrow> visitDeclarations ds c2))"
| "visitDeclarations (d # ds) c = visitDeclarations ds c"
  by pat_completeness auto

termination
  by (relation "measure (\<lambda>x. case x of
        Inl (Inl (t, c)) \<Rightarrow> 3 * size t
      | Inl (Inr (Inl (ts, c))) \<Rightarrow> 3 * sum_list (map size ts) + length ts
      | Inl (Inr (Inr (ts, g, c))) \<Rightarrow> 3 * sum_list (map size ts) + length ts + 1
      | Inr (Inl (ts, c)) \<Rightarrow> 3 * sum_list (map size ts) + length ts
      | Inr (Inr (Inl (n, p, b, c))) \<Rightarrow> 3 * (size p + size b) + 1
      | Inr (Inr (Inr (ds, c))) \<Rightarrow> 3 * sum_list (map size ds) + length ds)")
    (auto simp: size_list_conv_sum_list)

declare visitFunction.simps [simp del] visitProgram.simps [simp del]

text \<open>\<open>checkProgram\<close>: a fresh checker with the given error sink visits the program.\<close>

definition checkProgram ::
  "ReportedError list \<Rightarrow> ParseTree \<Rightarrow> string list list \<Rightarrow> (unit, FreeVariableChecker) result" where
  "checkProgram rep tree global =
     (case tree of
        Program programElements \<Rightarrow>
          visitProgram programElements global \<lparr>scope = [], nextScopeId = 0, reporter = rep\<rparr>
      | _ \<Rightarrow> (Inl TypeError, \<lparr>scope = [], nextScopeId = 0, reporter = rep\<rparr>))"

section \<open>ParseTreeFactory\<close>

text \<open>
  Modelled from the spec: the tree factory is not part of the two passes; its functions only
  build nodes.  A created node has no location.  \<open>createIdentifierExpression\<close> takes a
  string or an identifier token; the string form makes the token first.
\<close>

definition createIdentifierToken :: "string \<Rightarrow> IdentifierToken" where
  "createIdentifierToken name = IdentifierToken None name"

definition createIdentifierExpression :: "IdentifierToken \<Rightarrow> ParseTree" where
  "createIdentifierExpression identifier = IdentifierExpression None identifier"

definition createArgumentList :: "ParseTree list \<Rightarrow> ParseTree" where
  "createArgumentList args = Node ARGUMENT_LIST [] args"

definition createCallExpression :: "ParseTree \<Rightarrow> ParseTree \<Rightarrow> ParseTree" where
  "createCallExpression operand args = Node CALL_EXPRESSION [] [operand, args]"

definition createExpressionStatement :: "ParseTree \<Rightarrow> ParseTree" where
  "createExpressionStatement expression = Node EXPRESSION_STATEMENT [] [expression]"

definition createBlock :: "ParseTree list \<Rightarrow> ParseTree" where
  "createBlock statements = Block statements"

definition createMemberExpression :: "string \<Rightarrow> string list \<Rightarrow> ParseTree" where
  "createMemberExpression operand memberNames =
     foldl (\<lambda>tree memberName. Node MEMBER_EXPRESSION [IdToken (createIdentifierToken memberName)] [tree])
       (createIdentifierExpression (createIdentifierToken operand)) memberNames"

definition createObjectLiteralExpression :: "ParseTree list \<Rightarrow> ParseTree" where
  "createObjectLiteralExpression propertyNameAndValues =
     Node OBJECT_LITERAL_EXPRESSION [] propertyNameAndValues"

definition createNullLiteral :: ParseTree where
  "createNullLiteral = Node LITERAL_EXPRESSION [Token NULL] []"

definition createBooleanLiteral :: "bool \<Rightarrow> ParseTree" where
  "createBooleanLiteral b = Node LITERAL_EXPRESSION [Token (if b then TRUE else FALSE)] []"

definition createParenExpression :: "ParseTree \<Rightarrow> ParseTree" where
  "createParenExpression expression = Node PAREN_EXPRESSION [] [expression]"

definition createAssignmentExpression :: "ParseTree \<Rightarrow> ParseTree \<Rightarrow> ParseTree" where
  "createAssignmentExpression lhs rhs = Node BINARY_OPERATOR [Token EQUAL] [lhs, rhs]"

definition createFunctionExpression :: "ParseTree \<Rightarrow> ParseTree \<Rightarrow> ParseTree" where
  "createFunctionExpression formalParameterList functionBody =
     FunctionDeclaration None formalParameterList functionBody"

definition createPropertyNameAssignment :: "string \<Rightarrow> ParseTree \<Rightarrow> ParseTree" where
  "createPropertyNameAssignment identifier v =
     Node PROPERTY_NAME_ASSIGNMENT [IdToken (createIdentifierToken identifier)] [v]"

definition createRestParameter :: "string \<Rightarrow> ParseTree" where
  "createRestParameter identifier =
     Node REST_PARAMETER [] [BindingIdentifier None (createIdentifierToken identifier)]"

definition createSpreadExpression :: "ParseTree \<Rightarrow> ParseTree" where
  "createSpreadExpression expression = Node SPREAD_EXPRESSION [] [expression]"

definition createVariableStatement :: "TokenType \<Rightarrow> ParseTree \<Rightarrow> ParseTree \<Rightarrow> ParseTree" where
  "createVariableStatement binding identifier initializer =
     Node VARIABLE_STATEMENT []
       [VariableDeclarationList binding [VariableDeclaration identifier initializer]]"

text \<open>The predefined names the class transformer imports.\<close>

definition CONSTRUCTOR :: string where "CONSTRUCTOR = ''constructor''"
definition CREATE_CLASS :: string where "CREATE_CLASS = ''createClass''"
definition RUNTIME :: string where "RUNTIME = ''runtime''"
definition TRACEUR :: string where "TRACEUR = ''traceur''"

section \<open>ClassTransformer\<close>

text \<open>
  \<open>State\<close> is the class context; its fields \<open>tree\<close> and \<open>name\<close> are called \<open>classTree\<close> and
  \<open>className\<close> here.  The transformer's state holds the module-level \<open>stack\<close> (top first),
  the read-only option \<open>blockBinding\<close>, and what the \<open>TempVarTransformer\<close> base keeps.
\<close>

record State =
  classTree :: ParseTree
  className :: ParseTree
  hasSuper :: bool

record ClassTransformer =
  stack :: "State list"
  blockBinding :: bool
  tempVars :: "string list"
  identifierIndex :: nat

definition newState :: "ParseTree \<Rightarrow> State" where
  "newState t = \<lparr>classTree = t, className = NullTree, hasSuper = False\<rparr>"

definition peekState :: "ClassTransformer \<Rightarrow> State option" where
  "peekState s = (case stack s of [] \<Rightarrow> None | st # rest \<Rightarrow> Some st)"

text \<open>
  Modelled from the spec: \<open>TempVarTransformer\<close> is not among the sources.  \<open>addTempVar\<close>
  allocates a fresh unique temporary binding name, \<open>removeTempVar\<close> releases a previously
  allocated one.  Names come from a counter; \<open>tempVars\<close> lists the names allocated and not
  released, newest first.
\<close>

fun decimal :: "nat \<Rightarrow> string" where
  "decimal n =
     (if n < 10 then [''0123456789'' ! n]
      else decimal (n div 10) @ [''0123456789'' ! (n mod 10)])"

declare decimal.simps [simp del]

definition generateUniqueIdentifier :: "nat \<Rightarrow> string" where
  "generateUniqueIdentifier n = ''$__'' @ decimal n"

definition addTempVar :: "ClassTransformer \<Rightarrow> string \<times> ClassTransformer" where
  "addTempVar s =
     (generateUniqueIdentifier (identifierIndex s),
      s\<lparr>tempVars := generateUniqueIdentifier (identifierIndex s) # tempVars s,
        identifierIndex := Suc (identifierIndex s)\<rparr>)"

definition removeTempVar :: "string \<Rightarrow> ClassTransformer \<Rightarrow> ClassTransformer" where
  "removeTempVar name s = s\<lparr>tempVars := remove1 name (tempVars s)\<rparr>"

text \<open>
  \<open>SuperTransformer\<close> is not among the sources either.  The transformer takes it as a
  parameter \<open>S\<close>: \<open>S className methodTree tree\<close> is the rewritten tree together with the
  \<open>hasSuper\<close> flag read afterwards.
\<close>

type_synonym superTransformer = "ParseTree \<Rightarrow> ParseTree \<Rightarrow> ParseTree \<Rightarrow> ParseTree \<times> bool"

definition isClassTree :: "ParseTree \<Rightarrow> bool" where
  "isClassTree t =
     (case t of ClassDeclaration n sc els \<Rightarrow> True | ClassExpression n sc els \<Rightarrow> True
      | _ \<Rightarrow> False)"

text \<open>The number of class nodes of a tree (for the termination of the transformer).\<close>

fun classes :: "ParseTree \<Rightarrow> nat" where
  "classes NullTree = 0"
| "classes (Program ts) = sum_list (map classes ts)"
| "classes (Block ts) = sum_list (map classes ts)"
| "classes (FunctionDeclaration n p b) = classes p + classes b"
| "classes (ArrowFunctionExpression p b) = classes p + classes b"
| "classes (GetAccessor l n b) = classes b"
| "classes (SetAccessor l n p b) = classes p + classes b"
| "classes (PropertyMethodAssignment l n g p b) = classes p + classes b"
| "classes (Catch a b) = classes a + classes b"
| "classes (VariableDeclarationList ty ds) = sum_list (map classes ds)"
| "classes (VariableDeclaration a b) = classes a + classes b"
| "classes (BindingElement a b) = classes a + classes b"
| "classes (BindingIdentifier l tok) = 0"
| "classes (IdentifierExpression l tok) = 0"
| "classes (ClassDeclaration n sc els) = Suc (classes n + classes sc + sum_list (map classes els))"
| "classes (ClassExpression n sc els) = Suc (classes n + classes sc + sum_list (map classes els))"
| "classes (Node k toks ts) = sum_list (map classes ts)"

text \<open>
  The tree \<open>getDefaultConstructor\<close> builds: \<open>constructor(...args) { super(...args) }\<close>, as a
  property method assignment without location.
\<close>

definition defaultConstructorParameters :: ParseTree where
  "defaultConstructorParameters = Node FORMAL_PARAMETER_LIST [] [createRestParameter ''args'']"

definition defaultConstructorBody :: ParseTree where
  "defaultConstructorBody =
     createBlock
       [createExpressionStatement
          (createCallExpression (Node SUPER_EXPRESSION [] [])
             (createArgumentList
                [createSpreadExpression
                   (createIdentifierExpression (createIdentifierToken ''args''))]))]"

definition defaultConstructorTree :: ParseTree where
  "defaultConstructorTree =
     PropertyMethodAssignment None (createIdentifierToken CONSTRUCTOR) False
       defaultConstructorParameters defaultConstructorBody"

lemma classes_defaultConstructorTree: "classes defaultConstructorTree = 0"
  by (simp add: defaultConstructorTree_def defaultConstructorParameters_def
      defaultConstructorBody_def createRestParameter_def createBlock_def
      createExpressionStatement_def createCallExpression_def createArgumentList_def
      createSpreadExpression_def createIdentifierExpression_def)

lemma size_defaultConstructorTree: "size defaultConstructorTree < 50"
  by (simp add: defaultConstructorTree_def defaultConstructorParameters_def
      defaultConstructorBody_def createRestParameter_def createBlock_def
      createExpressionStatement_def createCallExpression_def createArgumentList_def
      createSpreadExpression_def createIdentifierExpression_def)

lemma isClassTree_smaller:
  assumes "isClassTree t"
  shows "classes (superClass t) < classes t \<and>
         sum_list (map classes (elements t)) < classes t \<and>
         size (superClass t) < size t \<and>
         sum_list (map size (elements t)) + length (elements t) < size t"
  using assms by (cases t; simp add: isClassTree_def size_list_conv_sum_list)

text \<open>
  The transformer.  \<open>transformAny\<close> is the inherited dispatch: a class node goes to
  \<open>transformClassDeclaration\<close> or \<open>transformClassExpression\<close>, any other node is rebuilt from
  its transformed children (modelled from the spec: the generic rewrite base returns the
  node unchanged when no child changed, which for a value is the same node again), and
  \<open>null\<close> stays \<open>null\<close>.  \<open>transformList\<close> transforms a list of children in order;
  \<open>transformElements\<close> is the callback of \<open>tree.elements.map\<close> in \<open>transformClassShared\<close>,
  threading the local variable \<open>constructor\<close> (\<open>None\<close> while undefined).

  \<open>transformClassShared\<close> and \<open>transformSuperInBlock\<close> hold the \<open>State\<close> object in a local
  variable while the stack is used by nested classes.  In the model the object is the top
  of the stack again whenever the nested call has returned (\<open>stack_preserved\<close> below), so
  the later reads and writes through the local variable are reads and writes of the top;
  should the stack be empty there, nothing is written and \<open>TypeError\<close> stands for the
  unreachable read.
\<close>

function (sequential)
  transformAny ::
    "superTransformer \<Rightarrow> ParseTree \<Rightarrow> ClassTransformer \<Rightarrow> (ParseTree, ClassTransformer) result"
  and transformList ::
    "superTransformer \<Rightarrow> ParseTree list \<Rightarrow> ClassTransformer \<Rightarrow>
     (ParseTree list, ClassTransformer) result"
  and transformClassShared ::
    "superTransformer \<Rightarrow> ParseTree \<Rightarrow> IdentifierToken \<Rightarrow> ClassTransformer \<Rightarrow>
     (ParseTree \<times> bool, ClassTransformer) result"
  and transformElements ::
    "superTransformer \<Rightarrow> ParseTree list \<Rightarrow> ParseTree option \<Rightarrow> ClassTransformer \<Rightarrow>
     (ParseTree list \<times> ParseTree option, ClassTransformer) result"
  and transformClassDeclaration ::
    "superTransformer \<Rightarrow> ParseTree \<Rightarrow> ClassTransformer \<Rightarrow> (ParseTree, ClassTransformer) result"
  and transformClassExpression ::
    "superTransformer \<Rightarrow> ParseTree \<Rightarrow> ClassTransformer \<Rightarrow> (ParseTree, ClassTransformer) result"
  and transformPropertyMethodAssignment ::
    "superTransformer \<Rightarrow> ParseTree \<Rightarrow> ClassTransformer \<Rightarrow> (ParseTree, ClassTransformer) result"
  and transformGetAccessor ::
    "superTransformer \<Rightarrow> ParseTree \<Rightarrow> ClassTransformer \<Rightarrow> (ParseTree, ClassTransformer) result"
  and transformSetAccessor ::
    "superTransformer \<Rightarrow> ParseTree \<Rightarrow> ClassTransformer \<Rightarrow> (ParseTree, ClassTransformer) result"
  and transformConstructor ::
    "superTransformer \<Rightarrow> ParseTree \<Rightarrow> ClassTransformer \<Rightarrow> (ParseTree, ClassTransformer) result"
  and transformSuperInBlock ::
    "superTransformer \<Rightarrow> ParseTree \<Rightarrow> ParseTree \<Rightarrow> ClassTransformer \<Rightarrow>
     (ParseTree, ClassTransformer) result"
  and getDefaultConstructor ::
    "superTransformer \<Rightarrow> ParseTree \<Rightarrow> ClassTransformer \<Rightarrow> (ParseTree, ClassTransformer) result"
where
  "transformAny S NullTree s = (Inr NullTree, s)"
| "transformAny S (ClassDeclaration name sc els) s =
     transformClassDeclaration S (ClassDeclaration name sc els) s"
| "transformAny S (ClassExpression name sc els) s =
     transformClassExpression S (ClassExpression name sc els) s"
| "transformAny S (Program programElements) s =
     (case transformList S programElements s of
        (Inl e, s1) \<Rightarrow> (Inl e, s1)
      | (Inr programElements', s1) \<Rightarrow> (Inr (Program programElements'), s1))"
| "transformAny S (Block statements) s =
     (case transformList S statements s of
        (Inl e, s1) \<Rightarrow> (Inl e, s1)
      | (Inr statements', s1) \<Rightarrow> (Inr (Block statements'), s1))"
| "transformAny S (FunctionDeclaration name formalParameterList functionBody) s =
     (case transformAny S formalParameterList s of
        (Inl e, s1) \<Rightarrow> (Inl e, s1)
      | (Inr parameters, s1) \<Rightarrow>
          (case transformAny S functionBody s1 of
             (Inl e, s2) \<Rightarrow> (Inl e, s2)
           | (Inr body, s2) \<Rightarrow> (Inr (FunctionDeclaration name parameters body), s2)))"
| "transformAny S (ArrowFunctionExpression formalParameters functionBody) s =
     (case transformAny S formalParameters s of
        (Inl e, s1) \<Rightarrow> (Inl e, s1)
      | (Inr parameters, s1) \<Rightarrow>
          (case transformAny S functionBody s1 of
             (Inl e, s2) \<Rightarrow> (Inl e, s2)
           | (Inr body, s2) \<Rightarrow> (Inr (ArrowFunctionExpression parameters body), s2)))"
| "transformAny S (GetAccessor l propertyName body) s =
     (case transformAny S body s of
        (Inl e, s1) \<Rightarrow> (Inl e, s1)
      | (Inr body', s1) \<Rightarrow> (Inr (GetAccessor l propertyName body'), s1))"
| "transformAny S (SetAccessor l propertyName parameter body) s =
     (case transformAny S parameter s of
        (Inl e, s1) \<Rightarrow> (Inl e, s1)
      | (Inr parameter', s1) \<Rightarrow>
          (case transformAny S body s1 of
             (Inl e, s2) \<Rightarrow> (Inl e, s2)
           | (Inr body', s2) \<Rightarrow> (Inr (SetAccessor l propertyName parameter' body'), s2)))"
| "transformAny S (PropertyMethodAssignment l name isGenerator formalParameterList functionBody) s =
     (case transformAny S formalParameterList s of
        (Inl e, s1) \<Rightarrow> (Inl e, s1)
      | (Inr parameters, s1) \<Rightarrow>
          (case transformAny S functionBody s1 of
             (Inl e, s2) \<Rightarrow> (Inl e, s2)
           | (Inr body, s2) \<Rightarrow>
               (Inr (PropertyMethodAssignment l name isGenerator parameters body), s2)))"
| "transformAny S (Catch binding catchBody) s =
     (case transformAny S binding s of
        (Inl e, s1) \<Rightarrow> (Inl e, s1)
      | (Inr binding', s1) \<Rightarrow>
          (case transformAny S catchBody s1 of
             (Inl e, s2) \<Rightarrow> (Inl e, s2)
           | (Inr body, s2) \<Rightarrow> (Inr (Catch binding' body), s2)))"
| "transformAny S (VariableDeclarationList declarationType decls) s =
     (case transformList S decls s of
        (Inl e, s1) \<Rightarrow> (Inl e, s1)
      | (Inr decls', s1) \<Rightarrow> (Inr (VariableDeclarationList declarationType decls'), s1))"
| "transformAny S (VariableDeclaration lvalue initializer) s =
     (case transformAny S lvalue s of
        (Inl e, s1) \<Rightarrow> (Inl e, s1)
      | (Inr lvalue', s1) \<Rightarrow>
          (case transformAny S initializer s1 of
             (Inl e, s2) \<Rightarrow> (Inl e, s2)
           | (Inr initializer', s2) \<Rightarrow> (Inr (VariableDeclaration lvalue' initializer'), s2)))"
| "transformAny S (BindingElement binding initializer) s =
     (case transformAny S binding s of
        (Inl e, s1) \<Rightarrow> (Inl e, s1)
      | (Inr binding', s1) \<Rightarrow>
          (case transformAny S initializer s1 of
             (Inl e, s2) \<Rightarrow> (Inl e, s2)
           | (Inr initializer', s2) \<Rightarrow> (Inr (BindingElement binding' initializer'), s2)))"
| "transformAny S (BindingIdentifier l tok) s = (Inr (BindingIdentifier l tok), s)"
| "transformAny S (IdentifierExpression l tok) s = (Inr (IdentifierExpression l tok), s)"
| "transformAny S (Node kind toks children) s =
     (case transformList S children s of
        (Inl e, s1) \<Rightarrow> (Inl e, s1)
      | (Inr children', s1) \<Rightarrow> (Inr (Node kind toks children'), s1))"
| "transformList S [] s = (Inr [], s)"
| "transformList S (t # ts) s =
     (case transformAny S t s of
        (Inl e, s1) \<Rightarrow> (Inl e, s1)
      | (Inr t', s1) \<Rightarrow>
          (case transformList S ts s1 of
             (Inl e, s2) \<Rightarrow> (Inl e, s2)
           | (Inr ts', s2) \<Rightarrow> (Inr (t' # ts'), s2)))"
| "transformClassShared S tree name s =
     (if \<not> isClassTree tree then (Inl TypeError, s)
      else
       (case transformAny S (superClass tree) s of
          (Inl e, s1) \<Rightarrow> (Inl e, s1)
        | (Inr superClass', s1) \<Rightarrow>
            (case transformElements S (elements tree) None
                    (s1\<lparr>stack := (newState tree)\<lparr>className := createIdentifierExpression name\<rparr>
                                  # stack s1\<rparr>) of
               (Inl e, s2) \<Rightarrow> (Inl e, s2)
             | (Inr (elements', constructor), s2) \<Rightarrow>
                 (case (case constructor of
                          None \<Rightarrow>
                            (case getDefaultConstructor S tree s2 of
                               (Inl e, s3) \<Rightarrow> (Inl e, s3)
                             | (Inr c, s3) \<Rightarrow> (Inr (elements' @ [c]), s3))
                        | Some c \<Rightarrow> (Inr elements', s2)) of
                    (Inl e, s3) \<Rightarrow> (Inl e, s3)
                  | (Inr elements'', s3) \<Rightarrow>
                      (case stack s3 of
                         [] \<Rightarrow> (Inl TypeError, s3)
                       | state # rest \<Rightarrow>
                           (Inr (createCallExpression
                                   (createMemberExpression TRACEUR [RUNTIME, CREATE_CLASS])
                                   (createArgumentList
                                      [createObjectLiteralExpression elements'',
                                       if superClass' = NullTree then createNullLiteral
                                       else superClass',
                                       createBooleanLiteral (constructor \<noteq> None),
                                       createBooleanLiteral (superClass' \<noteq> NullTree)]),
                                 hasSuper state),
                            s3\<lparr>stack := rest\<rparr>))))))"
| "transformElements S [] constructor s = (Inr ([], constructor), s)"
| "transformElements S (t # ts) constructor s =
     (case (case t of
              GetAccessor l propertyName body \<Rightarrow>
                (case transformGetAccessor S t s of
                   (Inl e, s1) \<Rightarrow> (Inl e, s1)
                 | (Inr t', s1) \<Rightarrow> (Inr (t', constructor), s1))
            | SetAccessor l propertyName parameter body \<Rightarrow>
                (case transformSetAccessor S t s of
                   (Inl e, s1) \<Rightarrow> (Inl e, s1)
                 | (Inr t', s1) \<Rightarrow> (Inr (t', constructor), s1))
            | PropertyMethodAssignment l name isGenerator formalParameterList functionBody \<Rightarrow>
                if tokenValue name = CONSTRUCTOR
                then (case transformConstructor S t s of
                        (Inl e, s1) \<Rightarrow> (Inl e, s1)
                      | (Inr t', s1) \<Rightarrow> (Inr (t', Some t'), s1))
                else (case transformPropertyMethodAssignment S t s of
                        (Inl e, s1) \<Rightarrow> (Inl e, s1)
                      | (Inr t', s1) \<Rightarrow> (Inr (t', constructor), s1))
            | _ \<Rightarrow> (Inl (UnexpectedClassElement t), s)) of
        (Inl e, s1) \<Rightarrow> (Inl e, s1)
      | (Inr (t', constructor'), s1) \<Rightarrow>
          (case transformElements S ts constructor' s1 of
             (Inl e, s2) \<Rightarrow> (Inl e, s2)
           | (Inr (ts', constructor''), s2) \<Rightarrow> (Inr (t' # ts', constructor''), s2)))"
| "transformClassDeclaration S tree s =
     (case tree of
        ClassDeclaration (BindingIdentifier l identifierToken) sc els \<Rightarrow>
          (case transformClassShared S tree identifierToken s of
             (Inl e, s1) \<Rightarrow> (Inl e, s1)
           | (Inr (classTree', hasSuper'), s1) \<Rightarrow>
               (Inr (createVariableStatement (if blockBinding s1 then LET else VAR)
                       (BindingIdentifier l identifierToken) classTree'),
                s1))
      | _ \<Rightarrow> (Inl TypeError, s))"
| "transformClassExpression S tree s =
     (case addTempVar s of
        (tempIdent, s0) \<Rightarrow>
          (case transformClassShared S tree (createIdentifierToken tempIdent) s0 of
             (Inl e, s1) \<Rightarrow> (Inl e, s1)
           | (Inr (classTree', hasSuper'), s1) \<Rightarrow>
               if hasSuper'
               then (Inr (createParenExpression
                            (createAssignmentExpression
                               (createIdentifierExpression (createIdentifierToken tempIdent))
                               classTree')),
                     s1)
               else (Inr classTree', removeTempVar tempIdent s1)))"
| "transformPropertyMethodAssignment S tree s =
     (case tree of
        PropertyMethodAssignment l name isGenerator formalParameterList functionBody \<Rightarrow>
          (case transformAny S formalParameterList s of
             (Inl e, s1) \<Rightarrow> (Inl e, s1)
           | (Inr formalParameterList', s1) \<Rightarrow>
               (case transformSuperInBlock S tree functionBody s1 of
                  (Inl e, s2) \<Rightarrow> (Inl e, s2)
                | (Inr functionBody', s2) \<Rightarrow>
                    if formalParameterList' = formalParameterList \<and> functionBody' = functionBody
                    then (Inr tree, s2)
                    else (Inr (PropertyMethodAssignment l name isGenerator formalParameterList'
                                 functionBody'), s2)))
      | _ \<Rightarrow> (Inl TypeError, s))"
| "transformGetAccessor S tree s =
     (case tree of
        GetAccessor l propertyName body \<Rightarrow>
          (case transformSuperInBlock S tree body s of
             (Inl e, s1) \<Rightarrow> (Inl e, s1)
           | (Inr body', s1) \<Rightarrow>
               if body' = body then (Inr tree, s1)
               else (Inr (GetAccessor l propertyName body'), s1))
      | _ \<Rightarrow> (Inl TypeError, s))"
| "transformSetAccessor S tree s =
     (case tree of
        SetAccessor l propertyName parameter body \<Rightarrow>
          (case transformAny S parameter s of
             (Inl e, s1) \<Rightarrow> (Inl e, s1)
           | (Inr parameter', s1) \<Rightarrow>
               (case transformSuperInBlock S tree body s1 of
                  (Inl e, s2) \<Rightarrow> (Inl e, s2)
                | (Inr body', s2) \<Rightarrow>
                    if body' = body then (Inr tree, s2)
                    else (Inr (SetAccessor l propertyName parameter' body'), s2)))
      | _ \<Rightarrow> (Inl TypeError, s))"
| "transformConstructor S tree s =
     (case tree of
        PropertyMethodAssignment l name isGenerator formalParameterList functionBody \<Rightarrow>
          (case transformAny S formalParameterList s of
             (Inl e, s1) \<Rightarrow> (Inl e, s1)
           | (Inr parameters, s1) \<Rightarrow>
               (case transformSuperInBlock S tree functionBody s1 of
                  (Inl e, s2) \<Rightarrow> (Inl e, s2)
                | (Inr functionBody', s2) \<Rightarrow>
                    (Inr (createPropertyNameAssignment CONSTRUCTOR
                            (createFunctionExpression parameters functionBody')), s2)))
      | _ \<Rightarrow> (Inl TypeError, s))"
| "transformSuperInBlock S methodTree tree s =
     (case peekState s of
        None \<Rightarrow> (Inl TypeError, s)
      | Some state \<Rightarrow>
          (case transformAny S tree s of
             (Inl e, s1) \<Rightarrow> (Inl e, s1)
           | (Inr tree', s1) \<Rightarrow>
               (case S (className state) methodTree tree' of
                  (transformedTree, found) \<Rightarrow>
                    (Inr transformedTree,
                     if found
                     then s1\<lparr>stack := (case stack s1 of
                                          [] \<Rightarrow> []
                                        | state' # rest \<Rightarrow> state'\<lparr>hasSuper := True\<rparr> # rest)\<rparr>
                     else s1))))"
| "getDefaultConstructor S tree s = transformConstructor S defaultConstructorTree s"
  by pat_completeness auto

termination
  apply (relation "measure (\<lambda>x. case x of
        Inl (Inl (Inl (S, t, s))) \<Rightarrow> 4 * (100 * classes t + size t) + 2
      | Inl (Inl (Inr (Inl (S, ts, s)))) \<Rightarrow>
          4 * (100 * sum_list (map classes ts) + sum_list (map size ts) + length ts)
      | Inl (Inl (Inr (Inr (S, t, n, s)))) \<Rightarrow> 4 * (100 * classes t + size t)
      | Inl (Inr (Inl (S, ts, c, s))) \<Rightarrow>
          4 * (100 * sum_list (map classes ts) + sum_list (map size ts) + length ts)
      | Inl (Inr (Inr (Inl (S, t, s)))) \<Rightarrow> 4 * (100 * classes t + size t) + 1
      | Inl (Inr (Inr (Inr (S, t, s)))) \<Rightarrow> 4 * (100 * classes t + size t) + 1
      | Inr (Inl (Inl (S, t, s))) \<Rightarrow> 4 * (100 * classes t + size t)
      | Inr (Inl (Inr (Inl (S, t, s)))) \<Rightarrow> 4 * (100 * classes t + size t)
      | Inr (Inl (Inr (Inr (S, t, s)))) \<Rightarrow> 4 * (100 * classes t + size t)
      | Inr (Inr (Inl (S, t, s))) \<Rightarrow> 4 * (100 * classes t + size t)
      | Inr (Inr (Inr (Inl (S, m, t, s)))) \<Rightarrow> 4 * (100 * classes t + size t) + 3
      | Inr (Inr (Inr (Inr (S, t, s)))) \<Rightarrow> 200)")
                      apply (auto simp: size_list_conv_sum_list classes_defaultConstructorTree
      size_defaultConstructorTree)
    apply (frule isClassTree_smaller, linarith)+
  done

declare transformClassShared.simps [simp del] transformClassDeclaration.simps [simp del]
  transformClassExpression.simps [simp del] transformPropertyMethodAssignment.simps [simp del]
  transformGetAccessor.simps [simp del] transformSetAccessor.simps [simp del]
  transformConstructor.simps [simp del] transformSuperInBlock.simps [simp del]
  getDefaultConstructor.simps [simp del]

section \<open>A SuperTransformer to instantiate the parameter with\<close>

text \<open>
  Modelled from the spec: \<open>SuperTransformer\<close> is consumed as a black box.  Given the class's
  name expression and the member, it rewrites every \<open>super(...)\<close> call and every
  \<open>super.member(...)\<close> call or \<open>super.member\<close> access of the member's body into a call of the
  runtime's super-dispatch helper, parameterized by \<open>this\<close>, the class name expression, the
  member name and the arguments, and reports whether any rewrite occurred.  A super call
  is a call expression whose operand is the super expression; the member name of a bare
  \<open>super(...)\<close> is the name of the member being transformed.
\<close>

definition isSuperExpression :: "ParseTree \<Rightarrow> bool" where
  "isSuperExpression t = (case t of Node kind toks cs \<Rightarrow> kind = SUPER_EXPRESSION | _ \<Rightarrow> False)"

definition superMemberName :: "ParseTree \<Rightarrow> string option" where
  "superMemberName t =
     (case t of
        Node kind toks cs \<Rightarrow>
          (case (toks, cs) of
             ([IdToken memberName], [operand]) \<Rightarrow>
               if kind = MEMBER_EXPRESSION \<and> isSuperExpression operand
               then Some (tokenValue memberName) else None
           | _ \<Rightarrow> None)
      | _ \<Rightarrow> None)"

definition isSuperCall :: "ParseTree \<Rightarrow> bool" where
  "isSuperCall t =
     (case t of
        Node kind toks cs \<Rightarrow>
          (case cs of
             [operand, args] \<Rightarrow>
               kind = CALL_EXPRESSION \<and> (isSuperExpression operand \<or> superMemberName operand \<noteq> None)
           | _ \<Rightarrow> False)
      | _ \<Rightarrow> False)"

definition memberNameOf :: "ParseTree \<Rightarrow> string" where
  "memberNameOf methodTree =
     (case methodTree of
        GetAccessor l propertyName body \<Rightarrow> tokenValue propertyName
      | SetAccessor l propertyName parameter body \<Rightarrow> tokenValue propertyName
      | PropertyMethodAssignment l name isGenerator formalParameterList functionBody \<Rightarrow>
          tokenValue name
      | _ \<Rightarrow> [])"

definition superDispatch :: "string \<Rightarrow> ParseTree \<Rightarrow> string \<Rightarrow> ParseTree list \<Rightarrow> ParseTree" where
  "superDispatch helper cn memberName args =
     createCallExpression (createMemberExpression TRACEUR [RUNTIME, helper])
       (createArgumentList
          ([Node THIS_EXPRESSION [] [], cn,
            Node LITERAL_EXPRESSION [IdToken (createIdentifierToken memberName)] []] @ args))"

fun superFound :: "ParseTree \<Rightarrow> bool" where
  "superFound NullTree = False"
| "superFound (Program ts) = list_ex superFound ts"
| "superFound (Block ts) = list_ex superFound ts"
| "superFound (FunctionDeclaration n p b) = (superFound p \<or> superFound b)"
| "superFound (ArrowFunctionExpression p b) = (superFound p \<or> superFound b)"
| "superFound (GetAccessor l n b) = superFound b"
| "superFound (SetAccessor l n p b) = (superFound p \<or> superFound b)"
| "superFound (PropertyMethodAssignment l n g p b) = (superFound p \<or> superFound b)"
| "superFound (Catch a b) = (superFound a \<or> superFound b)"
| "superFound (VariableDeclarationList ty ds) = list_ex superFound ds"
| "superFound (VariableDeclaration a b) = (superFound a \<or> superFound b)"
| "superFound (BindingElement a b) = (superFound a \<or> superFound b)"
| "superFound (BindingIdentifier l tok) = False"
| "superFound (IdentifierExpression l tok) = False"
| "superFound (ClassDeclaration n sc els) = False"
| "superFound (ClassExpression n sc els) = False"
| "superFound (Node kind toks cs) =
     (isSuperCall (Node kind toks cs) \<or> superMemberName (Node kind toks cs) \<noteq> None \<or>
      list_ex superFound cs)"

fun rewriteSuper :: "ParseTree \<Rightarrow> string \<Rightarrow> ParseTree \<Rightarrow> ParseTree" where
  "rewriteSuper cn mn NullTree = NullTree"
| "rewriteSuper cn mn (Program ts) = Program (map (rewriteSuper cn mn) ts)"
| "rewriteSuper cn mn (Block ts) = Block (map (rewriteSuper cn mn) ts)"
| "rewriteSuper cn mn (FunctionDeclaration n p b) =
     FunctionDeclaration n (rewriteSuper cn mn p) (rewriteSuper cn mn b)"
| "rewriteSuper cn mn (ArrowFunctionExpression p b) =
     ArrowFunctionExpression (rewriteSuper cn mn p) (rewriteSuper cn mn b)"
| "rewriteSuper cn mn (GetAccessor l n b) = GetAccessor l n (rewriteSuper cn mn b)"
| "rewriteSuper cn mn (SetAccessor l n p b) =
     SetAccessor l n (rewriteSuper cn mn p) (rewriteSuper cn mn b)"
| "rewriteSuper cn mn (PropertyMethodAssignment l n g p b) =
     PropertyMethodAssignment l n g (rewriteSuper cn mn p) (rewriteSuper cn mn b)"
| "rewriteSuper cn mn (Catch a b) = Catch (rewriteSuper cn mn a) (rewriteSuper cn mn b)"
| "rewriteSuper cn mn (VariableDeclarationList ty ds) =
     VariableDeclarationList ty (map (rewriteSuper cn mn) ds)"
| "rewriteSuper cn mn (VariableDeclaration a b) =
     VariableDeclaration (rewriteSuper cn mn a) (rewriteSuper cn mn b)"
| "rewriteSuper cn mn (BindingElement a b) =
     BindingElement (rewriteSuper cn mn a) (rewriteSuper cn mn b)"
| "rewriteSuper cn mn (BindingIdentifier l tok) = BindingIdentifier l tok"
| "rewriteSuper cn mn (IdentifierExpression l tok) = IdentifierExpression l tok"
| "rewriteSuper cn mn (ClassDeclaration n sc els) = ClassDeclaration n sc els"
| "rewriteSuper cn mn (ClassExpression n sc els) = ClassExpression n sc els"
| "rewriteSuper cn mn (Node kind toks cs) =
     (if isSuperCall (Node kind toks cs)
      then superDispatch ''superCall'' cn
             (case superMemberName (hd cs) of None \<Rightarrow> mn | Some memberName \<Rightarrow> memberName)
             (case tl (map (rewriteSuper cn mn) cs) of
                [Node k ts args] \<Rightarrow> [Node ARRAY_LITERAL_EXPRESSION [] args]
              | other \<Rightarrow> other)
      else (case superMemberName (Node kind toks cs) of
              Some memberName \<Rightarrow> superDispatch ''superGet'' cn memberName []
            | None \<Rightarrow> Node kind toks (map (rewriteSuper cn mn) cs)))"

definition SuperTransformer :: superTransformer where
  "SuperTransformer cn methodTree tree =
     (rewriteSuper cn (memberNameOf methodTree) tree, superFound tree)"

section \<open>Notions used to state the properties of the checker\<close>

text \<open>
  \<open>extendsScope s s'\<close>: \<open>s'\<close> is the same scope object as \<open>s\<close> after more visiting: entries
  were only appended, and the appended references have fresh, pairwise different names.
  \<open>visitInv c c'\<close>: the innermost scope was extended, every enclosing scope and the error
  sink are as before.
\<close>

definition extendsScope :: "Scope \<Rightarrow> Scope \<Rightarrow> bool" where
  "extendsScope s s' \<longleftrightarrow>
     scopeId s' = scopeId s \<and>
     (\<exists>r. references s' = references s @ r \<and> distinct (map fst r) \<and>
          set (map fst r) \<inter> set (map fst (references s)) = {}) \<and>
     (\<exists>d. declarations s' = declarations s @ d)"

definition visitInv :: "FreeVariableChecker \<Rightarrow> FreeVariableChecker \<Rightarrow> bool" where
  "visitInv c c' \<longleftrightarrow>
     reporter c' = reporter c \<and>
     (\<exists>s s' rest. scope c = s # rest \<and> scope c' = s' # rest \<and> extendsScope s s')"

text \<open>
  The unresolved entries of a scope (pending references without a local declaration), the
  \<open>errors\<close> element \<open>validateScope\<close> pushes for one, and what the error sink records.
\<close>

definition diagnostic :: "string \<times> location \<Rightarrow> SourcePosition \<times> string \<times> string list" where
  "diagnostic p = (start (the (snd p)), ''%s is not defined'', [fst p])"

definition unresolved :: "Scope \<Rightarrow> (string \<times> location) list" where
  "unresolved s = filter (\<lambda>p. \<not> inKeys (fst p) (declarations s)) (references s)"

definition toReported :: "SourcePosition \<times> string \<times> string list \<Rightarrow> ReportedError" where
  "toReported e = \<lparr>errorPosition = fst e, errorFormat = fst (snd e), errorArgs = snd (snd e)\<rparr>"


text \<open>Small programs and checker states at which the properties are instantiated.\<close>

definition locAt :: "int \<Rightarrow> location" where
  "locAt n = Some (SourceRange (SourcePosition n) (SourcePosition (n + 1)))"

definition identifierAt :: "int \<Rightarrow> string \<Rightarrow> ParseTree" where
  "identifierAt n name = IdentifierExpression (locAt n) (IdentifierToken (locAt n) name)"

definition returnStatement :: "ParseTree \<Rightarrow> ParseTree" where
  "returnStatement expression = Node RETURN_STATEMENT [] [expression]"

definition functionNamed :: "string \<Rightarrow> ParseTree list \<Rightarrow> ParseTree" where
  "functionNamed name statements =
     FunctionDeclaration (Some (createIdentifierToken name)) (Node FORMAL_PARAMETER_LIST [] [])
       (Block statements)"

definition rootChecker :: FreeVariableChecker where
  "rootChecker = \<lparr>scope = [newScope 0], nextScopeId = 1, reporter = []\<rparr>"

definition nestedChecker :: FreeVariableChecker where
  "nestedChecker = \<lparr>scope = [newScope 1, newScope 0], nextScopeId = 2, reporter = []\<rparr>"

definition exampleInnerScope :: Scope where
  "exampleInnerScope =
     \<lparr>scopeId = 1,
      references = [(''x'', locAt 3), (''y'', locAt 5), (''z'', locAt 7)],
      declarations = [(''y'', None)]\<rparr>"

definition exampleOuterScope :: Scope where
  "exampleOuterScope = \<lparr>scopeId = 0, references = [(''z'', locAt 1)], declarations = []\<rparr>"

definition exampleTwoReferences :: "ParseTree list" where
  "exampleTwoReferences =
     [functionNamed ''f'' [returnStatement (identifierAt 20 ''x'')],
      createExpressionStatement (identifierAt 30 ''x'')]"

definition exampleForwardReference :: "ParseTree list" where
  "exampleForwardReference =
     [functionNamed ''f''
        [returnStatement (createCallExpression (identifierAt 22 ''g'') (createArgumentList []))],
      functionNamed ''g'' [returnStatement (Node LITERAL_EXPRESSION [] [])]]"

text \<open>
  The scoping discipline the checker implements, as functions of the tree alone.
  \<open>insertNew\<close> and \<open>addAll\<close> add entries to a mapping, an entry whose name is already a key
  being dropped (first entry wins).  \<open>declaredName\<close> is the entry a declaration of the given
  name makes (none for a \<open>null\<close> or empty name).

  \<open>declared t\<close> lists, in order, the declarations that \<open>t\<close> makes in the scope it stands
  in: its binding identifiers and \<open>var\<close> bindings outside nested scopes, and the names of
  the function declarations that are direct elements of a statement list (\<open>hoistedName\<close>,
  in \<open>declaredStatements\<close>, the list of a block or program).  A function, accessor, catch
  clause or program opens a scope of its own and declares nothing outside.

  \<open>freeReferences t\<close> lists, in order of occurrence, the identifier references in \<open>t\<close>
  that no scope inside \<open>t\<close> declares (\<open>escaping\<close> drops those a scope declares); a function's
  own scope declares its name, \<open>arguments\<close> and what its parameters and body declare.
\<close>

definition insertNew ::
  "string \<times> location \<Rightarrow> (string \<times> location) list \<Rightarrow> (string \<times> location) list" where
  "insertNew p m = (if inKeys (fst p) m then m else m @ [p])"

definition addAll ::
  "(string \<times> location) list \<Rightarrow> (string \<times> location) list \<Rightarrow> (string \<times> location) list" where
  "addAll m ps = foldl (\<lambda>m p. insertNew p m) m ps"

definition declaredName :: "NameArg \<Rightarrow> (string \<times> location) list" where
  "declaredName a =
     (case getVariableName a of
        None \<Rightarrow> []
      | Some name \<Rightarrow> if name = [] then [] else [(name, argLocation a)])"

definition hoistedName :: "ParseTree \<Rightarrow> (string \<times> location) list" where
  "hoistedName s =
     (case s of
        FunctionDeclaration name formalParameterList functionBody \<Rightarrow> declaredName (TokenArg name)
      | _ \<Rightarrow> [])"

definition escaping ::
  "(string \<times> location) list \<Rightarrow> (string \<times> location) list \<Rightarrow> (string \<times> location) list" where
  "escaping decls refs = filter (\<lambda>p. \<not> inKeys (fst p) decls) refs"

definition setterBinding :: "ParseTree \<Rightarrow> ParseTree" where
  "setterBinding parameter =
     (case parameter of BindingElement binding initializer \<Rightarrow> binding | _ \<Rightarrow> NullTree)"

fun declared :: "ParseTree \<Rightarrow> (string \<times> location) list"
  and declaredList :: "ParseTree list \<Rightarrow> (string \<times> location) list"
  and declaredStatements :: "ParseTree list \<Rightarrow> (string \<times> location) list"
  and declaredDeclarations :: "ParseTree list \<Rightarrow> (string \<times> location) list"
where
  "declared NullTree = []"
| "declared (Program programElements) = []"
| "declared (Block statements) = declaredStatements statements"
| "declared (FunctionDeclaration name formalParameterList functionBody) = []"
| "declared (ArrowFunctionExpression formalParameters functionBody) = []"
| "declared (GetAccessor l propertyName body) = []"
| "declared (SetAccessor l propertyName parameter body) = []"
| "declared (Catch binding catchBody) = []"
| "declared (VariableDeclarationList declarationType decls) = declaredDeclarations decls"
| "declared (BindingIdentifier l tok) = declaredName (TreeArg (BindingIdentifier l tok))"
| "declared (IdentifierExpression l tok) = []"
| "declared (PropertyMethodAssignment l name isGenerator formalParameterList functionBody) =
     declared formalParameterList @ declared functionBody"
| "declared (VariableDeclaration lvalue initializer) = declared lvalue @ declared initializer"
| "declared (BindingElement binding initializer) = declared binding @ declared initializer"
| "declared (ClassDeclaration name extends members) =
     declared name @ declared extends @ declaredList members"
| "declared (ClassExpression name extends members) =
     declared name @ declared extends @ declaredList members"
| "declared (Node kind toks children) = declaredList children"
| "declaredList [] = []"
| "declaredList (t # ts) = declared t @ declaredList ts"
| "declaredStatements [] = []"
| "declaredStatements (s # ss) = hoistedName s @ declared s @ declaredStatements ss"
| "declaredDeclarations [] = []"
| "declaredDeclarations (VariableDeclaration lvalue initializer # ds) =
     declaredName (TreeArg lvalue) @ declared initializer @ declaredDeclarations ds"
| "declaredDeclarations (d # ds) = declaredDeclarations ds"

definition functionScope ::
  "IdentifierToken option \<Rightarrow> ParseTree \<Rightarrow> ParseTree \<Rightarrow> (string \<times> location) list" where
  "functionScope name formalParameterList functionBody =
     declaredName (TokenArg name) @ declaredName (StringArg ''arguments'') @
     declared formalParameterList @ declared functionBody"

fun freeReferences :: "ParseTree \<Rightarrow> (string \<times> location) list"
  and freeReferencesList :: "ParseTree list \<Rightarrow> (string \<times> location) list"
  and freeReferencesDeclarations :: "ParseTree list \<Rightarrow> (string \<times> location) list"
where
  "freeReferences NullTree = []"
| "freeReferences (Program programElements) =
     escaping (declaredStatements programElements) (freeReferencesList programElements)"
| "freeReferences (Block statements) = freeReferencesList statements"
| "freeReferences (FunctionDeclaration name formalParameterList functionBody) =
     escaping (functionScope name formalParameterList functionBody)
       (freeReferences formalParameterList @ freeReferences functionBody)"
| "freeReferences (ArrowFunctionExpression formalParameters functionBody) =
     escaping (functionScope None formalParameters functionBody)
       (freeReferences formalParameters @ freeReferences functionBody)"
| "freeReferences (GetAccessor l propertyName body) = escaping (declared body) (freeReferences body)"
| "freeReferences (SetAccessor l propertyName parameter body) =
     escaping (declaredName (TreeArg (setterBinding parameter)) @ declared body)
       (freeReferences body)"
| "freeReferences (Catch binding catchBody) =
     escaping (declared binding @ declared catchBody)
       (freeReferences binding @ freeReferences catchBody)"
| "freeReferences (VariableDeclarationList declarationType decls) =
     freeReferencesDeclarations decls"
| "freeReferences (BindingIdentifier l tok) = []"
| "freeReferences (IdentifierExpression l tok) = [(tokenValue tok, l)]"
| "freeReferences (PropertyMethodAssignment l name isGenerator formalParameterList functionBody) =
     freeReferences formalParameterList @ freeReferences functionBody"
| "freeReferences (VariableDeclaration lvalue initializer) =
     freeReferences lvalue @ freeReferences initializer"
| "freeReferences (BindingElement binding initializer) =
     freeReferences binding @ freeReferences initializer"
| "freeReferences (ClassDeclaration name extends members) =
     freeReferences name @ freeReferences extends @ freeReferencesList members"
| "freeReferences (ClassExpression name extends members) =
     freeReferences name @ freeReferences extends @ freeReferencesList members"
| "freeReferences (Node kind toks children) = freeReferencesList children"
| "freeReferencesList [] = []"
| "freeReferencesList (t # ts) = freeReferences t @ freeReferencesList ts"
| "freeReferencesDeclarations [] = []"
| "freeReferencesDeclarations (VariableDeclaration lvalue initializer # ds) =
     freeReferences initializer @ freeReferencesDeclarations ds"
| "freeReferencesDeclarations (d # ds) = freeReferencesDeclarations ds"

definition globalDeclarations :: "string list list \<Rightarrow> (string \<times> location) list" where
  "globalDeclarations global = concat (map (\<lambda>n. declaredName (StringArg n)) (concat global))"

text \<open>
  \<open>withEntries R D s\<close>: the scope \<open>s\<close> after the references \<open>R\<close> and the declarations \<open>D\<close> were
  recorded in it, in order.  \<open>recorded R D c c'\<close>: from \<open>c\<close> to \<open>c'\<close> exactly that happened to
  the innermost scope, and the enclosing scopes and the error sink are as before.
\<close>

definition withEntries ::
  "(string \<times> location) list \<Rightarrow> (string \<times> location) list \<Rightarrow> Scope \<Rightarrow> Scope" where
  "withEntries R D s =
     s\<lparr>references := addAll (references s) R, declarations := addAll (declarations s) D\<rparr>"

definition recorded ::
  "(string \<times> location) list \<Rightarrow> (string \<times> location) list \<Rightarrow>
   FreeVariableChecker \<Rightarrow> FreeVariableChecker \<Rightarrow> bool" where
  "recorded R D c c' \<longleftrightarrow>
     reporter c' = reporter c \<and>
     (case scope c of [] \<Rightarrow> False | s # rest \<Rightarrow> scope c' = withEntries R D s # rest)"

text \<open>
  \<open>exampleFunctionExpression\<close> is the program
  \<open>var h = function g() { return g; }; (function k() { return y; }); g; k;\<close>: the functions
  \<open>g\<close> and \<open>k\<close> are no elements of a statement list.
\<close>

definition exampleFunctionExpression :: "ParseTree list" where
  "exampleFunctionExpression =
     [Node VARIABLE_STATEMENT []
        [VariableDeclarationList VAR
           [VariableDeclaration (BindingIdentifier (locAt 34) (IdentifierToken (locAt 34) ''h''))
              (FunctionDeclaration (Some (IdentifierToken (locAt 40) ''g''))
                 (Node FORMAL_PARAMETER_LIST [] [])
                 (Block [returnStatement (identifierAt 50 ''g'')]))]],
      Node EXPRESSION_STATEMENT []
        [Node PAREN_EXPRESSION []
           [FunctionDeclaration (Some (IdentifierToken (locAt 61) ''k''))
              (Node FORMAL_PARAMETER_LIST [] [])
              (Block [returnStatement (identifierAt 70 ''y'')])]],
      createExpressionStatement (identifierAt 80 ''g''),
      createExpressionStatement (identifierAt 90 ''k'')]"

section \<open>Notions used to state the properties of the transformer\<close>

text \<open>
  \<open>sameButFlag st st'\<close>: the stack \<open>st'\<close> is \<open>st\<close>, except that the \<open>hasSuper\<close> flag of its top
  entry may have been set.
\<close>

definition sameButFlag :: "State list \<Rightarrow> State list \<Rightarrow> bool" where
  "sameButFlag st st' \<longleftrightarrow>
     st' = st \<or> (\<exists>cur rest. st = cur # rest \<and> st' = cur\<lparr>hasSuper := True\<rparr> # rest)"

text \<open>A class member the transformer recognizes, and whether it is a user constructor.\<close>

definition isClassElement :: "ParseTree \<Rightarrow> bool" where
  "isClassElement t =
     (case t of
        GetAccessor l propertyName body \<Rightarrow> True
      | SetAccessor l propertyName parameter body \<Rightarrow> True
      | PropertyMethodAssignment l name isGenerator formalParameterList functionBody \<Rightarrow> True
      | _ \<Rightarrow> False)"

definition isConstructor :: "ParseTree \<Rightarrow> bool" where
  "isConstructor t =
     (case t of
        PropertyMethodAssignment l name isGenerator formalParameterList functionBody \<Rightarrow>
          tokenValue name = CONSTRUCTOR
      | _ \<Rightarrow> False)"

text \<open>
  What the super rewrite reports for a member whose body holds no class node (such a body
  reaches \<open>S\<close> as it is).
\<close>

definition memberUsesSuper :: "superTransformer \<Rightarrow> ParseTree \<Rightarrow> ParseTree \<Rightarrow> bool" where
  "memberUsesSuper S cn t =
     (case t of
        GetAccessor l propertyName body \<Rightarrow> snd (S cn t body)
      | SetAccessor l propertyName parameter body \<Rightarrow> snd (S cn t body)
      | PropertyMethodAssignment l name isGenerator formalParameterList functionBody \<Rightarrow>
          snd (S cn t functionBody)
      | _ \<Rightarrow> False)"

text \<open>The call of the runtime class-creation helper that \<open>transformClassShared\<close> builds.\<close>

definition createClassCall :: "ParseTree list \<Rightarrow> ParseTree \<Rightarrow> bool \<Rightarrow> bool \<Rightarrow> ParseTree" where
  "createClassCall members superClassArgument hasConstructor hasExtendsExpression =
     createCallExpression (createMemberExpression TRACEUR [RUNTIME, CREATE_CLASS])
       (createArgumentList
          [createObjectLiteralExpression members, superClassArgument,
           createBooleanLiteral hasConstructor, createBooleanLiteral hasExtendsExpression])"

definition initialTransformer :: ClassTransformer where
  "initialTransformer = \<lparr>stack = [], blockBinding = False, tempVars = [], identifierIndex = 0\<rparr>"

text \<open>
  What a successful transform leaves of the state it started from.  \<open>grows\<close>: temporaries
  are only added to those that were allocated and the counter of the identifier generator
  does not go back; the option is as before.  \<open>pureStep\<close>: moreover the stack is as before.
  \<open>memberStep\<close>: the stack is as before except for the flag of its top entry.
\<close>

definition grows :: "ClassTransformer \<Rightarrow> ClassTransformer \<Rightarrow> bool" where
  "grows s s' \<longleftrightarrow>
     mset (tempVars s) \<subseteq># mset (tempVars s') \<and> blockBinding s' = blockBinding s \<and>
     identifierIndex s \<le> identifierIndex s'"

definition pureStep :: "ClassTransformer \<Rightarrow> ClassTransformer \<Rightarrow> bool" where
  "pureStep s s' \<longleftrightarrow> stack s' = stack s \<and> grows s s'"

definition memberStep :: "ClassTransformer \<Rightarrow> ClassTransformer \<Rightarrow> bool" where
  "memberStep s s' \<longleftrightarrow> sameButFlag (stack s) (stack s') \<and> grows s s'"

text \<open>\<open>flagTop b s\<close>: the state \<open>s\<close> after \<open>state.hasSuper = true\<close> on the top entry if \<open>b\<close> holds.\<close>

definition flagTop :: "bool \<Rightarrow> ClassTransformer \<Rightarrow> ClassTransformer" where
  "flagTop b s =
     s\<lparr>stack := (case stack s of [] \<Rightarrow> []
                 | state # rest \<Rightarrow> state\<lparr>hasSuper := hasSuper state \<or> b\<rparr> # rest)\<rparr>"

text \<open>
  Example trees.  \<open>superCallStatement\<close> is \<open>super();\<close>, \<open>methodNamed name statements\<close> the
  method \<open>name() { statements }\<close>.  \<open>exampleEmptyClass\<close> is the class expression \<open>class {}\<close>,
  \<open>examplePlainClass\<close> is \<open>class { constructor() {} }\<close>, \<open>exampleInnerClass\<close> is
  \<open>class extends B { m() { super(); } }\<close>, and \<open>exampleOuterClass\<close> is the declaration
  \<open>class C { constructor() {} n() { (class extends B { m() { super(); } }); } }\<close>.
  \<open>exampleSetter\<close> is \<open>set v(x = class { constructor() {} }) {}\<close>, and \<open>exampleBadClass\<close> is a
  class declaration \<open>D\<close> with a getter followed by an element of a kind that is no class
  member.  \<open>insideClass\<close> is a transformer in the middle of the class \<open>C\<close>.
\<close>

definition superCallStatement :: ParseTree where
  "superCallStatement =
     createExpressionStatement
       (createCallExpression (Node SUPER_EXPRESSION [] []) (createArgumentList []))"

definition methodNamed :: "string \<Rightarrow> ParseTree list \<Rightarrow> ParseTree" where
  "methodNamed name statements =
     PropertyMethodAssignment None (createIdentifierToken name) False
       (Node FORMAL_PARAMETER_LIST [] []) (createBlock statements)"

definition exampleEmptyClass :: ParseTree where
  "exampleEmptyClass = ClassExpression NullTree NullTree []"

definition examplePlainClass :: ParseTree where
  "examplePlainClass = ClassExpression NullTree NullTree [methodNamed CONSTRUCTOR []]"

definition exampleInnerClass :: ParseTree where
  "exampleInnerClass =
     ClassExpression NullTree (createIdentifierExpression (createIdentifierToken ''B''))
       [methodNamed ''m'' [superCallStatement]]"

definition exampleOuterClass :: ParseTree where
  "exampleOuterClass =
     ClassDeclaration (BindingIdentifier None (createIdentifierToken ''C'')) NullTree
       [methodNamed CONSTRUCTOR [],
        methodNamed ''n'' [createExpressionStatement exampleInnerClass]]"

definition exampleSetter :: ParseTree where
  "exampleSetter =
     SetAccessor None (createIdentifierToken ''v'')
       (BindingElement (BindingIdentifier None (createIdentifierToken ''x'')) examplePlainClass)
       (createBlock [])"

definition exampleBadClass :: ParseTree where
  "exampleBadClass =
     ClassDeclaration (BindingIdentifier None (createIdentifierToken ''D'')) NullTree
       [GetAccessor None (createIdentifierToken ''g'') (createBlock []),
        Node EXPRESSION_STATEMENT [] [],
        methodNamed ''m'' []]"

definition insideClass :: ClassTransformer where
  "insideClass =
     initialTransformer
       \<lparr>stack := [(newState exampleOuterClass)
                    \<lparr>className := createIdentifierExpression (createIdentifierToken ''C'')\<rparr>]\<rparr>"

section \<open>Properties of the free-variable checker\<close>

lemma extendsScope_refl: "extendsScope s s"
  by (simp add: extendsScope_def)

lemma extendsScope_trans:
  assumes "extendsScope a b" and "extendsScope b c"
  shows "extendsScope a c"
proof -
  from assms(1) obtain r1 d1 where 1: "scopeId b = scopeId a" "references b = references a @ r1"
    "distinct (map fst r1)" "set (map fst r1) \<inter> set (map fst (references a)) = {}"
    "declarations b = declarations a @ d1"
    by (auto simp: extendsScope_def)
  from assms(2) obtain r2 d2 where 2: "scopeId c = scopeId b" "references c = references b @ r2"
    "distinct (map fst r2)" "set (map fst r2) \<inter> set (map fst (references b)) = {}"
    "declarations c = declarations b @ d2"
    by (auto simp: extendsScope_def)
  have "references c = references a @ (r1 @ r2)" using 1 2 by simp
  moreover have "distinct (map fst (r1 @ r2))" using 1 2 by auto
  moreover have "set (map fst (r1 @ r2)) \<inter> set (map fst (references a)) = {}"
    using 1 2 by auto
  moreover have "declarations c = declarations a @ (d1 @ d2)" using 1 2 by simp
  ultimately show ?thesis using 1(1) 2(1) unfolding extendsScope_def by metis
qed

lemma visitInv_refl: "scope c \<noteq> [] \<Longrightarrow> visitInv c c"
  by (cases "scope c") (auto simp: visitInv_def extendsScope_refl)

lemma visitInv_trans: "visitInv a b \<Longrightarrow> visitInv b c \<Longrightarrow> visitInv a c"
  by (auto simp: visitInv_def intro: extendsScope_trans)

lemma visitInv_nonempty: "visitInv a b \<Longrightarrow> scope b \<noteq> []"
  by (auto simp: visitInv_def)

lemma declareVariable_inv:
  "declareVariable a c = (Inr u, c') \<Longrightarrow> scope c \<noteq> [] \<Longrightarrow> visitInv c c'"
  by (cases "scope c")
     (auto simp: declareVariable_def visitInv_def extendsScope_def
           split: option.splits if_splits list.splits)

lemma visitIdentifierExpression_inv:
  "visitIdentifierExpression t c = (Inr u, c') \<Longrightarrow> scope c \<noteq> [] \<Longrightarrow> visitInv c c'"
  by (cases "scope c")
     (auto simp: visitIdentifierExpression_def visitInv_def extendsScope_def inKeys_def
           split: option.splits if_splits list.splits)

lemma promote_prefix:
  "\<exists>r. promote refs decls p = p @ r \<and> distinct (map fst r) \<and>
       set (map fst r) \<inter> set (map fst p) = {}"
proof (induction refs decls p rule: promote.induct)
  case (1 decls parentRefs)
  then show ?case by simp
next
  case (2 name loc refs decls parentRefs)
  show ?case
  proof (cases "\<not> inKeys name decls \<and> \<not> inKeys name parentRefs")
    case True
    with 2 obtain r where r: "promote refs decls (parentRefs @ [(name, loc)]) = (parentRefs @ [(name, loc)]) @ r"
      "distinct (map fst r)" "set (map fst r) \<inter> set (map fst (parentRefs @ [(name, loc)])) = {}"
      by blast
    have "promote ((name, loc) # refs) decls parentRefs = parentRefs @ ((name, loc) # r)"
      using True r(1) by simp
    moreover have "distinct (map fst ((name, loc) # r))" using r(2,3) by auto
    moreover have "set (map fst ((name, loc) # r)) \<inter> set (map fst parentRefs) = {}"
      using r(3) True by (auto simp: inKeys_def)
    ultimately show ?thesis by blast
  next
    case False
    with 2 show ?thesis by auto
  qed
qed

lemma scoped_inv:
  assumes "pushScope c = (sc, c1)" and "visitInv c1 c2" and "pop sc c2 = (Inr u, c3)"
    and "scope c \<noteq> []"
  shows "visitInv c c3"
proof -
  obtain s rest where c: "scope c = s # rest" using assms(4) by (cases "scope c") auto
  from assms(1) have c1: "scope c1 = newScope (nextScopeId c) # s # rest"
    and r1: "reporter c1 = reporter c"
    by (auto simp: pushScope_def c)
  from assms(2) c1 obtain n' where c2: "scope c2 = n' # s # rest" and r2: "reporter c2 = reporter c1"
    by (auto simp: visitInv_def)
  from assms(3) c2 have "scope c3 = s\<lparr>references := promote (references n') (declarations n') (references s)\<rparr> # rest"
    and "reporter c3 = reporter c2"
    by (auto simp: pop_def validateScope_def split: if_splits)
  then show ?thesis using c r1 r2 promote_prefix[of "references n'" "declarations n'" "references s"]
    by (auto simp: visitInv_def extendsScope_def)
qed

lemma declareAll_inv:
  "declareAll ns c = (Inr u, c') \<Longrightarrow> scope c \<noteq> [] \<Longrightarrow> visitInv c c'"
proof (induction ns arbitrary: c)
  case Nil
  then show ?case by (simp add: visitInv_refl)
next
  case (Cons n ns)
  then show ?case
    by (auto split: prod.splits sum.splits
             dest!: declareVariable_inv intro: visitInv_trans dest: visitInv_nonempty)
qed


lemma pushScope_nonempty: "pushScope c = (sc, c1) \<Longrightarrow> scope c1 \<noteq> []"
  by (auto simp: pushScope_def)


lemma visit_inv:
  "visitAny t c = (Inr u, c') \<Longrightarrow> scope c \<noteq> [] \<Longrightarrow> visitInv c c'"
  "visitList ts c = (Inr u, c') \<Longrightarrow> scope c \<noteq> [] \<Longrightarrow> visitInv c c'"
  "visitProgram els g c = (Inr u, c') \<Longrightarrow> scope c \<noteq> [] \<Longrightarrow> visitInv c c'"
  "visitStatements ss c = (Inr u, c') \<Longrightarrow> scope c \<noteq> [] \<Longrightarrow> visitInv c c'"
  "visitFunction n p b c = (Inr u, c') \<Longrightarrow> scope c \<noteq> [] \<Longrightarrow> visitInv c c'"
  "visitDeclarations ds c = (Inr u, c') \<Longrightarrow> scope c \<noteq> [] \<Longrightarrow> visitInv c c'"
proof (induction t c and ts c and els g c and ss c and n p b c and ds c
       arbitrary: c' and c' and c' and c' and c' and c'
       rule: visitAny_visitList_visitProgram_visitStatements_visitFunction_visitDeclarations.induct)
  case (6 l propertyName body c)
  from "6.prems"(1) obtain sc c1 c2 where p: "pushScope c = (sc, c1)"
    and v: "visitAny body c1 = (Inr (), c2)" and q: "pop sc c2 = (Inr u, c')"
    by (auto split: prod.splits sum.splits)
  have "visitInv c1 c2" using "6.IH"[OF p[symmetric] _ pushScope_nonempty[OF p]] v by simp
  then show ?case using scoped_inv[OF p _ q] "6.prems"(2) by simp
next
  case (7 l propertyName parameter body c)
  from "7.prems"(1) obtain sc c1 c2 c3 a where p: "pushScope c = (sc, c1)"
    and d: "declareVariable a c1 = (Inr (), c2)"
    and v: "visitAny body c2 = (Inr (), c3)" and q: "pop sc c3 = (Inr u, c')"
    and a: "a = TreeArg (case parameter of BindingElement binding initializer \<Rightarrow> binding | _ \<Rightarrow> NullTree)"
    by (auto split: prod.splits sum.splits)
  have i1: "visitInv c1 c2" using declareVariable_inv[OF d pushScope_nonempty[OF p]] .
  have "visitInv c2 c3"
    using "7.IH"[OF p[symmetric] _ _ _ visitInv_nonempty[OF i1]] d v a by simp
  then show ?case using scoped_inv[OF p visitInv_trans[OF i1] q] "7.prems"(2) by simp
next
  case (8 binding catchBody c)
  from "8.prems"(1) obtain sc c1 c2 c3 where p: "pushScope c = (sc, c1)"
    and d: "visitAny binding c1 = (Inr (), c2)"
    and v: "visitAny catchBody c2 = (Inr (), c3)" and q: "pop sc c3 = (Inr u, c')"
    by (auto split: prod.splits sum.splits)
  have i1: "visitInv c1 c2" using "8.IH"(1)[OF p[symmetric] _ pushScope_nonempty[OF p]] d by simp
  have "visitInv c2 c3"
    using "8.IH"(2)[OF p[symmetric] _ _ _ visitInv_nonempty[OF i1]] d v by simp
  then show ?case using scoped_inv[OF p visitInv_trans[OF i1] q] "8.prems"(2) by simp
next
  case (19 t ts c)
  from "19.prems"(1) obtain c1 where a: "visitAny t c = (Inr (), c1)"
    and b: "visitList ts c1 = (Inr u, c')"
    by (auto split: prod.splits sum.splits)
  have i1: "visitInv c c1" using "19.IH"(1)[OF _ "19.prems"(2)] a by simp
  have "visitInv c1 c'" using "19.IH"(2)[OF _ _ _ visitInv_nonempty[OF i1]] a b by simp
  with i1 show ?case by (rule visitInv_trans)
next
  case (20 programElements global c)
  from "20.prems"(1) obtain sc c1 c2 c3 where p: "pushScope c = (sc, c1)"
    and d: "declareGlobals global c1 = (Inr (), c2)"
    and v: "visitStatements programElements c2 = (Inr (), c3)" and q: "pop sc c3 = (Inr u, c')"
    by (auto simp: visitProgram.simps split: prod.splits sum.splits)
  have i1: "visitInv c1 c2"
    using declareAll_inv[OF _ pushScope_nonempty[OF p]] d by (simp add: declareGlobals_def)
  have "visitInv c2 c3"
    using "20.IH"[OF p[symmetric] _ _ _ visitInv_nonempty[OF i1]] d v by simp
  then show ?case using scoped_inv[OF p visitInv_trans[OF i1] q] "20.prems"(2) by simp
next
  case (22 s ss c)
  from "22.prems"(1) obtain c1 c2 where d: "(case s of
              FunctionDeclaration name formalParameterList functionBody \<Rightarrow>
                declareVariable (TokenArg name) c
            | _ \<Rightarrow> (Inr (), c)) = (Inr (), c1)"
    and a: "visitAny s c1 = (Inr (), c2)"
    and b: "visitStatements ss c2 = (Inr u, c')"
    by (auto split: prod.splits sum.splits)
  have i1: "visitInv c c1" using d "22.prems"(2)
    by (auto split: ParseTree.splits simp: visitInv_refl intro: declareVariable_inv)
  have i2: "visitInv c1 c2" using "22.IH"(1)[OF _ _ _ visitInv_nonempty[OF i1]] d a by simp
  have "visitInv c2 c'" using "22.IH"(2)[OF _ _ _ _ _ visitInv_nonempty[OF i2]] d a b by simp
  with i1 i2 show ?case by (blast intro: visitInv_trans)
next
  case (23 name formalParameterList body c)
  from "23.prems"(1) obtain sc c1 c2 c3 c4 c5 where p: "pushScope c = (sc, c1)"
    and d1: "(case name of None \<Rightarrow> (Inr (), c1) | Some tok \<Rightarrow> declareVariable (TokenArg name) c1) = (Inr (), c2)"
    and d2: "declareVariable (StringArg ''arguments'') c2 = (Inr (), c3)"
    and v1: "visitAny formalParameterList c3 = (Inr (), c4)"
    and v2: "visitAny body c4 = (Inr (), c5)"
    and q: "pop sc c5 = (Inr u, c')"
    by (auto simp: visitFunction.simps split: prod.splits sum.splits)
  have i1: "visitInv c1 c2" using d1 pushScope_nonempty[OF p]
    by (auto split: option.splits simp: visitInv_refl intro: declareVariable_inv)
  have i2: "visitInv c2 c3" using declareVariable_inv[OF d2 visitInv_nonempty[OF i1]] .
  have i3: "visitInv c3 c4"
    using "23.IH"(1)[OF p[symmetric] _ _ _ _ _ visitInv_nonempty[OF i2]] d1 d2 v1 by simp
  have i4: "visitInv c4 c5"
    using "23.IH"(2)[OF p[symmetric] _ _ _ _ _ _ _ visitInv_nonempty[OF i3]] d1 d2 v1 v2 by simp
  have "visitInv c1 c5" using i1 i2 i3 i4 by (blast intro: visitInv_trans)
  then show ?case using scoped_inv[OF p _ q] "23.prems"(2) by simp
next
  case (25 lvalue initializer ds c)
  from "25.prems"(1) obtain c1 c2 where d: "declareVariable (TreeArg lvalue) c = (Inr (), c1)"
    and a: "visitAny initializer c1 = (Inr (), c2)"
    and b: "visitDeclarations ds c2 = (Inr u, c')"
    by (auto split: prod.splits sum.splits)
  have i1: "visitInv c c1" using declareVariable_inv[OF d "25.prems"(2)] .
  have i2: "visitInv c1 c2" using "25.IH"(1)[OF _ _ _ visitInv_nonempty[OF i1]] d a by simp
  have "visitInv c2 c'" using "25.IH"(2)[OF _ _ _ _ _ visitInv_nonempty[OF i2]] d a b by simp
  with i1 i2 show ?case by (blast intro: visitInv_trans)
qed (auto simp: visitInv_refl split: if_splits
          intro: declareVariable_inv visitIdentifierExpression_inv)


lemma rootErrors_Inr:
  "rootErrors refs decls acc = Inr errs \<Longrightarrow>
     errs = acc @ map diagnostic (filter (\<lambda>p. \<not> inKeys (fst p) decls) refs) \<and>
     (\<forall>p \<in> set (filter (\<lambda>p. \<not> inKeys (fst p) decls) refs). snd p \<noteq> None)"
  by (induction refs decls acc rule: rootErrors.induct)
     (auto simp: diagnostic_def split: if_splits option.splits)

lemma rootErrors_Inl:
  "rootErrors refs decls acc = Inl e \<Longrightarrow>
     \<exists>name. e = GeneratedVariableNotDefined name \<and> (name, None) \<in> set refs \<and> \<not> inKeys name decls"
  by (induction refs decls acc rule: rootErrors.induct)
     (auto split: if_splits option.splits)

lemma rootErrors_all_located:
  "\<forall>p \<in> set (filter (\<lambda>p. \<not> inKeys (fst p) decls) refs). snd p \<noteq> None \<Longrightarrow>
     \<exists>errs. rootErrors refs decls acc = Inr errs"
  by (induction refs decls acc rule: rootErrors.induct) (auto split: option.splits if_splits)

lemma fold_reportError:
  "fold reportError es c = c\<lparr>reporter := reporter c @ map toReported es\<rparr>"
  by (induction es arbitrary: c) (auto simp: reportError_def toReported_def)

lemma validateScope_root_Inr:
  assumes "scope c = [root]" and "validateScope c = (Inr u, c')"
  shows "c' = c\<lparr>reporter := reporter c @
            map toReported (sort_key (\<lambda>e. offset (fst e)) (map diagnostic (unresolved root)))\<rparr>"
    and "\<forall>p \<in> set (unresolved root). snd p \<noteq> None"
  using assms
  by (auto simp: validateScope_def unresolved_def fold_reportError split: sum.splits
           dest!: rootErrors_Inr)

lemma validateScope_root_Inl:
  assumes "scope c = [root]" and "validateScope c = (Inl e, c')"
  shows "c' = c \<and> (\<exists>name. e = GeneratedVariableNotDefined name \<and> (name, None) \<in> set (unresolved root))"
  using assms
  by (auto simp: validateScope_def unresolved_def split: sum.splits
           dest!: rootErrors_Inl)

lemma visitInv_hd:
  "visitInv c c' \<Longrightarrow> scope c = s # rest \<Longrightarrow> \<exists>s'. scope c' = s' # rest \<and> extendsScope s s'"
  by (auto simp: visitInv_def)

lemma visitInv_reporter: "visitInv c c' \<Longrightarrow> reporter c' = reporter c"
  by (simp add: visitInv_def)

lemma visitInv_declared:
  "visitInv c c' \<Longrightarrow> inKeys n (declarations (hd (scope c))) \<Longrightarrow>
   inKeys n (declarations (hd (scope c')))"
  by (auto simp: visitInv_def extendsScope_def inKeys_def)

lemma visitInv_tl: "visitInv c c' \<Longrightarrow> tl (scope c') = tl (scope c)"
  by (auto simp: visitInv_def)

lemma declareVariable_declares:
  assumes "declareVariable a c = (Inr u, c')" and "getVariableName a = Some n" and "n \<noteq> []"
  shows "inKeys n (declarations (hd (scope c')))"
  using assms
  by (auto simp: declareVariable_def inKeys_def split: list.splits if_splits)

lemma promote_declared:
  "inKeys x decls \<Longrightarrow> inKeys x (promote refs decls p) = inKeys x p"
  by (induction refs decls p rule: promote.induct) (auto simp: inKeys_def)

lemma inKeys_Cons: "inKeys n ((m, l) # refs) = (n = m \<or> inKeys n refs)"
  by (auto simp: inKeys_def)

lemma inKeys_snoc: "inKeys n (p @ [(m, l)]) = (inKeys n p \<or> n = m)"
  by (auto simp: inKeys_def)

lemma map_of_snoc:
  "map_of (p @ [(m, l)]) n =
     (if inKeys n p then map_of p n else if n = m then Some l else None)"
proof (cases "map_of p n")
  case None
  then have "n \<notin> fst ` set p" by (simp add: map_of_eq_None_iff)
  then show ?thesis using None by (simp add: inKeys_def map_add_def)
next
  case (Some v)
  then have "n \<in> fst ` set p" by (metis map_of_eq_None_iff option.distinct(1))
  then show ?thesis using Some by (simp add: inKeys_def map_add_def)
qed

lemma map_of_not_inKeys: "\<not> inKeys n p \<Longrightarrow> map_of p n = None"
  by (simp add: inKeys_def map_of_eq_None_iff)

lemma promote_map_of:
  "map_of (promote refs decls p) name =
     (if inKeys name p then map_of p name
      else if inKeys name refs \<and> \<not> inKeys name decls then map_of refs name
      else None)"
proof (induction refs decls p rule: promote.induct)
  case (1 decls parentRefs)
  then show ?case by (simp add: map_of_not_inKeys inKeys_def)
next
  case (2 n loc refs decls parentRefs)
  show ?case
  proof (cases "\<not> inKeys n decls \<and> \<not> inKeys n parentRefs")
    case True
    then show ?thesis using 2
      by (simp add: inKeys_snoc map_of_snoc inKeys_Cons del: map_of_append)
  next
    case False
    then show ?thesis using 2 by (auto simp add: inKeys_Cons)
  qed
qed

lemma visitStatements_append:
  "visitStatements (xs @ ys) c =
     (case visitStatements xs c of
        (Inl e, c1) \<Rightarrow> (Inl e, c1)
      | (Inr u, c1) \<Rightarrow> visitStatements ys c1)"
  by (induction xs arbitrary: c) (auto split: prod.splits sum.splits)

lemma visitFunction_enclosing:
  assumes "visitFunction n p b c = (Inr u, c')" and "scope c = s # rest"
  shows "\<exists>inner :: Scope. scope c' =
            s\<lparr>references := promote (references inner) (declarations inner) (references s)\<rparr> # rest \<and>
          reporter c' = reporter c \<and>
          (\<forall>tok. n = Some tok \<and> tokenValue tok \<noteq> [] \<longrightarrow>
                 inKeys (tokenValue tok) (declarations inner))"
proof -
  from assms(1) obtain sc c1 c2 c3 c4 c5 where p: "pushScope c = (sc, c1)"
    and d1: "(case n of None \<Rightarrow> (Inr (), c1) | Some tok \<Rightarrow> declareVariable (TokenArg n) c1) = (Inr (), c2)"
    and d2: "declareVariable (StringArg ''arguments'') c2 = (Inr (), c3)"
    and v1: "visitAny p c3 = (Inr (), c4)"
    and v2: "visitAny b c4 = (Inr (), c5)"
    and q: "pop sc c5 = (Inr u, c')"
    by (auto simp: visitFunction.simps split: prod.splits sum.splits)
  have i1: "visitInv c1 c2" using d1 pushScope_nonempty[OF p]
    by (auto split: option.splits simp: visitInv_refl intro: declareVariable_inv)
  have i2: "visitInv c2 c3" using declareVariable_inv[OF d2 visitInv_nonempty[OF i1]] .
  have i3: "visitInv c3 c4" using visit_inv(1)[OF v1 visitInv_nonempty[OF i2]] .
  have i4: "visitInv c4 c5" using visit_inv(1)[OF v2 visitInv_nonempty[OF i3]] .
  have i25: "visitInv c2 c5" using i2 i3 i4 by (blast intro: visitInv_trans)
  have i15: "visitInv c1 c5" using i1 i25 by (rule visitInv_trans)
  from p assms(2) have c1: "scope c1 = newScope (nextScopeId c) # s # rest"
    and r1: "reporter c1 = reporter c"
    by (auto simp: pushScope_def)
  from visitInv_hd[OF i15 c1] obtain inner where c5: "scope c5 = inner # s # rest" by blast
  from q c5 have c': "scope c' =
      s\<lparr>references := promote (references inner) (declarations inner) (references s)\<rparr> # rest"
    and r5: "reporter c' = reporter c5"
    by (auto simp: pop_def validateScope_def split: if_splits)
  have "inKeys (tokenValue tok) (declarations inner)" if "n = Some tok \<and> tokenValue tok \<noteq> []" for tok
  proof -
    have "inKeys (tokenValue tok) (declarations (hd (scope c2)))"
      using d1 that declareVariable_declares[of "TokenArg n" c1 "()" c2 "tokenValue tok"] by simp
    then show ?thesis using visitInv_declared[OF i25] c5 by simp
  qed
  then have "\<forall>tok. n = Some tok \<and> tokenValue tok \<noteq> [] \<longrightarrow>
                 inKeys (tokenValue tok) (declarations inner)" by blast
  moreover have "reporter c' = reporter c" using r5 r1 visitInv_reporter[OF i15] by simp
  ultimately show ?thesis using c' by - (rule exI[of _ inner], simp)
qed

lemma errorArgs_toReported_diagnostic [simp]: "errorArgs (toReported (diagnostic p)) = [fst p]"
  by (simp add: toReported_def diagnostic_def)

lemma filter_reported:
  "filter (\<lambda>e. errorArgs e = [x])
       (map toReported (sort_key (\<lambda>e. offset (fst e)) (map diagnostic us))) =
   map toReported (sort_key (\<lambda>e. offset (fst e))
       (map diagnostic (filter (\<lambda>p. fst p = x) us)))"
  by (simp add: filter_map comp_def filter_sort)

lemma validateScope_nonroot:
  "scope c = s # parent # rest \<Longrightarrow>
   validateScope c = (Inr (), c\<lparr>scope := s
        # parent\<lparr>references := promote (references s) (declarations s) (references parent)\<rparr>
        # rest\<rparr>)"
  by (simp add: validateScope_def)

lemma visitStatements_reference:
  assumes "visitStatements (Node EXPRESSION_STATEMENT [] [IdentifierExpression l tok] # post) c = (Inr u, c1)"
    and "scope c = s # rest" and "\<not> inKeys (tokenValue tok) (references s)"
  shows "visitStatements post
           (c\<lparr>scope := s\<lparr>references := references s @ [(tokenValue tok, l)]\<rparr> # rest\<rparr>) = (Inr u, c1)"
  using assms
  by (auto simp: visitIdentifierExpression_def split: prod.splits sum.splits)

lemma visitStatements_function_declared:
  assumes "visitStatements (pre @ FunctionDeclaration (Some name) params body # post) c = (Inr (), c')"
    and "scope c \<noteq> []" and "tokenValue name \<noteq> []"
  shows "\<exists>ca cb. inKeys (tokenValue name) (declarations (hd (scope ca))) \<and>
           tl (scope ca) = tl (scope c) \<and>
           visitAny (FunctionDeclaration (Some name) params body) ca = (Inr (), cb) \<and>
           visitStatements post cb = (Inr (), c') \<and>
           inKeys (tokenValue name) (declarations (hd (scope c'))) \<and> visitInv c c'"
proof -
  let ?f = "FunctionDeclaration (Some name) params body"
  from assms(1) obtain c0 where pre: "visitStatements pre c = (Inr (), c0)"
    and rest: "visitStatements (?f # post) c0 = (Inr (), c')"
    by (auto simp: visitStatements_append split: prod.splits sum.splits)
  have i0: "visitInv c c0" using visit_inv(4)[OF pre assms(2)] .
  from rest obtain ca cb where d: "declareVariable (TokenArg (Some name)) c0 = (Inr (), ca)"
    and v: "visitAny ?f ca = (Inr (), cb)"
    and p: "visitStatements post cb = (Inr (), c')"
    by (auto split: prod.splits sum.splits)
  have ia: "visitInv c0 ca" using declareVariable_inv[OF d visitInv_nonempty[OF i0]] .
  have ib: "visitInv ca cb" using visit_inv(1)[OF v visitInv_nonempty[OF ia]] .
  have ic: "visitInv cb c'" using visit_inv(4)[OF p visitInv_nonempty[OF ib]] .
  have da: "inKeys (tokenValue name) (declarations (hd (scope ca)))"
    using declareVariable_declares[OF d _ assms(3)] by simp
  have dc: "inKeys (tokenValue name) (declarations (hd (scope c')))"
    using visitInv_declared[OF ic visitInv_declared[OF ib da]] .
  have t: "tl (scope ca) = tl (scope c)" using visitInv_tl[OF ia] visitInv_tl[OF i0] by simp
  have "visitInv c c'" using i0 ia ib ic by (blast intro: visitInv_trans)
  then show ?thesis using da t v p dc by blast
qed

lemma unresolved_not_declared:
  "p \<in> set (unresolved s) \<Longrightarrow> \<not> inKeys (fst p) (declarations s)"
  by (simp add: unresolved_def)

lemmas checker_eval =
  visitFunction.simps visitProgram.simps visitIdentifierExpression_def declareVariable_def
  pushScope_def pop_def validateScope_def inKeys_def newScope_def reportError_def
  locAt_def createIdentifierToken_def identifierAt_def createExpressionStatement_def
  createArgumentList_def createCallExpression_def returnStatement_def functionNamed_def
  rootChecker_def nestedChecker_def declareGlobals_def exampleInnerScope_def exampleOuterScope_def
  exampleTwoReferences_def exampleForwardReference_def

text \<open>What the visitor records in the scope it runs in, as a function of the tree.\<close>

lemma addAll_Nil [simp]: "addAll m [] = m"
  by (simp add: addAll_def)

lemma addAll_Cons: "addAll m (p # ps) = addAll (insertNew p m) ps"
  by (simp add: addAll_def)

lemma addAll_append: "addAll m (ps @ qs) = addAll (addAll m ps) qs"
  by (simp add: addAll_def)

lemma addAll_snoc: "addAll m (ps @ [p]) = insertNew p (addAll m ps)"
  by (simp add: addAll_def)

lemma inKeys_append: "inKeys n (p @ q) \<longleftrightarrow> inKeys n p \<or> inKeys n q"
  by (auto simp: inKeys_def)

lemma inKeys_insertNew: "inKeys n (insertNew p m) \<longleftrightarrow> inKeys n m \<or> n = fst p"
  by (auto simp: insertNew_def inKeys_def)

lemma inKeys_addAll: "inKeys n (addAll m ps) \<longleftrightarrow> inKeys n m \<or> inKeys n ps"
proof (induction ps arbitrary: m)
  case Nil
  then show ?case by (simp add: inKeys_def)
next
  case (Cons p ps)
  then show ?case by (cases p) (auto simp: addAll_Cons inKeys_insertNew inKeys_Cons)
qed

lemma inKeys_escaping: "inKeys n (escaping d r) \<longleftrightarrow> inKeys n r \<and> \<not> inKeys n d"
  by (auto simp: escaping_def inKeys_def)

lemma escaping_append: "escaping d (r @ r') = escaping d r @ escaping d r'"
  by (simp add: escaping_def)

lemma escaping_addAll_decls: "escaping (addAll [] d) r = escaping d r"
proof -
  have "\<And>n. inKeys n (addAll [] d) = inKeys n d"
    by (simp add: inKeys_addAll) (simp add: inKeys_def)
  then show ?thesis by (simp add: escaping_def)
qed

lemma promote_addAll: "promote refs decls p = addAll p (escaping decls refs)"
  by (induction refs decls p rule: promote.induct)
     (auto simp: escaping_def addAll_Cons insertNew_def)

lemma addAll_insertNew: "addAll p (insertNew x y) = insertNew x (addAll p y)"
  by (auto simp: insertNew_def inKeys_addAll addAll_snoc)

lemma addAll_addAll: "addAll p (addAll m x) = addAll (addAll p m) x"
  by (induction x rule: rev_induct) (simp_all add: addAll_snoc addAll_insertNew)

lemma escaping_insertNew:
  "escaping d (insertNew x y) =
     (if inKeys (fst x) d then escaping d y else insertNew x (escaping d y))"
  by (cases "inKeys (fst x) y"; cases "inKeys (fst x) d")
     (simp_all add: insertNew_def inKeys_escaping, simp_all add: escaping_def)

lemma escaping_addAll: "escaping d (addAll m x) = addAll (escaping d m) (escaping d x)"
proof (induction x rule: rev_induct)
  case Nil
  then show ?case by (simp add: escaping_def)
next
  case (snoc a x)
  then show ?case
    by (cases "inKeys (fst a) d")
       (simp_all add: addAll_snoc escaping_insertNew escaping_append, simp_all add: escaping_def addAll_snoc)
qed

lemma promote_visited:
  "promote (addAll [] r) (addAll [] d) p = addAll p (escaping d r)"
proof -
  have "escaping d (addAll [] r) = addAll [] (escaping d r)"
    using escaping_addAll[of d "[]" r] by (simp add: escaping_def)
  then show ?thesis
    by (simp add: promote_addAll escaping_addAll_decls addAll_addAll)
qed

lemma map_of_insertNew:
  "map_of (insertNew p m) n = (if inKeys n m then map_of m n else if n = fst p then Some (snd p) else None)"
  by (cases p) (simp add: insertNew_def map_of_snoc map_of_not_inKeys del: map_of_append)

lemma map_of_addAll:
  "map_of (addAll m ps) n = (if inKeys n m then map_of m n else map_of ps n)"
proof (induction ps arbitrary: m)
  case Nil
  then show ?case by (simp add: map_of_not_inKeys)
next
  case (Cons p ps)
  then show ?case
    by (cases p) (auto simp: addAll_Cons map_of_insertNew inKeys_insertNew)
qed

lemma withEntries_Nil [simp]: "withEntries [] [] s = s"
  by (simp add: withEntries_def)

lemma withEntries_withEntries:
  "withEntries R2 D2 (withEntries R1 D1 s) = withEntries (R1 @ R2) (D1 @ D2) s"
  by (simp add: withEntries_def addAll_append)

lemma withEntries_fields [simp]:
  "scopeId (withEntries R D s) = scopeId s"
  "references (withEntries R D s) = addAll (references s) R"
  "declarations (withEntries R D s) = addAll (declarations s) D"
  by (simp_all add: withEntries_def)

lemma recorded_refl: "scope c \<noteq> [] \<Longrightarrow> recorded [] [] c c"
  by (cases "scope c") (simp_all add: recorded_def)

lemma recorded_trans:
  "recorded R1 D1 a b \<Longrightarrow> recorded R2 D2 b c \<Longrightarrow> recorded (R1 @ R2) (D1 @ D2) a c"
  by (cases "scope a") (auto simp: recorded_def withEntries_withEntries)

lemma recorded_nonempty: "recorded R D a b \<Longrightarrow> scope b \<noteq> []"
  by (cases "scope a") (auto simp: recorded_def)

lemma recorded_nonempty_start: "recorded R D a b \<Longrightarrow> scope a \<noteq> []"
  by (cases "scope a") (auto simp: recorded_def)

lemma declareVariable_recorded:
  "scope c \<noteq> [] \<Longrightarrow> declareVariable a c = (Inr u, c') \<Longrightarrow> recorded [] (declaredName a) c c'"
  by (cases "scope c")
     (auto simp: declareVariable_def recorded_def declaredName_def withEntries_def addAll_Cons
                 insertNew_def
           split: option.splits if_splits)

lemma declareVariable_total:
  "scope c \<noteq> [] \<Longrightarrow> \<exists>c'. declareVariable a c = (Inr (), c')"
  by (cases "scope c") (auto simp: declareVariable_def split: option.splits)

lemma visitIdentifierExpression_recorded:
  "scope c \<noteq> [] \<Longrightarrow> visitIdentifierExpression (IdentifierExpression l tok) c = (Inr u, c') \<Longrightarrow>
   recorded [(tokenValue tok, l)] [] c c'"
  by (cases "scope c")
     (auto simp: visitIdentifierExpression_def recorded_def withEntries_def addAll_Cons
                 insertNew_def
           split: option.splits if_splits)

lemma scoped_recorded:
  assumes "pushScope c = (sc, c1)" and "recorded R D c1 c2" and "pop sc c2 = (Inr u, c3)"
    and "scope c \<noteq> []"
  shows "recorded (escaping D R) [] c c3"
proof -
  obtain s rest where c: "scope c = s # rest" using assms(4) by (cases "scope c") auto
  from assms(1) have c1: "scope c1 = newScope (nextScopeId c) # s # rest"
    and r1: "reporter c1 = reporter c"
    by (auto simp: pushScope_def c)
  from assms(2) c1 have c2: "scope c2 = withEntries R D (newScope (nextScopeId c)) # s # rest"
    and r2: "reporter c2 = reporter c1"
    by (auto simp: recorded_def)
  from assms(3) c2 have "scope c3 = s\<lparr>references :=
        promote (addAll [] R) (addAll [] D) (references s)\<rparr> # rest"
    and "reporter c3 = reporter c2"
    by (auto simp: pop_def validateScope_def newScope_def split: if_splits)
  then show ?thesis using c r1 r2
    by (simp add: recorded_def promote_visited withEntries_def)
qed

lemma declareAll_recorded:
  "scope c \<noteq> [] \<Longrightarrow> declareAll ns c = (Inr u, c') \<Longrightarrow>
   recorded [] (concat (map (\<lambda>n. declaredName (StringArg n)) ns)) c c'"
proof (induction ns arbitrary: c)
  case Nil
  then show ?case by (simp add: recorded_refl)
next
  case (Cons n ns)
  from Cons.prems(2) obtain c1 where d: "declareVariable (StringArg n) c = (Inr (), c1)"
    and r: "declareAll ns c1 = (Inr u, c')"
    by (auto split: prod.splits sum.splits)
  have i1: "recorded [] (declaredName (StringArg n)) c c1"
    using declareVariable_recorded[OF Cons.prems(1) d] .
  have "recorded [] (concat (map (\<lambda>n. declaredName (StringArg n)) ns)) c1 c'"
    using Cons.IH[OF recorded_nonempty[OF i1] r] .
  with i1 show ?case using recorded_trans by fastforce
qed

lemma visit_recorded:
  "visitAny t c = (Inr u, c') \<Longrightarrow> scope c \<noteq> [] \<Longrightarrow>
     recorded (freeReferences t) (declared t) c c'"
  "visitList ts c = (Inr u, c') \<Longrightarrow> scope c \<noteq> [] \<Longrightarrow>
     recorded (freeReferencesList ts) (declaredList ts) c c'"
  "visitProgram els g c = (Inr u, c') \<Longrightarrow> scope c \<noteq> [] \<Longrightarrow>
     recorded (escaping (globalDeclarations g @ declaredStatements els) (freeReferencesList els))
       [] c c'"
  "visitStatements ss c = (Inr u, c') \<Longrightarrow> scope c \<noteq> [] \<Longrightarrow>
     recorded (freeReferencesList ss) (declaredStatements ss) c c'"
  "visitFunction n p b c = (Inr u, c') \<Longrightarrow> scope c \<noteq> [] \<Longrightarrow>
     recorded (escaping (functionScope n p b) (freeReferences p @ freeReferences b)) [] c c'"
  "visitDeclarations ds c = (Inr u, c') \<Longrightarrow> scope c \<noteq> [] \<Longrightarrow>
     recorded (freeReferencesDeclarations ds) (declaredDeclarations ds) c c'"
proof (induction t c and ts c and els g c and ss c and n p b c and ds c
       arbitrary: c' and c' and c' and c' and c' and c'
       rule: visitAny_visitList_visitProgram_visitStatements_visitFunction_visitDeclarations.induct)
  case (2 programElements c)
  then show ?case by (simp add: globalDeclarations_def)
next
  case (6 l propertyName body c)
  from "6.prems"(1) obtain sc c1 c2 where p: "pushScope c = (sc, c1)"
    and v: "visitAny body c1 = (Inr (), c2)" and q: "pop sc c2 = (Inr u, c')"
    by (auto split: prod.splits sum.splits)
  have "recorded (freeReferences body) (declared body) c1 c2"
    using "6.IH"[OF p[symmetric] _ pushScope_nonempty[OF p]] v by simp
  then show ?case using scoped_recorded[OF p _ q] "6.prems"(2) by simp
next
  case (7 l propertyName parameter body c)
  from "7.prems"(1) obtain sc c1 c2 c3 a where p: "pushScope c = (sc, c1)"
    and d: "declareVariable a c1 = (Inr (), c2)"
    and v: "visitAny body c2 = (Inr (), c3)" and q: "pop sc c3 = (Inr u, c')"
    and a: "a = TreeArg (case parameter of BindingElement binding initializer \<Rightarrow> binding | _ \<Rightarrow> NullTree)"
    by (auto split: prod.splits sum.splits)
  have i1: "recorded [] (declaredName a) c1 c2"
    using declareVariable_recorded[OF pushScope_nonempty[OF p] d] .
  have "recorded (freeReferences body) (declared body) c2 c3"
    using "7.IH"[OF p[symmetric] _ _ _ recorded_nonempty[OF i1]] d v a by simp
  from recorded_trans[OF i1 this]
  show ?case using scoped_recorded[OF p _ q] "7.prems"(2) a by (simp add: setterBinding_def)
next
  case (8 binding catchBody c)
  from "8.prems"(1) obtain sc c1 c2 c3 where p: "pushScope c = (sc, c1)"
    and d: "visitAny binding c1 = (Inr (), c2)"
    and v: "visitAny catchBody c2 = (Inr (), c3)" and q: "pop sc c3 = (Inr u, c')"
    by (auto split: prod.splits sum.splits)
  have i1: "recorded (freeReferences binding) (declared binding) c1 c2"
    using "8.IH"(1)[OF p[symmetric] _ pushScope_nonempty[OF p]] d by simp
  have "recorded (freeReferences catchBody) (declared catchBody) c2 c3"
    using "8.IH"(2)[OF p[symmetric] _ _ _ recorded_nonempty[OF i1]] d v by simp
  from recorded_trans[OF i1 this]
  show ?case using scoped_recorded[OF p _ q] "8.prems"(2) by simp
next
  case (19 t ts c)
  from "19.prems"(1) obtain c1 where a: "visitAny t c = (Inr (), c1)"
    and b: "visitList ts c1 = (Inr u, c')"
    by (auto split: prod.splits sum.splits)
  have i1: "recorded (freeReferences t) (declared t) c c1"
    using "19.IH"(1)[OF _ "19.prems"(2)] a by simp
  have "recorded (freeReferencesList ts) (declaredList ts) c1 c'"
    using "19.IH"(2)[OF _ _ _ recorded_nonempty[OF i1]] a b by simp
  from recorded_trans[OF i1 this] show ?case by simp
next
  case (20 programElements global c)
  from "20.prems"(1) obtain sc c1 c2 c3 where p: "pushScope c = (sc, c1)"
    and d: "declareGlobals global c1 = (Inr (), c2)"
    and v: "visitStatements programElements c2 = (Inr (), c3)" and q: "pop sc c3 = (Inr u, c')"
    by (auto simp: visitProgram.simps split: prod.splits sum.splits)
  have i1: "recorded [] (globalDeclarations global) c1 c2"
    using declareAll_recorded[OF pushScope_nonempty[OF p]] d
    by (simp add: declareGlobals_def globalDeclarations_def)
  have "recorded (freeReferencesList programElements) (declaredStatements programElements) c2 c3"
    using "20.IH"[OF p[symmetric] _ _ _ recorded_nonempty[OF i1]] d v by simp
  from recorded_trans[OF i1 this]
  show ?case using scoped_recorded[OF p _ q] "20.prems"(2) by simp
next
  case (22 s ss c)
  from "22.prems"(1) obtain c1 c2 where d: "(case s of
              FunctionDeclaration name formalParameterList functionBody \<Rightarrow>
                declareVariable (TokenArg name) c
            | _ \<Rightarrow> (Inr (), c)) = (Inr (), c1)"
    and a: "visitAny s c1 = (Inr (), c2)"
    and b: "visitStatements ss c2 = (Inr u, c')"
    by (auto split: prod.splits sum.splits)
  have i1: "recorded [] (hoistedName s) c c1" using d "22.prems"(2)
    by (cases s) (simp_all add: recorded_refl hoistedName_def declareVariable_recorded)
  have i2: "recorded (freeReferences s) (declared s) c1 c2"
    using "22.IH"(1)[OF _ _ _ recorded_nonempty[OF i1]] d a by simp
  have "recorded (freeReferencesList ss) (declaredStatements ss) c2 c'"
    using "22.IH"(2)[OF _ _ _ _ _ recorded_nonempty[OF i2]] d a b by simp
  from recorded_trans[OF recorded_trans[OF i1 i2] this] show ?case by simp
next
  case (23 name formalParameterList body c)
  from "23.prems"(1) obtain sc c1 c2 c3 c4 c5 where p: "pushScope c = (sc, c1)"
    and d1: "(case name of None \<Rightarrow> (Inr (), c1) | Some tok \<Rightarrow> declareVariable (TokenArg name) c1) = (Inr (), c2)"
    and d2: "declareVariable (StringArg ''arguments'') c2 = (Inr (), c3)"
    and v1: "visitAny formalParameterList c3 = (Inr (), c4)"
    and v2: "visitAny body c4 = (Inr (), c5)"
    and q: "pop sc c5 = (Inr u, c')"
    by (auto simp: visitFunction.simps split: prod.splits sum.splits)
  have i1: "recorded [] (declaredName (TokenArg name)) c1 c2"
  proof (cases name)
    case None
    then show ?thesis using d1 pushScope_nonempty[OF p]
      by (simp add: recorded_refl declaredName_def)
  next
    case (Some tok)
    then show ?thesis using d1 declareVariable_recorded[OF pushScope_nonempty[OF p]] by simp
  qed
  have i2: "recorded [] (declaredName (StringArg ''arguments'')) c2 c3"
    using declareVariable_recorded[OF recorded_nonempty[OF i1] d2] .
  have i3: "recorded (freeReferences formalParameterList) (declared formalParameterList) c3 c4"
    using "23.IH"(1)[OF p[symmetric] _ _ _ _ _ recorded_nonempty[OF i2]] d1 d2 v1 by simp
  have i4: "recorded (freeReferences body) (declared body) c4 c5"
    using "23.IH"(2)[OF p[symmetric] _ _ _ _ _ _ _ recorded_nonempty[OF i3]] d1 d2 v1 v2 by simp
  from recorded_trans[OF recorded_trans[OF recorded_trans[OF i1 i2] i3] i4]
  show ?case using scoped_recorded[OF p _ q] "23.prems"(2) by (simp add: functionScope_def)
next
  case (25 lvalue initializer ds c)
  from "25.prems"(1) obtain c1 c2 where d: "declareVariable (TreeArg lvalue) c = (Inr (), c1)"
    and a: "visitAny initializer c1 = (Inr (), c2)"
    and b: "visitDeclarations ds c2 = (Inr u, c')"
    by (auto split: prod.splits sum.splits)
  have i1: "recorded [] (declaredName (TreeArg lvalue)) c c1"
    using declareVariable_recorded[OF "25.prems"(2) d] .
  have i2: "recorded (freeReferences initializer) (declared initializer) c1 c2"
    using "25.IH"(1)[OF _ _ _ recorded_nonempty[OF i1]] d a by simp
  have "recorded (freeReferencesDeclarations ds) (declaredDeclarations ds) c2 c'"
    using "25.IH"(2)[OF _ _ _ _ _ recorded_nonempty[OF i2]] d a b by simp
  from recorded_trans[OF recorded_trans[OF i1 i2] this] show ?case by simp
qed (auto simp: recorded_refl split: if_splits
          intro: declareVariable_recorded visitIdentifierExpression_recorded)

lemma distinct_addAll:
  "distinct (map fst m) \<Longrightarrow> distinct (map fst (addAll m ps))"
proof (induction ps arbitrary: m)
  case Nil
  then show ?case by simp
next
  case (Cons p ps)
  have "distinct (map fst (insertNew p m))"
    using Cons.prems by (simp add: insertNew_def inKeys_def)
  then show ?case using Cons.IH by (simp add: addAll_Cons)
qed

lemma filter_key_distinct:
  "distinct (map fst m) \<Longrightarrow>
   filter (\<lambda>p. fst p = x) m = (case map_of m x of None \<Rightarrow> [] | Some l \<Rightarrow> [(x, l)])"
proof (induction m)
  case Nil
  then show ?case by simp
next
  case (Cons a m)
  obtain k v where a: "a = (k, v)" by (cases a)
  show ?case
  proof (cases "k = x")
    case True
    then have "x \<notin> fst ` set m" using Cons.prems a by auto
    then have "filter (\<lambda>p. fst p = x) m = []" by (auto simp: filter_empty_conv)
    then show ?thesis using True a by simp
  next
    case False
    then show ?thesis using Cons a by simp
  qed
qed

lemma map_of_escaping:
  "map_of (escaping d r) x = (if inKeys x d then None else map_of r x)"
  by (induction r) (auto simp: escaping_def)

lemma filter_key_addAll:
  "filter (\<lambda>p. fst p = x) (addAll [] u) =
     (case map_of u x of None \<Rightarrow> [] | Some l \<Rightarrow> [(x, l)])"
  using filter_key_distinct[OF distinct_addAll[of "[]" u], of x]
  by (simp add: map_of_addAll inKeys_def)

lemma reports_for_name:
  "filter (\<lambda>e. errorArgs e = [x])
       (map toReported (sort_key (\<lambda>e. offset (fst e)) (map diagnostic (addAll [] u)))) =
   (case map_of u x of None \<Rightarrow> [] | Some l \<Rightarrow> [toReported (diagnostic (x, l))])"
  by (simp add: filter_reported filter_key_addAll split: option.splits)

lemma visitProgram_root:
  assumes "visitProgram els g c = (Inr u, c')" and "scope c = []"
  shows "reporter c' = reporter c @
           map toReported (sort_key (\<lambda>e. offset (fst e))
             (map diagnostic
                (addAll [] (escaping (globalDeclarations g @ declaredStatements els)
                              (freeReferencesList els)))))"
    and "\<forall>p \<in> set (addAll [] (escaping (globalDeclarations g @ declaredStatements els)
                              (freeReferencesList els))). snd p \<noteq> None"
    and "scope c' = []"
proof -
  let ?R = "freeReferencesList els" and ?D = "globalDeclarations g @ declaredStatements els"
  from assms(1) obtain sc c1 c2 c3 where p: "pushScope c = (sc, c1)"
    and d: "declareGlobals g c1 = (Inr (), c2)"
    and v: "visitStatements els c2 = (Inr (), c3)" and q: "pop sc c3 = (Inr u, c')"
    by (auto simp: visitProgram.simps split: prod.splits sum.splits)
  from p assms(2) have c1: "scope c1 = [newScope (nextScopeId c)]"
    and r1: "reporter c1 = reporter c" and sc: "sc = nextScopeId c"
    by (auto simp: pushScope_def)
  have i1: "recorded [] (globalDeclarations g) c1 c2"
    using declareAll_recorded[OF pushScope_nonempty[OF p]] d
    by (simp add: declareGlobals_def globalDeclarations_def)
  have i2: "recorded ?R (declaredStatements els) c2 c3"
    using visit_recorded(4)[OF v recorded_nonempty[OF i1]] .
  from recorded_trans[OF i1 i2] have "recorded ?R ?D c1 c3" by simp
  then have c3: "scope c3 = [withEntries ?R ?D (newScope (nextScopeId c))]"
    and r3: "reporter c3 = reporter c"
    using c1 r1 by (auto simp: recorded_def)
  let ?root = "withEntries ?R ?D (newScope (nextScopeId c))"
  from q c3 sc obtain c4 where val: "validateScope c3 = (Inr (), c4)"
    and c': "c' = c4\<lparr>scope := tl (scope c4)\<rparr>"
    by (auto simp: pop_def newScope_def split: prod.splits sum.splits)
  have un: "unresolved ?root = addAll [] (escaping ?D ?R)"
    using escaping_addAll[of ?D "[]" ?R]
    by (simp add: unresolved_def newScope_def escaping_def[symmetric] escaping_addAll_decls)
       (simp add: escaping_def)
  from validateScope_root_Inr[OF c3 val]
  have c4: "c4 = c3\<lparr>reporter := reporter c3 @
            map toReported (sort_key (\<lambda>e. offset (fst e)) (map diagnostic (unresolved ?root)))\<rparr>"
    and loc: "\<forall>p \<in> set (unresolved ?root). snd p \<noteq> None"
    by simp_all
  show "reporter c' = reporter c @
           map toReported (sort_key (\<lambda>e. offset (fst e))
             (map diagnostic (addAll [] (escaping ?D ?R))))"
    using c' c4 r3 un by simp
  show "\<forall>p \<in> set (addAll [] (escaping ?D ?R)). snd p \<noteq> None"
    using loc un by simp
  show "scope c' = []" using c' c4 c3 by simp
qed

lemma checkProgram_reports:
  assumes "checkProgram rep (Program els) g = (Inr u, c')"
  shows "filter (\<lambda>e. errorArgs e = [x]) (drop (length rep) (reporter c')) =
           (case map_of (freeReferencesList els) x of
              Some (Some l) \<Rightarrow>
                if inKeys x (globalDeclarations g @ declaredStatements els) then []
                else [\<lparr>errorPosition = start l, errorFormat = ''%s is not defined'',
                       errorArgs = [x]\<rparr>]
            | _ \<Rightarrow> [])"
    and "take (length rep) (reporter c') = rep"
proof -
  let ?U = "escaping (globalDeclarations g @ declaredStatements els) (freeReferencesList els)"
  let ?c = "\<lparr>scope = [], nextScopeId = 0, reporter = rep\<rparr>"
  from assms have v: "visitProgram els g ?c = (Inr u, c')" by (simp add: checkProgram_def)
  from visitProgram_root(1)[OF v]
  have r: "reporter c' = rep @
      map toReported (sort_key (\<lambda>e. offset (fst e)) (map diagnostic (addAll [] ?U)))"
    by simp
  from visitProgram_root(2)[OF v] have loc: "\<forall>p \<in> set (addAll [] ?U). snd p \<noteq> None" by simp
  show "take (length rep) (reporter c') = rep" using r by simp
  have located: "l \<noteq> None" if "map_of ?U x = Some l" for l
  proof -
    from that have "map_of (addAll [] ?U) x = Some l" by (simp add: map_of_addAll inKeys_def)
    then have "(x, l) \<in> set (addAll [] ?U)" by (rule map_of_SomeD)
    then show ?thesis using loc by auto
  qed
  have "filter (\<lambda>e. errorArgs e = [x]) (drop (length rep) (reporter c')) =
          (case map_of ?U x of None \<Rightarrow> [] | Some l \<Rightarrow> [toReported (diagnostic (x, l))])"
    using r by (simp add: reports_for_name)
  then show "filter (\<lambda>e. errorArgs e = [x]) (drop (length rep) (reporter c')) =
           (case map_of (freeReferencesList els) x of
              Some (Some l) \<Rightarrow>
                if inKeys x (globalDeclarations g @ declaredStatements els) then []
                else [\<lparr>errorPosition = start l, errorFormat = ''%s is not defined'',
                       errorArgs = [x]\<rparr>]
            | _ \<Rightarrow> [])"
    using located[of None]
    by (auto simp: map_of_escaping toReported_def diagnostic_def split: option.splits if_splits)
qed

lemma declaredList_append: "declaredList (xs @ ys) = declaredList xs @ declaredList ys"
  by (induction xs) simp_all

lemma recorded_declarations:
  "recorded R D c c' \<Longrightarrow> scope c = s # rest \<Longrightarrow>
   declarations (hd (scope c')) = addAll (declarations s) D"
  by (simp add: recorded_def)

lemma recorded_scope:
  "recorded R D c c' \<Longrightarrow> scope c = s # rest \<Longrightarrow> scope c' = withEntries R D s # rest"
  by (simp add: recorded_def)

lemma visitFunction_own_scope:
  assumes "visitFunction n p b c = (Inr u, c')" and "scope c = s # rest"
  shows "\<exists>(inner :: Scope) c4 c5.
           scope c4 = inner # s # rest \<and> visitAny b c4 = (Inr (), c5) \<and>
           pop (scopeId inner) c5 = (Inr (), c') \<and>
           declarations inner =
             addAll [] (declaredName (TokenArg n) @ declaredName (StringArg ''arguments'') @
                        declared p)"
proof -
  from assms(1) obtain sc c1 c2 c3 c4 c5 where p: "pushScope c = (sc, c1)"
    and d1: "(case n of None \<Rightarrow> (Inr (), c1) | Some tok \<Rightarrow> declareVariable (TokenArg n) c1) = (Inr (), c2)"
    and d2: "declareVariable (StringArg ''arguments'') c2 = (Inr (), c3)"
    and v1: "visitAny p c3 = (Inr (), c4)"
    and v2: "visitAny b c4 = (Inr (), c5)"
    and q: "pop sc c5 = (Inr u, c')"
    by (auto simp: visitFunction.simps split: prod.splits sum.splits)
  have i1: "recorded [] (declaredName (TokenArg n)) c1 c2"
  proof (cases n)
    case None
    then show ?thesis using d1 pushScope_nonempty[OF p]
      by (simp add: recorded_refl declaredName_def)
  next
    case (Some tok)
    then show ?thesis using d1 declareVariable_recorded[OF pushScope_nonempty[OF p]] by simp
  qed
  have i2: "recorded [] (declaredName (StringArg ''arguments'')) c2 c3"
    using declareVariable_recorded[OF recorded_nonempty[OF i1] d2] .
  have i3: "recorded (freeReferences p) (declared p) c3 c4"
    using visit_recorded(1)[OF v1 recorded_nonempty[OF i2]] .
  from recorded_trans[OF recorded_trans[OF i1 i2] i3]
  have r: "recorded (freeReferences p)
             (declaredName (TokenArg n) @ declaredName (StringArg ''arguments'') @ declared p)
             c1 c4" by simp
  from p assms(2) have c1: "scope c1 = newScope (nextScopeId c) # s # rest"
    and sc: "sc = nextScopeId c"
    by (auto simp: pushScope_def)
  let ?inner = "withEntries (freeReferences p)
             (declaredName (TokenArg n) @ declaredName (StringArg ''arguments'') @ declared p)
             (newScope (nextScopeId c))"
  have c4: "scope c4 = ?inner # s # rest" using recorded_scope[OF r c1] .
  have "pop (scopeId ?inner) c5 = (Inr (), c')" using q sc by (simp add: newScope_def)
  moreover have "declarations ?inner =
      addAll [] (declaredName (TokenArg n) @ declaredName (StringArg ''arguments'') @ declared p)"
    by (simp add: newScope_def)
  ultimately show ?thesis using c4 v2 by blast
qed

lemmas scoping_eval =
  escaping_def functionScope_def declaredName_def hoistedName_def addAll_def insertNew_def
  globalDeclarations_def setterBinding_def checkProgram_def unresolved_def

section \<open>Claims about the free-variable checker\<close>

text \<open>
  C3.  When a scope with a parent is validated and popped (\<open>pop\<close> with that scope), the
  pass returns normally, the scope is removed and the parent's reference mapping is the
  old one followed by the popped scope's unresolved entries (pending there, not declared
  there) whose names the parent did not hold yet, in order; so for every name the parent
  then holds: its own pending entry if it had one, else the popped scope's entry if the
  name is pending and undeclared there, else nothing.  Consequently, for every program
  \<open>checkProgram\<close> returns normally for, and every name: the diagnostics added for the name
  are none if the name has no free reference in the program or is declared at the top
  level (by the global object, a top-level binding or a hoisted function), and otherwise
  exactly one, at the start of the location of the first free reference to the name in
  the program (\<open>map_of\<close> yields the first entry of \<open>freeReferencesList\<close>), however many
  references follow, in whichever statements, functions or expressions they stand.  The
  diagnostics reported before are kept.
\<close>

theorem promotion_and_single_diagnostic:
  "(scope c = s # parent # rest \<longrightarrow>
      (\<exists>R. validateScope c = (Inr (), c\<lparr>scope := s # parent\<lparr>references := R\<rparr> # rest\<rparr>) \<and>
           pop (scopeId s) c = (Inr (), c\<lparr>scope := parent\<lparr>references := R\<rparr> # rest\<rparr>) \<and>
           R = addAll (references parent) (unresolved s) \<and>
           (\<forall>name. map_of R name =
              (if inKeys name (references parent) then map_of (references parent) name
               else if inKeys name (references s) \<and> \<not> inKeys name (declarations s)
                    then map_of (references s) name
               else None)))) \<and>
   (checkProgram rep (Program programElements) global = (Inr (), c') \<longrightarrow>
      take (length rep) (reporter c') = rep \<and>
      filter (\<lambda>e. errorArgs e = [name]) (drop (length rep) (reporter c')) =
        (case map_of (freeReferencesList programElements) name of
           Some (Some l) \<Rightarrow>
             if inKeys name (globalDeclarations global @ declaredStatements programElements)
             then []
             else [\<lparr>errorPosition = start l, errorFormat = ''%s is not defined'',
                    errorArgs = [name]\<rparr>]
         | _ \<Rightarrow> []))"
proof (intro conjI impI)
  assume a: "scope c = s # parent # rest"
  let ?R = "promote (references s) (declarations s) (references parent)"
  have v: "validateScope c = (Inr (), c\<lparr>scope := s # parent\<lparr>references := ?R\<rparr> # rest\<rparr>)"
    using validateScope_nonroot[OF a] .
  have p: "pop (scopeId s) c = (Inr (), c\<lparr>scope := parent\<lparr>references := ?R\<rparr> # rest\<rparr>)"
    using a v by (simp add: pop_def)
  have r: "?R = addAll (references parent) (unresolved s)"
    by (simp add: promote_addAll unresolved_def escaping_def)
  show "\<exists>R. validateScope c = (Inr (), c\<lparr>scope := s # parent\<lparr>references := R\<rparr> # rest\<rparr>) \<and>
           pop (scopeId s) c = (Inr (), c\<lparr>scope := parent\<lparr>references := R\<rparr> # rest\<rparr>) \<and>
           R = addAll (references parent) (unresolved s) \<and>
           (\<forall>name. map_of R name =
              (if inKeys name (references parent) then map_of (references parent) name
               else if inKeys name (references s) \<and> \<not> inKeys name (declarations s)
                    then map_of (references s) name
               else None))"
    by (rule exI[of _ ?R]) (use v p r promote_map_of in blast)
next
  assume a: "checkProgram rep (Program programElements) global = (Inr (), c')"
  show "take (length rep) (reporter c') = rep" using checkProgram_reports(2)[OF a] .
next
  assume a: "checkProgram rep (Program programElements) global = (Inr (), c')"
  show "filter (\<lambda>e. errorArgs e = [name]) (drop (length rep) (reporter c')) =
        (case map_of (freeReferencesList programElements) name of
           Some (Some l) \<Rightarrow>
             if inKeys name (globalDeclarations global @ declaredStatements programElements)
             then []
             else [\<lparr>errorPosition = start l, errorFormat = ''%s is not defined'',
                    errorArgs = [name]\<rparr>]
         | _ \<Rightarrow> [])"
    using checkProgram_reports(1)[OF a] .
qed

theorem promotion_and_single_diagnostic_witness:
  "validateScope \<lparr>scope = [exampleInnerScope, exampleOuterScope], nextScopeId = 2, reporter = []\<rparr> =
     (Inr (), \<lparr>scope = [exampleInnerScope,
                 exampleOuterScope\<lparr>references := [(''z'', locAt 1), (''x'', locAt 3)]\<rparr>],
               nextScopeId = 2, reporter = []\<rparr>) \<and>
   pop 1 \<lparr>scope = [exampleInnerScope, exampleOuterScope], nextScopeId = 2, reporter = []\<rparr> =
     (Inr (), \<lparr>scope = [exampleOuterScope\<lparr>references := [(''z'', locAt 1), (''x'', locAt 3)]\<rparr>],
               nextScopeId = 2, reporter = []\<rparr>) \<and>
   freeReferencesList exampleTwoReferences = [(''x'', locAt 20), (''x'', locAt 30)] \<and>
   declaredStatements exampleTwoReferences = [(''f'', None)] \<and>
   checkProgram [] (Program exampleTwoReferences) [] =
     (Inr (), \<lparr>scope = [], nextScopeId = 2,
               reporter = [\<lparr>errorPosition = SourcePosition 20,
                             errorFormat = ''%s is not defined'', errorArgs = [''x'']\<rparr>]\<rparr>)"
  using promotion_and_single_diagnostic[where
      c = "\<lparr>scope = [exampleInnerScope, exampleOuterScope], nextScopeId = 2, reporter = []\<rparr>"
      and s = exampleInnerScope and parent = exampleOuterScope and rest = "[]"
      and rep = "[]" and programElements = exampleTwoReferences and global = "[]"
      and c' = "\<lparr>scope = [], nextScopeId = 2,
               reporter = [\<lparr>errorPosition = SourcePosition 20,
                             errorFormat = ''%s is not defined'', errorArgs = [''x'']\<rparr>]\<rparr>"
      and name = "''x''"]
  by (simp add: checker_eval scoping_eval)

text \<open>
  C4.  In a statement list, a function declaration's (non-empty) name is declared in the
  current scope when its own statement is visited, and is still declared there when the
  list is done.  So at the exit of the scope the list was visited in, the name is
  resolved: in the root scope no diagnostic for it is reported, and in a scope with a
  parent it is not promoted.  This holds wherever the references to it stand, before the
  declaration included.  Visiting an arrow function as a statement declares nothing in the
  enclosing scope.
\<close>

theorem function_names_hoisted:
  "(visitStatements (pre @ FunctionDeclaration (Some name) params body # post) c = (Inr (), c') \<and>
    scope c \<noteq> [] \<and> tokenValue name \<noteq> [] \<longrightarrow>
      (\<exists>ca cb. inKeys (tokenValue name) (declarations (hd (scope ca))) \<and>
           tl (scope ca) = tl (scope c) \<and>
           visitAny (FunctionDeclaration (Some name) params body) ca = (Inr (), cb) \<and>
           visitStatements post cb = (Inr (), c')) \<and>
      inKeys (tokenValue name) (declarations (hd (scope c')))) \<and>
   (visitStatements ss c = (Inr (), c1) \<and> scope c = [root] \<and>
    FunctionDeclaration (Some name) params body \<in> set ss \<and> tokenValue name \<noteq> [] \<and>
    validateScope c1 = (r, c2) \<longrightarrow>
      filter (\<lambda>e. errorArgs e = [tokenValue name]) (drop (length (reporter c)) (reporter c2)) = []) \<and>
   (visitStatements ss c = (Inr (), c1) \<and> scope c = s # parent # rest \<and>
    FunctionDeclaration (Some name) params body \<in> set ss \<and> tokenValue name \<noteq> [] \<and>
    validateScope c1 = (r, c2) \<longrightarrow>
      r = Inr () \<and> tl (tl (scope c2)) = rest \<and>
      inKeys (tokenValue name) (references (hd (tl (scope c2)))) =
        inKeys (tokenValue name) (references parent)) \<and>
   (visitStatements [ArrowFunctionExpression params body] c = (Inr (), c') \<and> scope c \<noteq> [] \<longrightarrow>
      declarations (hd (scope c')) = declarations (hd (scope c)))"
proof (intro conjI impI)
  assume a: "visitStatements (pre @ FunctionDeclaration (Some name) params body # post) c = (Inr (), c') \<and>
    scope c \<noteq> [] \<and> tokenValue name \<noteq> []"
  from a visitStatements_function_declared[of pre name params body post c c']
  show "\<exists>ca cb. inKeys (tokenValue name) (declarations (hd (scope ca))) \<and>
           tl (scope ca) = tl (scope c) \<and>
           visitAny (FunctionDeclaration (Some name) params body) ca = (Inr (), cb) \<and>
           visitStatements post cb = (Inr (), c')"
    by blast
  from a visitStatements_function_declared[of pre name params body post c c']
  show "inKeys (tokenValue name) (declarations (hd (scope c')))" by blast
next
  assume a: "visitStatements ss c = (Inr (), c1) \<and> scope c = [root] \<and>
    FunctionDeclaration (Some name) params body \<in> set ss \<and> tokenValue name \<noteq> [] \<and>
    validateScope c1 = (r, c2)"
  then obtain pre post where ss: "ss = pre @ FunctionDeclaration (Some name) params body # post"
    by (meson split_list)
  from a ss visitStatements_function_declared[of pre name params body post c c1]
  have d: "inKeys (tokenValue name) (declarations (hd (scope c1)))" and inv: "visitInv c c1"
    by auto
  from a visitInv_hd[OF inv, of root "[]"] obtain r1 where c1: "scope c1 = [r1]" by auto
  have rep: "reporter c1 = reporter c" using visitInv_reporter[OF inv] .
  show "filter (\<lambda>e. errorArgs e = [tokenValue name]) (drop (length (reporter c)) (reporter c2)) = []"
  proof (cases r)
    case (Inl e)
    then show ?thesis using validateScope_root_Inl[OF c1, of e c2] a rep by simp
  next
    case (Inr u)
    then have "reporter c2 = reporter c @
        map toReported (sort_key (\<lambda>e. offset (fst e)) (map diagnostic (unresolved r1)))"
      using validateScope_root_Inr(1)[OF c1, of u c2] a rep by simp
    moreover have "\<forall>p \<in> set (unresolved r1). fst p \<noteq> tokenValue name"
      using d c1 unresolved_not_declared[of _ r1] by auto
    ultimately show ?thesis by (simp add: filter_reported filter_empty_conv)
  qed
next
  assume a: "visitStatements ss c = (Inr (), c1) \<and> scope c = s # parent # rest \<and>
    FunctionDeclaration (Some name) params body \<in> set ss \<and> tokenValue name \<noteq> [] \<and>
    validateScope c1 = (r, c2)"
  then obtain pre post where ss: "ss = pre @ FunctionDeclaration (Some name) params body # post"
    by (meson split_list)
  from a ss visitStatements_function_declared[of pre name params body post c c1]
  have d: "inKeys (tokenValue name) (declarations (hd (scope c1)))" and inv: "visitInv c c1"
    by auto
  from a visitInv_hd[OF inv, of s "parent # rest"] obtain s1 where c1: "scope c1 = s1 # parent # rest"
    by auto
  from a validateScope_nonroot[OF c1]
  have r: "r = Inr ()" and c2: "c2 = c1\<lparr>scope := s1
        # parent\<lparr>references := promote (references s1) (declarations s1) (references parent)\<rparr>
        # rest\<rparr>" by auto
  show "r = Inr ()" by fact
  show "tl (tl (scope c2)) = rest" using c2 by simp
  show "inKeys (tokenValue name) (references (hd (tl (scope c2)))) =
        inKeys (tokenValue name) (references parent)"
    using c2 d c1 by (simp add: promote_declared)
next
  assume a: "visitStatements [ArrowFunctionExpression params body] c = (Inr (), c') \<and> scope c \<noteq> []"
  then obtain s rest where c: "scope c = s # rest" by (cases "scope c") auto
  from a have "visitFunction None params body c = (Inr (), c')"
    by (auto split: prod.splits sum.splits)
  from visitFunction_enclosing[OF this c] c
  show "declarations (hd (scope c')) = declarations (hd (scope c))" by auto
qed

theorem function_names_hoisted_witness:
  "scope rootChecker \<noteq> [] \<and> tokenValue (createIdentifierToken ''g'') \<noteq> [] \<and>
   functionNamed ''g'' [returnStatement (Node LITERAL_EXPRESSION [] [])] \<in> set exampleForwardReference \<and>
   visitStatements exampleForwardReference rootChecker =
     (Inr (), \<lparr>scope = [\<lparr>scopeId = 0, references = [(''g'', locAt 22)],
                          declarations = [(''f'', None), (''g'', None)]\<rparr>],
               nextScopeId = 3, reporter = []\<rparr>) \<and>
   validateScope (snd (visitStatements exampleForwardReference rootChecker)) =
     (Inr (), snd (visitStatements exampleForwardReference rootChecker)) \<and>
   reporter (snd (visitStatements exampleForwardReference rootChecker)) = [] \<and>
   visitStatements exampleForwardReference nestedChecker =
     (Inr (), \<lparr>scope = [\<lparr>scopeId = 1, references = [(''g'', locAt 22)],
                          declarations = [(''f'', None), (''g'', None)]\<rparr>, newScope 0],
               nextScopeId = 4, reporter = []\<rparr>) \<and>
   validateScope (snd (visitStatements exampleForwardReference nestedChecker)) =
     (Inr (), snd (visitStatements exampleForwardReference nestedChecker)) \<and>
   visitStatements
     [ArrowFunctionExpression
        (Node FORMAL_PARAMETER_LIST [] [BindingIdentifier None (createIdentifierToken ''a'')])
        (identifierAt 5 ''a'')] rootChecker = (Inr (), rootChecker\<lparr>nextScopeId := 2\<rparr>)"
  using function_names_hoisted[where pre = "[hd exampleForwardReference]"
      and name = "createIdentifierToken ''g''" and params = "Node FORMAL_PARAMETER_LIST [] []"
      and body = "Block [returnStatement (Node LITERAL_EXPRESSION [] [])]" and post = "[]"
      and c = rootChecker and c' = "snd (visitStatements exampleForwardReference rootChecker)"
      and ss = exampleForwardReference
      and ?c1.0 = "snd (visitStatements exampleForwardReference rootChecker)"
      and root = "newScope 0" and r = "Inr ()"
      and ?c2.0 = "snd (visitStatements exampleForwardReference rootChecker)"]
    function_names_hoisted[where name = "createIdentifierToken ''g''"
      and params = "Node FORMAL_PARAMETER_LIST [] []"
      and body = "Block [returnStatement (Node LITERAL_EXPRESSION [] [])]"
      and c = nestedChecker and ss = exampleForwardReference
      and ?c1.0 = "snd (visitStatements exampleForwardReference nestedChecker)"
      and s = "newScope 1" and parent = "newScope 0" and rest = "[]" and r = "Inr ()"
      and ?c2.0 = "snd (visitStatements exampleForwardReference nestedChecker)"]
    function_names_hoisted[where
          params = "Node FORMAL_PARAMETER_LIST [] [BindingIdentifier None (createIdentifierToken ''a'')]"
      and body = "identifierAt 5 ''a''" and c = rootChecker
      and c' = "rootChecker\<lparr>nextScopeId := 2\<rparr>"]
  by (simp add: checker_eval)

text \<open>
  C7.  Validating the root scope: if some unresolved reference has no recorded location,
  \<open>validateScope\<close> throws the internal error for such a name and the error sink is left as
  it was (no user diagnostic); if every unresolved reference has a location, it returns
  normally and appends to the error sink exactly the diagnostics of the unresolved
  references, in ascending order of their start offset.
\<close>

theorem validateScope_root_fatal_or_sorted:
  assumes "scope c = [root]"
  shows "((\<exists>name. (name, None) \<in> set (unresolved root)) \<longrightarrow>
            (\<exists>name. (name, None) \<in> set (unresolved root) \<and>
                    validateScope c = (Inl (GeneratedVariableNotDefined name), c))) \<and>
         ((\<forall>p \<in> set (unresolved root). snd p \<noteq> None) \<longrightarrow>
            (\<exists>errs. validateScope c = (Inr (), c\<lparr>reporter := reporter c @ errs\<rparr>) \<and>
                    sorted (map (\<lambda>e. offset (errorPosition e)) errs) \<and>
                    mset errs = mset (map (toReported \<circ> diagnostic) (unresolved root))))"
proof (intro conjI impI)
  assume ex: "\<exists>name. (name, None) \<in> set (unresolved root)"
  obtain r c' where v: "validateScope c = (r, c')" by (cases "validateScope c")
  show "\<exists>name. (name, None) \<in> set (unresolved root) \<and>
                    validateScope c = (Inl (GeneratedVariableNotDefined name), c)"
  proof (cases r)
    case (Inl e)
    then show ?thesis using validateScope_root_Inl[OF assms, of e c'] v by auto
  next
    case (Inr u)
    then show ?thesis using validateScope_root_Inr(2)[OF assms, of u c'] v ex by force
  qed
next
  assume all: "\<forall>p \<in> set (unresolved root). snd p \<noteq> None"
  obtain r c' where v: "validateScope c = (r, c')" by (cases "validateScope c")
  let ?errs = "map toReported (sort_key (\<lambda>e. offset (fst e)) (map diagnostic (unresolved root)))"
  have r: "\<exists>u. r = Inr u"
  proof (cases r)
    case (Inl e)
    then show ?thesis using validateScope_root_Inl[OF assms, of e c'] v all by force
  qed simp
  then have 1: "validateScope c = (Inr (), c\<lparr>reporter := reporter c @ ?errs\<rparr>)"
    using validateScope_root_Inr(1)[OF assms, of _ c'] v by auto
  have 2: "sorted (map (\<lambda>e. offset (errorPosition e)) ?errs)"
    using sorted_sort_key[of "\<lambda>e. offset (fst e)" "map diagnostic (unresolved root)"]
    by (simp add: comp_def toReported_def)
  have 3: "mset ?errs = mset (map (toReported \<circ> diagnostic) (unresolved root))"
    by (simp add: multiset.map_comp)
  show "\<exists>errs. validateScope c = (Inr (), c\<lparr>reporter := reporter c @ errs\<rparr>) \<and>
                    sorted (map (\<lambda>e. offset (errorPosition e)) errs) \<and>
                    mset errs = mset (map (toReported \<circ> diagnostic) (unresolved root))"
    using 1 2 3 by blast
qed

theorem validateScope_root_fatal_or_sorted_witness:
  "(let root = \<lparr>scopeId = 0,
        references = [(''b'', Some (SourceRange (SourcePosition 9) (SourcePosition 10))),
                      (''d'', None),
                      (''a'', Some (SourceRange (SourcePosition 4) (SourcePosition 5)))],
        declarations = [(''d'', None)]\<rparr>;
        c = \<lparr>scope = [root], nextScopeId = 1, reporter = []\<rparr>
    in scope c = [root] \<and> (\<forall>p \<in> set (unresolved root). snd p \<noteq> None) \<and>
       validateScope c = (Inr (), c\<lparr>reporter :=
         [\<lparr>errorPosition = SourcePosition 4, errorFormat = ''%s is not defined'', errorArgs = [''a'']\<rparr>,
          \<lparr>errorPosition = SourcePosition 9, errorFormat = ''%s is not defined'', errorArgs = [''b'']\<rparr>]\<rparr>)) \<and>
   (let root = \<lparr>scopeId = 0,
        references = [(''b'', Some (SourceRange (SourcePosition 9) (SourcePosition 10))),
                      (''g'', None)],
        declarations = []\<rparr>;
        c = \<lparr>scope = [root], nextScopeId = 1, reporter = []\<rparr>
    in scope c = [root] \<and> (\<exists>name. (name, None) \<in> set (unresolved root)) \<and>
       validateScope c = (Inl (GeneratedVariableNotDefined ''g''), c))"
  using validateScope_root_fatal_or_sorted[of
      "\<lparr>scope = [\<lparr>scopeId = 0,
        references = [(''b'', Some (SourceRange (SourcePosition 9) (SourcePosition 10))),
                      (''d'', None),
                      (''a'', Some (SourceRange (SourcePosition 4) (SourcePosition 5)))],
        declarations = [(''d'', None)]\<rparr>], nextScopeId = 1, reporter = []\<rparr>"
      "\<lparr>scopeId = 0,
        references = [(''b'', Some (SourceRange (SourcePosition 9) (SourcePosition 10))),
                      (''d'', None),
                      (''a'', Some (SourceRange (SourcePosition 4) (SourcePosition 5)))],
        declarations = [(''d'', None)]\<rparr>"]
    validateScope_root_fatal_or_sorted[of
      "\<lparr>scope = [\<lparr>scopeId = 0,
        references = [(''b'', Some (SourceRange (SourcePosition 9) (SourcePosition 10))),
                      (''g'', None)],
        declarations = []\<rparr>], nextScopeId = 1, reporter = []\<rparr>"
      "\<lparr>scopeId = 0,
        references = [(''b'', Some (SourceRange (SourcePosition 9) (SourcePosition 10))),
                      (''g'', None)],
        declarations = []\<rparr>"]
  by (auto simp add: Let_def unresolved_def inKeys_def validateScope_def reportError_def)

text \<open>
  C10.  Visiting a function declaration leaves the declarations of the enclosing scope as
  they are: the body is visited in a new scope on top of the enclosing one, in which
  \<open>arguments\<close> and the function's (non-empty) name are declared, and after that scope is
  popped the enclosing scope has gained exactly the references inside the function that
  the function's own scope does not declare.  What visiting any tree declares in the scope
  it is visited in is \<open>declared\<close> of the tree, which takes a function's name only from a
  function declaration that is a direct element of the statement list of a block or
  program (\<open>declaredStatements\<close>); in particular a function declaration among the children
  of a node of any other kind adds nothing to what its siblings declare.  So for every
  program \<open>checkProgram\<close> returns normally for, a name with a free reference (one outside
  every scope declaring it) that is not declared at the top level by the global object,
  a binding or a hoisted function is reported, once, at its first free reference.
\<close>

theorem function_name_local_elsewhere:
  "(visitAny (FunctionDeclaration name formalParameterList functionBody) c = (Inr (), c') \<and>
    scope c = s # rest \<longrightarrow>
      scope c' =
        s\<lparr>references := addAll (references s)
             (escaping (functionScope name formalParameterList functionBody)
                (freeReferences formalParameterList @ freeReferences functionBody))\<rparr> # rest \<and>
      (\<exists>(inner :: Scope) c4 c5.
         scope c4 = inner # s # rest \<and> visitAny functionBody c4 = (Inr (), c5) \<and>
         pop (scopeId inner) c5 = (Inr (), c') \<and>
         inKeys ''arguments'' (declarations inner) \<and>
         (\<forall>tok. name = Some tok \<and> tokenValue tok \<noteq> [] \<longrightarrow>
            inKeys (tokenValue tok) (declarations inner)))) \<and>
   (visitAny t c = (Inr (), c') \<and> scope c = s # rest \<longrightarrow>
      declarations (hd (scope c')) = addAll (declarations s) (declared t)) \<and>
   (visitStatements ss c = (Inr (), c') \<and> scope c = s # rest \<longrightarrow>
      declarations (hd (scope c')) = addAll (declarations s) (declaredStatements ss)) \<and>
   (visitAny (Node kind toks (pre @ FunctionDeclaration name formalParameterList functionBody # post))
      c = (Inr (), c') \<and> scope c = s # rest \<longrightarrow>
      declarations (hd (scope c')) =
        addAll (declarations s) (declaredList pre @ declaredList post)) \<and>
   (checkProgram rep (Program programElements) global = (Inr (), c2) \<and>
    map_of (freeReferencesList programElements) x = Some (Some l) \<and>
    \<not> inKeys x (globalDeclarations global @ declaredStatements programElements) \<longrightarrow>
      filter (\<lambda>e. errorArgs e = [x]) (drop (length rep) (reporter c2)) =
        [\<lparr>errorPosition = start l, errorFormat = ''%s is not defined'', errorArgs = [x]\<rparr>])"
proof (intro conjI impI)
  assume a: "visitAny (FunctionDeclaration name formalParameterList functionBody) c = (Inr (), c') \<and>
    scope c = s # rest"
  then have v: "visitAny (FunctionDeclaration name formalParameterList functionBody) c = (Inr (), c')"
    and c: "scope c = s # rest" by blast+
  have "scope c \<noteq> []" using c by simp
  from recorded_scope[OF visit_recorded(1)[OF v this] c]
  show "scope c' =
        s\<lparr>references := addAll (references s)
             (escaping (functionScope name formalParameterList functionBody)
                (freeReferences formalParameterList @ freeReferences functionBody))\<rparr> # rest"
    by (simp add: withEntries_def)
next
  assume a: "visitAny (FunctionDeclaration name formalParameterList functionBody) c = (Inr (), c') \<and>
    scope c = s # rest"
  then have v: "visitFunction name formalParameterList functionBody c = (Inr (), c')"
    and c: "scope c = s # rest" by simp_all
  from visitFunction_own_scope[OF v c] obtain inner :: Scope and c4 c5 where
    1: "scope c4 = inner # s # rest" and 2: "visitAny functionBody c4 = (Inr (), c5)"
    and 3: "pop (scopeId inner) c5 = (Inr (), c')"
    and 4: "declarations inner =
             addAll [] (declaredName (TokenArg name) @ declaredName (StringArg ''arguments'') @
                        declared formalParameterList)"
    by blast
  have 5: "inKeys ''arguments'' (declarations inner)"
    by (simp add: 4 inKeys_addAll inKeys_append) (simp add: declaredName_def inKeys_def)
  have 6: "\<forall>tok. name = Some tok \<and> tokenValue tok \<noteq> [] \<longrightarrow>
            inKeys (tokenValue tok) (declarations inner)"
    by (simp add: 4 inKeys_addAll inKeys_append) (simp add: declaredName_def inKeys_def)
  show "\<exists>(inner :: Scope) c4 c5.
         scope c4 = inner # s # rest \<and> visitAny functionBody c4 = (Inr (), c5) \<and>
         pop (scopeId inner) c5 = (Inr (), c') \<and>
         inKeys ''arguments'' (declarations inner) \<and>
         (\<forall>tok. name = Some tok \<and> tokenValue tok \<noteq> [] \<longrightarrow>
            inKeys (tokenValue tok) (declarations inner))"
    using 1 2 3 5 6 by blast
next
  assume a: "visitAny t c = (Inr (), c') \<and> scope c = s # rest"
  then have v: "visitAny t c = (Inr (), c')" and c: "scope c = s # rest" by blast+
  have "scope c \<noteq> []" using c by simp
  from recorded_declarations[OF visit_recorded(1)[OF v this] c]
  show "declarations (hd (scope c')) = addAll (declarations s) (declared t)" .
next
  assume a: "visitStatements ss c = (Inr (), c') \<and> scope c = s # rest"
  then have v: "visitStatements ss c = (Inr (), c')" and c: "scope c = s # rest" by blast+
  have "scope c \<noteq> []" using c by simp
  from recorded_declarations[OF visit_recorded(4)[OF v this] c]
  show "declarations (hd (scope c')) = addAll (declarations s) (declaredStatements ss)" .
next
  let ?t = "Node kind toks (pre @ FunctionDeclaration name formalParameterList functionBody # post)"
  assume a: "visitAny ?t c = (Inr (), c') \<and> scope c = s # rest"
  then have v: "visitAny ?t c = (Inr (), c')" and c: "scope c = s # rest" by blast+
  have "scope c \<noteq> []" using c by simp
  from recorded_declarations[OF visit_recorded(1)[OF v this] c]
  show "declarations (hd (scope c')) =
        addAll (declarations s) (declaredList pre @ declaredList post)"
    by (simp add: declaredList_append)
next
  assume a: "checkProgram rep (Program programElements) global = (Inr (), c2) \<and>
    map_of (freeReferencesList programElements) x = Some (Some l) \<and>
    \<not> inKeys x (globalDeclarations global @ declaredStatements programElements)"
  then have v: "checkProgram rep (Program programElements) global = (Inr (), c2)" by blast
  show "filter (\<lambda>e. errorArgs e = [x]) (drop (length rep) (reporter c2)) =
        [\<lparr>errorPosition = start l, errorFormat = ''%s is not defined'', errorArgs = [x]\<rparr>]"
    using checkProgram_reports(1)[OF v, of x] a by simp
qed

theorem function_name_local_elsewhere_witness:
  "scope rootChecker = [newScope 0] \<and>
   visitAny (FunctionDeclaration (Some (IdentifierToken (locAt 61) ''k''))
               (Node FORMAL_PARAMETER_LIST [] [])
               (Block [returnStatement (identifierAt 65 ''k''), returnStatement (identifierAt 70 ''y'')]))
     rootChecker =
     (Inr (), \<lparr>scope = [\<lparr>scopeId = 0, references = [(''y'', locAt 70)], declarations = []\<rparr>],
               nextScopeId = 2, reporter = []\<rparr>) \<and>
   visitStatements exampleFunctionExpression rootChecker =
     (Inr (), \<lparr>scope = [\<lparr>scopeId = 0,
                          references = [(''y'', locAt 70), (''g'', locAt 80), (''k'', locAt 90)],
                          declarations = [(''h'', locAt 34)]\<rparr>],
               nextScopeId = 3, reporter = []\<rparr>) \<and>
   declaredStatements exampleFunctionExpression = [(''h'', locAt 34)] \<and>
   freeReferencesList exampleFunctionExpression =
     [(''y'', locAt 70), (''g'', locAt 80), (''k'', locAt 90)] \<and>
   checkProgram [] (Program exampleFunctionExpression) [[''y'']] =
     (Inr (), \<lparr>scope = [], nextScopeId = 3,
               reporter = [\<lparr>errorPosition = SourcePosition 80,
                             errorFormat = ''%s is not defined'', errorArgs = [''g'']\<rparr>,
                           \<lparr>errorPosition = SourcePosition 90,
                             errorFormat = ''%s is not defined'', errorArgs = [''k'']\<rparr>]\<rparr>)"
  using function_name_local_elsewhere[where
      name = "Some (IdentifierToken (locAt 61) ''k'')"
      and formalParameterList = "Node FORMAL_PARAMETER_LIST [] []"
      and functionBody = "Block [returnStatement (identifierAt 65 ''k''),
                                 returnStatement (identifierAt 70 ''y'')]"
      and c = rootChecker
      and c' = "\<lparr>scope = [\<lparr>scopeId = 0, references = [(''y'', locAt 70)], declarations = []\<rparr>],
               nextScopeId = 2, reporter = []\<rparr>"
      and s = "newScope 0" and rest = "[]"
      and t = "FunctionDeclaration (Some (IdentifierToken (locAt 61) ''k''))
               (Node FORMAL_PARAMETER_LIST [] [])
               (Block [returnStatement (identifierAt 65 ''k''), returnStatement (identifierAt 70 ''y'')])"
      and ss = "[]" and kind = PAREN_EXPRESSION and toks = "[]" and pre = "[]" and post = "[]"
      and rep = "[]" and programElements = exampleFunctionExpression and global = "[[''y'']]"
      and ?c2.0 = "\<lparr>scope = [], nextScopeId = 3,
               reporter = [\<lparr>errorPosition = SourcePosition 80,
                             errorFormat = ''%s is not defined'', errorArgs = [''g'']\<rparr>,
                           \<lparr>errorPosition = SourcePosition 90,
                             errorFormat = ''%s is not defined'', errorArgs = [''k'']\<rparr>]\<rparr>"
      and x = "''g''" and l = "SourceRange (SourcePosition 80) (SourcePosition 81)"]
    function_name_local_elsewhere[where
      name = "Some (IdentifierToken (locAt 61) ''k'')"
      and formalParameterList = "Node FORMAL_PARAMETER_LIST [] []"
      and functionBody = "Block [returnStatement (identifierAt 70 ''y'')]"
      and c = rootChecker
      and c' = "\<lparr>scope = [\<lparr>scopeId = 0,
                          references = [(''y'', locAt 70), (''g'', locAt 80), (''k'', locAt 90)],
                          declarations = [(''h'', locAt 34)]\<rparr>],
               nextScopeId = 3, reporter = []\<rparr>"
      and s = "newScope 0" and rest = "[]"
      and t = NullTree
      and ss = exampleFunctionExpression
      and kind = PAREN_EXPRESSION and toks = "[]" and pre = "[]" and post = "[]"
      and rep = "[]" and programElements = exampleFunctionExpression and global = "[[''y'']]"
      and ?c2.0 = "\<lparr>scope = [], nextScopeId = 3,
               reporter = [\<lparr>errorPosition = SourcePosition 80,
                             errorFormat = ''%s is not defined'', errorArgs = [''g'']\<rparr>,
                           \<lparr>errorPosition = SourcePosition 90,
                             errorFormat = ''%s is not defined'', errorArgs = [''k'']\<rparr>]\<rparr>"
      and x = "''k''" and l = "SourceRange (SourcePosition 90) (SourcePosition 91)"]
  by (simp add: checker_eval scoping_eval exampleFunctionExpression_def)

section \<open>Properties of the class transformer\<close>

lemma sameButFlag_refl: "sameButFlag st st"
  by (simp add: sameButFlag_def)

lemma sameButFlag_trans: "sameButFlag a b \<Longrightarrow> sameButFlag b c \<Longrightarrow> sameButFlag a c"
  by (auto simp: sameButFlag_def)

lemma sameButFlag_eq: "stack s' = stack s \<Longrightarrow> sameButFlag (stack s) (stack s')"
  by (simp add: sameButFlag_def)

lemma sameButFlag_Cons:
  "sameButFlag (cur # rest) st' \<Longrightarrow>
     \<exists>cur'. st' = cur' # rest \<and> classTree cur' = classTree cur \<and> className cur' = className cur \<and>
            (hasSuper cur \<longrightarrow> hasSuper cur')"
  by (auto simp: sameButFlag_def)

lemmas transform_simps =
  transformClassShared.simps transformClassDeclaration.simps
  transformClassExpression.simps transformPropertyMethodAssignment.simps
  transformGetAccessor.simps transformSetAccessor.simps
  transformConstructor.simps transformSuperInBlock.simps
  getDefaultConstructor.simps


lemma transformSuperInBlock_Inr:
  assumes "transformSuperInBlock S methodTree tree s = (Inr r, s')"
  shows "\<exists>state rest t1 s1. stack s = state # rest \<and> transformAny S tree s = (Inr t1, s1) \<and>
           r = fst (S (className state) methodTree t1) \<and>
           s' = (if snd (S (className state) methodTree t1)
                 then s1\<lparr>stack := (case stack s1 of [] \<Rightarrow> []
                                    | state' # rest' \<Rightarrow> state'\<lparr>hasSuper := True\<rparr> # rest')\<rparr>
                 else s1)"
proof -
  from assms obtain state rest where st: "stack s = state # rest"
    by (cases "stack s") (auto simp: transformSuperInBlock.simps peekState_def)
  then have p: "peekState s = Some state" by (simp add: peekState_def)
  from assms p obtain t1 s1 where 1: "transformAny S tree s = (Inr t1, s1)"
    by (auto simp: transformSuperInBlock.simps split: prod.split_asm sum.split_asm)
  from assms p 1 have "r = fst (S (className state) methodTree t1)"
    and "s' = (if snd (S (className state) methodTree t1)
                 then s1\<lparr>stack := (case stack s1 of [] \<Rightarrow> []
                                    | state' # rest' \<Rightarrow> state'\<lparr>hasSuper := True\<rparr> # rest')\<rparr>
                 else s1)"
    by (simp_all add: transformSuperInBlock.simps split_beta)
  then show ?thesis using st 1 by blast
qed

lemma transformGetAccessor_Inr:
  assumes "transformGetAccessor S tree s = (Inr r, s')"
  shows "\<exists>l propertyName body body'. tree = GetAccessor l propertyName body \<and>
           transformSuperInBlock S tree body s = (Inr body', s') \<and>
           r = (if body' = body then tree else GetAccessor l propertyName body')"
  using assms
  by (cases tree) (auto simp: transformGetAccessor.simps split: prod.splits sum.splits if_splits)

lemma transformSetAccessor_Inr:
  assumes "transformSetAccessor S tree s = (Inr r, s')"
  shows "\<exists>l propertyName parameter body parameter' s1 body'.
           tree = SetAccessor l propertyName parameter body \<and>
           transformAny S parameter s = (Inr parameter', s1) \<and>
           transformSuperInBlock S tree body s1 = (Inr body', s') \<and>
           r = (if body' = body then tree else SetAccessor l propertyName parameter' body')"
  using assms
  by (cases tree) (auto simp: transformSetAccessor.simps split: prod.splits sum.splits if_splits)

lemma transformPropertyMethodAssignment_Inr:
  assumes "transformPropertyMethodAssignment S tree s = (Inr r, s')"
  shows "\<exists>l name isGenerator formalParameterList functionBody formalParameterList' s1 functionBody'.
           tree = PropertyMethodAssignment l name isGenerator formalParameterList functionBody \<and>
           transformAny S formalParameterList s = (Inr formalParameterList', s1) \<and>
           transformSuperInBlock S tree functionBody s1 = (Inr functionBody', s') \<and>
           r = (if formalParameterList' = formalParameterList \<and> functionBody' = functionBody
                then tree
                else PropertyMethodAssignment l name isGenerator formalParameterList' functionBody')"
  using assms
  by (cases tree)
     (auto simp: transformPropertyMethodAssignment.simps split: prod.splits sum.splits if_splits)

lemma transformConstructor_Inr:
  assumes "transformConstructor S tree s = (Inr r, s')"
  shows "\<exists>l name isGenerator formalParameterList functionBody parameters s1 functionBody'.
           tree = PropertyMethodAssignment l name isGenerator formalParameterList functionBody \<and>
           transformAny S formalParameterList s = (Inr parameters, s1) \<and>
           transformSuperInBlock S tree functionBody s1 = (Inr functionBody', s') \<and>
           r = createPropertyNameAssignment CONSTRUCTOR
                 (createFunctionExpression parameters functionBody')"
  using assms
  by (cases tree) (auto simp: transformConstructor.simps split: prod.splits sum.splits)

lemma transformElements_Cons_Inr:
  assumes "transformElements S (t # ts) c s = (Inr r, s')"
  shows "\<exists>t' c1 s1 ts' c2.
           (case t of
              GetAccessor l propertyName body \<Rightarrow>
                transformGetAccessor S t s = (Inr t', s1) \<and> c1 = c
            | SetAccessor l propertyName parameter body \<Rightarrow>
                transformSetAccessor S t s = (Inr t', s1) \<and> c1 = c
            | PropertyMethodAssignment l name isGenerator formalParameterList functionBody \<Rightarrow>
                if tokenValue name = CONSTRUCTOR
                then transformConstructor S t s = (Inr t', s1) \<and> c1 = Some t'
                else transformPropertyMethodAssignment S t s = (Inr t', s1) \<and> c1 = c
            | _ \<Rightarrow> False) \<and>
           transformElements S ts c1 s1 = (Inr (ts', c2), s') \<and> r = (t' # ts', c2)"
  using assms
  by (cases t) (auto split: prod.splits sum.splits if_splits)


lemma transformClassShared_Inr:
  assumes "transformClassShared S tree name s = (Inr r, s')"
  shows "isClassTree tree \<and>
         (\<exists>superClass' s1 elements' constructor s2 elements'' s3 state rest.
            transformAny S (superClass tree) s = (Inr superClass', s1) \<and>
            transformElements S (elements tree) None
              (s1\<lparr>stack := (newState tree)\<lparr>className := createIdentifierExpression name\<rparr>
                            # stack s1\<rparr>) = (Inr (elements', constructor), s2) \<and>
            (case constructor of
               None \<Rightarrow> (\<exists>c. getDefaultConstructor S tree s2 = (Inr c, s3) \<and>
                             elements'' = elements' @ [c])
             | Some c \<Rightarrow> s3 = s2 \<and> elements'' = elements') \<and>
            stack s3 = state # rest \<and>
            r = (createClassCall elements''
                   (if superClass' = NullTree then createNullLiteral else superClass')
                   (constructor \<noteq> None) (superClass' \<noteq> NullTree),
                 hasSuper state) \<and>
            s' = s3\<lparr>stack := rest\<rparr>)"
proof -
  from assms have c: "isClassTree tree"
    by (auto simp: transformClassShared.simps split: if_splits)
  from assms c obtain superClass' s1 where 1: "transformAny S (superClass tree) s = (Inr superClass', s1)"
    by (auto simp: transformClassShared.simps split: prod.splits sum.splits)
  let ?s1 = "s1\<lparr>stack := (newState tree)\<lparr>className := createIdentifierExpression name\<rparr> # stack s1\<rparr>"
  from assms c 1 obtain elements' constructor s2 where
    2: "transformElements S (elements tree) None ?s1 = (Inr (elements', constructor), s2)"
    by (auto simp: transformClassShared.simps split: prod.splits sum.splits)
  from assms c 1 2 obtain elements'' s3 where
    3: "(case constructor of
           None \<Rightarrow> (case getDefaultConstructor S tree s2 of
                       (Inl e, s3) \<Rightarrow> (Inl e, s3)
                     | (Inr c, s3) \<Rightarrow> (Inr (elements' @ [c]), s3))
         | Some c \<Rightarrow> (Inr elements', s2)) = (Inr elements'', s3)"
    by (simp add: transformClassShared.simps split: prod.splits sum.splits)
  from assms c 1 2 3 obtain state rest where 4: "stack s3 = state # rest"
    and r: "r = (createClassCall elements''
                   (if superClass' = NullTree then createNullLiteral else superClass')
                   (constructor \<noteq> None) (superClass' \<noteq> NullTree),
                 hasSuper state)"
    and s': "s' = s3\<lparr>stack := rest\<rparr>"
    by (simp add: transformClassShared.simps createClassCall_def split: list.splits)
  from 3 have 5: "(case constructor of
               None \<Rightarrow> (\<exists>c. getDefaultConstructor S tree s2 = (Inr c, s3) \<and>
                             elements'' = elements' @ [c])
             | Some c \<Rightarrow> s3 = s2 \<and> elements'' = elements')"
    by (auto split: option.splits prod.splits sum.splits)
  show ?thesis using c 1 2 5 4 r s' by blast
qed

lemma transformClassDeclaration_Inr:
  assumes "transformClassDeclaration S tree s = (Inr r, s')"
  shows "\<exists>l identifierToken sc els classTree' hasSuper'.
           tree = ClassDeclaration (BindingIdentifier l identifierToken) sc els \<and>
           transformClassShared S tree identifierToken s = (Inr (classTree', hasSuper'), s') \<and>
           r = createVariableStatement (if blockBinding s' then LET else VAR)
                 (BindingIdentifier l identifierToken) classTree'"
  using assms
  by (auto simp: transformClassDeclaration.simps split: ParseTree.splits prod.splits sum.splits)

lemma transformClassExpression_Inr:
  assumes "transformClassExpression S tree s = (Inr r, s')"
  shows "\<exists>classTree' hasSuper' s1.
           transformClassShared S tree (createIdentifierToken (fst (addTempVar s)))
             (snd (addTempVar s)) = (Inr (classTree', hasSuper'), s1) \<and>
           r = (if hasSuper'
                then createParenExpression
                       (createAssignmentExpression
                          (createIdentifierExpression (createIdentifierToken (fst (addTempVar s))))
                          classTree')
                else classTree') \<and>
           s' = (if hasSuper' then s1 else removeTempVar (fst (addTempVar s)) s1)"
  using assms
  by (auto simp: transformClassExpression.simps split: prod.splits sum.splits if_splits)

lemma grows_refl: "grows s s"
  by (simp add: grows_def)

lemma grows_trans: "grows a b \<Longrightarrow> grows b c \<Longrightarrow> grows a c"
  unfolding grows_def by (metis order_trans subset_mset.order_trans)

lemma pureStep_refl: "pureStep s s"
  by (simp add: pureStep_def grows_refl)

lemma pureStep_trans: "pureStep a b \<Longrightarrow> pureStep b c \<Longrightarrow> pureStep a c"
  unfolding pureStep_def using grows_trans by auto

lemma memberStep_refl: "memberStep s s"
  by (simp add: memberStep_def grows_refl sameButFlag_refl)

lemma memberStep_trans: "memberStep a b \<Longrightarrow> memberStep b c \<Longrightarrow> memberStep a c"
  unfolding memberStep_def using grows_trans sameButFlag_trans by blast

lemma pureStep_memberStep: "pureStep a b \<Longrightarrow> memberStep a b"
  by (simp add: pureStep_def memberStep_def sameButFlag_def)

lemma pureStep_stack: "pureStep s s' \<Longrightarrow> stack s' = stack s"
  by (simp add: pureStep_def)

lemma memberStep_stack: "memberStep s s' \<Longrightarrow> sameButFlag (stack s) (stack s')"
  by (simp add: memberStep_def)

lemma grows_stack_update: "grows (s\<lparr>stack := st\<rparr>) s' = grows s s'"
  "grows s (s'\<lparr>stack := st\<rparr>) = grows s s'"
  by (simp_all add: grows_def)

lemma grows_addTempVar: "grows s (snd (addTempVar s))"
  by (simp add: grows_def addTempVar_def)

lemma grows_removeTempVar:
  assumes "grows (snd (addTempVar s)) s1"
  shows "grows s (removeTempVar (fst (addTempVar s)) s1)"
proof -
  let ?x = "generateUniqueIdentifier (identifierIndex s)"
  from assms have "add_mset ?x (mset (tempVars s)) \<subseteq># mset (tempVars s1)"
    and b: "blockBinding s1 = blockBinding s" and i: "identifierIndex s \<le> identifierIndex s1"
    by (simp_all add: grows_def addTempVar_def)
  then have "mset (tempVars s) \<subseteq># mset (tempVars s1) - {#?x#}"
    by (simp add: insert_subset_eq_iff)
  then show ?thesis using b i by (simp add: grows_def removeTempVar_def addTempVar_def)
qed

lemma transform_steps:
  "transformAny S t s = (Inr r1, s') \<Longrightarrow> pureStep s s'"
  "transformList S ts s = (Inr r2, s') \<Longrightarrow> pureStep s s'"
  "transformClassShared S tree name s = (Inr r3, s') \<Longrightarrow> pureStep s s'"
  "transformElements S ts c s = (Inr r4, s') \<Longrightarrow> memberStep s s'"
  "transformClassDeclaration S tree s = (Inr r5, s') \<Longrightarrow> pureStep s s'"
  "transformClassExpression S tree s = (Inr r6, s') \<Longrightarrow> pureStep s s'"
  "transformPropertyMethodAssignment S tree s = (Inr r7, s') \<Longrightarrow> memberStep s s'"
  "transformGetAccessor S tree s = (Inr r8, s') \<Longrightarrow> memberStep s s'"
  "transformSetAccessor S tree s = (Inr r9, s') \<Longrightarrow> memberStep s s'"
  "transformConstructor S tree s = (Inr r10, s') \<Longrightarrow> memberStep s s'"
  "transformSuperInBlock S methodTree tree s = (Inr r11, s') \<Longrightarrow> memberStep s s'"
  "getDefaultConstructor S tree s = (Inr r12, s') \<Longrightarrow> memberStep s s'"
proof (induction S t s and S ts s and S tree name s and S ts c s and S tree s and S tree s
         and S tree s and S tree s and S tree s and S tree s and S methodTree tree s and S tree s
       arbitrary: r1 s' and r2 s' and r3 s' and r4 s' and r5 s' and r6 s' and r7 s' and r8 s'
         and r9 s' and r10 s' and r11 s' and r12 s'
       rule: transformAny_transformList_transformClassShared_transformElements_transformClassDeclaration_transformClassExpression_transformPropertyMethodAssignment_transformGetAccessor_transformSetAccessor_transformConstructor_transformSuperInBlock_getDefaultConstructor.induct)
  case (20 S tree name s)
  let ?new = "(newState tree)\<lparr>className := createIdentifierExpression name\<rparr>"
  from transformClassShared_Inr[OF "20.prems"] obtain superClass' s1 elements' constructor s2
      elements'' s3 state rest where
    c: "isClassTree tree" and 1: "transformAny S (superClass tree) s = (Inr superClass', s1)"
    and 2: "transformElements S (elements tree) None (s1\<lparr>stack := ?new # stack s1\<rparr>) =
              (Inr (elements', constructor), s2)"
    and 3: "(case constructor of
               None \<Rightarrow> (\<exists>c. getDefaultConstructor S tree s2 = (Inr c, s3) \<and>
                             elements'' = elements' @ [c])
             | Some c \<Rightarrow> s3 = s2 \<and> elements'' = elements')"
    and 4: "stack s3 = state # rest" and s': "s' = s3\<lparr>stack := rest\<rparr>"
    by blast
  have a: "pureStep s s1" using "20.IH"(1)[OF _ 1] c by simp
  have b: "memberStep (s1\<lparr>stack := ?new # stack s1\<rparr>) s2"
    using "20.IH"(2)[OF _ 1[symmetric] refl 2] c by simp
  have d: "memberStep s2 s3"
  proof (cases constructor)
    case None
    with 3 obtain c' where "getDefaultConstructor S tree s2 = (Inr c', s3)" by auto
    from "20.IH"(3)[OF _ 1[symmetric] refl 2[symmetric] refl refl None this] c
    show ?thesis by simp
  next
    case (Some c')
    with 3 show ?thesis by (simp add: memberStep_refl)
  qed
  from memberStep_trans[OF b d] have m: "memberStep (s1\<lparr>stack := ?new # stack s1\<rparr>) s3" .
  from sameButFlag_Cons[of ?new "stack s1" "stack s3"] memberStep_stack[OF m] 4
  have "rest = stack s1" by auto
  moreover have "grows s1 s3" using m by (simp add: memberStep_def grows_stack_update)
  ultimately have "pureStep s1 s'" using s' by (simp add: pureStep_def grows_stack_update)
  with a show ?case by (rule pureStep_trans)
next
  case (22 S t ts constructor s)
  from transformElements_Cons_Inr[OF "22.prems"] obtain t' c1 s1 ts' c2 where
    h: "(case t of
              GetAccessor l propertyName body \<Rightarrow>
                transformGetAccessor S t s = (Inr t', s1) \<and> c1 = constructor
            | SetAccessor l propertyName parameter body \<Rightarrow>
                transformSetAccessor S t s = (Inr t', s1) \<and> c1 = constructor
            | PropertyMethodAssignment l name isGenerator formalParameterList functionBody \<Rightarrow>
                if tokenValue name = CONSTRUCTOR
                then transformConstructor S t s = (Inr t', s1) \<and> c1 = Some t'
                else transformPropertyMethodAssignment S t s = (Inr t', s1) \<and> c1 = constructor
            | _ \<Rightarrow> False)"
    and r: "transformElements S ts c1 s1 = (Inr (ts', c2), s')"
    by blast
  have a: "memberStep s s1"
    using h "22.IH"(1,2,3,4) by (cases t) (auto split: if_splits)
  have e: "(case t of
              GetAccessor l propertyName body \<Rightarrow>
                (case transformGetAccessor S t s of
                   (Inl e, s1) \<Rightarrow> (Inl e, s1)
                 | (Inr t', s1) \<Rightarrow> (Inr (t', constructor), s1))
            | SetAccessor l propertyName parameter body \<Rightarrow>
                (case transformSetAccessor S t s of
                   (Inl e, s1) \<Rightarrow> (Inl e, s1)
                 | (Inr t', s1) \<Rightarrow> (Inr (t', constructor), s1))
            | PropertyMethodAssignment l name isGenerator formalParameterList functionBody \<Rightarrow>
                if tokenValue name = CONSTRUCTOR
                then (case transformConstructor S t s of
                        (Inl e, s1) \<Rightarrow> (Inl e, s1)
                      | (Inr t', s1) \<Rightarrow> (Inr (t', Some t'), s1))
                else (case transformPropertyMethodAssignment S t s of
                        (Inl e, s1) \<Rightarrow> (Inl e, s1)
                      | (Inr t', s1) \<Rightarrow> (Inr (t', constructor), s1))
            | _ \<Rightarrow> (Inl (UnexpectedClassElement t), s)) = (Inr (t', c1), s1)"
    using h by (cases t) (auto split: if_splits)
  have b: "memberStep s1 s'"
    using "22.IH"(5)[OF e[symmetric] refl refl r] .
  from a b show ?case by (rule memberStep_trans)
next
  case (23 S tree s)
  from transformClassDeclaration_Inr[OF "23.prems"] obtain l identifierToken sc els classTree' hasSuper'
    where t: "tree = ClassDeclaration (BindingIdentifier l identifierToken) sc els"
      and 1: "transformClassShared S tree identifierToken s = (Inr (classTree', hasSuper'), s')"
    by blast
  show ?case using "23.IH"[OF t _ 1] by simp
next
  case (24 S tree s)
  from transformClassExpression_Inr[OF "24.prems"] obtain classTree' hasSuper' s1 where
    1: "transformClassShared S tree (createIdentifierToken (fst (addTempVar s)))
             (snd (addTempVar s)) = (Inr (classTree', hasSuper'), s1)"
    and s': "s' = (if hasSuper' then s1 else removeTempVar (fst (addTempVar s)) s1)"
    by blast
  have p: "pureStep (snd (addTempVar s)) s1"
    using "24.IH"[OF _ 1] by (simp add: prod_eq_iff)
  have st: "stack s' = stack s"
    using pureStep_stack[OF p] s' by (simp add: removeTempVar_def addTempVar_def)
  have "grows s s'"
  proof (cases hasSuper')
    case True
    then show ?thesis using s' p grows_trans[OF grows_addTempVar[of s]] by (simp add: pureStep_def)
  next
    case False
    then show ?thesis using s' p grows_removeTempVar[of s s1] by (simp add: pureStep_def)
  qed
  with st show ?case by (simp add: pureStep_def)
next
  case (25 S tree s)
  from transformPropertyMethodAssignment_Inr[OF "25.prems"]
  obtain l name isGenerator formalParameterList functionBody formalParameterList' s1 functionBody'
    where t: "tree = PropertyMethodAssignment l name isGenerator formalParameterList functionBody"
      and 1: "transformAny S formalParameterList s = (Inr formalParameterList', s1)"
      and 2: "transformSuperInBlock S tree functionBody s1 = (Inr functionBody', s')"
    by blast
  have a: "pureStep s s1" using "25.IH"(1)[OF t 1] .
  have "memberStep s1 s'" using "25.IH"(2)[OF t 1[symmetric] refl 2] .
  with pureStep_memberStep[OF a] show ?case by (rule memberStep_trans)
next
  case (26 S tree s)
  from transformGetAccessor_Inr[OF "26.prems"] obtain l propertyName body body' where
    t: "tree = GetAccessor l propertyName body"
    and 1: "transformSuperInBlock S tree body s = (Inr body', s')"
    by blast
  show ?case using "26.IH"[OF t 1] .
next
  case (27 S tree s)
  from transformSetAccessor_Inr[OF "27.prems"]
  obtain l propertyName parameter body parameter' s1 body' where
    t: "tree = SetAccessor l propertyName parameter body"
    and 1: "transformAny S parameter s = (Inr parameter', s1)"
    and 2: "transformSuperInBlock S tree body s1 = (Inr body', s')"
    by blast
  have a: "pureStep s s1" using "27.IH"(1)[OF t 1] .
  have "memberStep s1 s'" using "27.IH"(2)[OF t 1[symmetric] refl 2] .
  with pureStep_memberStep[OF a] show ?case by (rule memberStep_trans)
next
  case (28 S tree s)
  from transformConstructor_Inr[OF "28.prems"]
  obtain l name isGenerator formalParameterList functionBody parameters s1 functionBody'
    where t: "tree = PropertyMethodAssignment l name isGenerator formalParameterList functionBody"
      and 1: "transformAny S formalParameterList s = (Inr parameters, s1)"
      and 2: "transformSuperInBlock S tree functionBody s1 = (Inr functionBody', s')"
    by blast
  have a: "pureStep s s1" using "28.IH"(1)[OF t 1] .
  have "memberStep s1 s'" using "28.IH"(2)[OF t 1[symmetric] refl 2] .
  with pureStep_memberStep[OF a] show ?case by (rule memberStep_trans)
next
  case (29 S methodTree tree s)
  from transformSuperInBlock_Inr[OF "29.prems"] obtain state rest t1 s1 where
    st: "stack s = state # rest" and 1: "transformAny S tree s = (Inr t1, s1)"
    and s': "s' = (if snd (S (className state) methodTree t1)
                 then s1\<lparr>stack := (case stack s1 of [] \<Rightarrow> []
                                    | state' # rest' \<Rightarrow> state'\<lparr>hasSuper := True\<rparr> # rest')\<rparr>
                 else s1)"
    by blast
  have "peekState s = Some state" using st by (simp add: peekState_def)
  from "29.IH"[OF this 1] have p: "pureStep s s1" .
  then have "stack s1 = stack s" and "grows s s1" by (simp_all add: pureStep_def)
  then show ?case using s' st
    by (auto simp: memberStep_def sameButFlag_def grows_stack_update)
next
  case (30 S tree s)
  from "30.prems" have "transformConstructor S defaultConstructorTree s = (Inr r12, s')"
    by (simp add: getDefaultConstructor.simps)
  from "30.IH"[OF this] show ?case .
next
  case (1 S s)
  then show ?case by (simp add: pureStep_refl)
next
  case (2 S name sc els s)
  then show ?case by simp
next
  case (3 S name sc els s)
  then show ?case by simp
next
  case (6 S name formalParameterList functionBody s)
  from "6.prems" obtain a s1 b where 1: "transformAny S formalParameterList s = (Inr a, s1)"
    and 2: "transformAny S functionBody s1 = (Inr b, s')"
    by (auto split: prod.split_asm sum.split_asm)
  show ?case using "6.IH"(1)[OF 1] "6.IH"(2)[OF 1[symmetric] refl 2] by (rule pureStep_trans)
next
  case (7 S formalParameters functionBody s)
  from "7.prems" obtain a s1 b where 1: "transformAny S formalParameters s = (Inr a, s1)"
    and 2: "transformAny S functionBody s1 = (Inr b, s')"
    by (auto split: prod.split_asm sum.split_asm)
  show ?case using "7.IH"(1)[OF 1] "7.IH"(2)[OF 1[symmetric] refl 2] by (rule pureStep_trans)
next
  case (9 S l propertyName parameter body s)
  from "9.prems" obtain a s1 b where 1: "transformAny S parameter s = (Inr a, s1)"
    and 2: "transformAny S body s1 = (Inr b, s')"
    by (auto split: prod.split_asm sum.split_asm)
  show ?case using "9.IH"(1)[OF 1] "9.IH"(2)[OF 1[symmetric] refl 2] by (rule pureStep_trans)
next
  case (10 S l name isGenerator formalParameterList functionBody s)
  from "10.prems" obtain a s1 b where 1: "transformAny S formalParameterList s = (Inr a, s1)"
    and 2: "transformAny S functionBody s1 = (Inr b, s')"
    by (auto split: prod.split_asm sum.split_asm)
  show ?case using "10.IH"(1)[OF 1] "10.IH"(2)[OF 1[symmetric] refl 2] by (rule pureStep_trans)
next
  case (11 S binding catchBody s)
  from "11.prems" obtain a s1 b where 1: "transformAny S binding s = (Inr a, s1)"
    and 2: "transformAny S catchBody s1 = (Inr b, s')"
    by (auto split: prod.split_asm sum.split_asm)
  show ?case using "11.IH"(1)[OF 1] "11.IH"(2)[OF 1[symmetric] refl 2] by (rule pureStep_trans)
next
  case (13 S lvalue initializer s)
  from "13.prems" obtain a s1 b where 1: "transformAny S lvalue s = (Inr a, s1)"
    and 2: "transformAny S initializer s1 = (Inr b, s')"
    by (auto split: prod.split_asm sum.split_asm)
  show ?case using "13.IH"(1)[OF 1] "13.IH"(2)[OF 1[symmetric] refl 2] by (rule pureStep_trans)
next
  case (14 S binding initializer s)
  from "14.prems" obtain a s1 b where 1: "transformAny S binding s = (Inr a, s1)"
    and 2: "transformAny S initializer s1 = (Inr b, s')"
    by (auto split: prod.split_asm sum.split_asm)
  show ?case using "14.IH"(1)[OF 1] "14.IH"(2)[OF 1[symmetric] refl 2] by (rule pureStep_trans)
next
  case (4 S programElements s)
  from "4.prems" obtain a where 1: "transformList S programElements s = (Inr a, s')"
    by (auto split: prod.split_asm sum.split_asm)
  show ?case using "4.IH"[OF 1] .
next
  case (5 S statements s)
  from "5.prems" obtain a where 1: "transformList S statements s = (Inr a, s')"
    by (auto split: prod.split_asm sum.split_asm)
  show ?case using "5.IH"[OF 1] .
next
  case (12 S declarationType decls s)
  from "12.prems" obtain a where 1: "transformList S decls s = (Inr a, s')"
    by (auto split: prod.split_asm sum.split_asm)
  show ?case using "12.IH"[OF 1] .
next
  case (17 S kind toks children s)
  from "17.prems" obtain a where 1: "transformList S children s = (Inr a, s')"
    by (auto split: prod.split_asm sum.split_asm)
  show ?case using "17.IH"[OF 1] .
next
  case (8 S l propertyName body s)
  from "8.prems" obtain a where 1: "transformAny S body s = (Inr a, s')"
    by (auto split: prod.split_asm sum.split_asm)
  show ?case using "8.IH"[OF 1] .
next
  case (15 S l tok s)
  then show ?case by (simp add: pureStep_refl)
next
  case (16 S l tok s)
  then show ?case by (simp add: pureStep_refl)
next
  case (18 S s)
  then show ?case by (simp add: pureStep_refl)
next
  case (19 S t ts s)
  from "19.prems" obtain a s1 b where 1: "transformAny S t s = (Inr a, s1)"
    and 2: "transformList S ts s1 = (Inr b, s')"
    by (auto split: prod.split_asm sum.split_asm)
  show ?case using "19.IH"(1)[OF 1] "19.IH"(2)[OF 1[symmetric] refl 2] by (rule pureStep_trans)
next
  case (21 S constructor s)
  then show ?case by (simp add: memberStep_refl)
qed

lemma stack_preserved:
  "transformAny S t s = (Inr r1, s') \<Longrightarrow> stack s' = stack s"
  "transformList S ts s = (Inr r2, s') \<Longrightarrow> stack s' = stack s"
  "transformClassShared S tree name s = (Inr r3, s') \<Longrightarrow> stack s' = stack s"
  "transformClassDeclaration S tree s = (Inr r5, s') \<Longrightarrow> stack s' = stack s"
  "transformClassExpression S tree s = (Inr r6, s') \<Longrightarrow> stack s' = stack s"
  by (auto dest!: transform_steps(1,2,3,5,6) simp: pureStep_def)

lemma transformList_id:
  "(\<And>t s. t \<in> set ts \<Longrightarrow> transformAny S t s = (Inr t, s)) \<Longrightarrow>
   transformList S ts s = (Inr ts, s)"
  by (induction ts arbitrary: s) auto

lemma transformAny_classfree: "classes t = 0 \<Longrightarrow> transformAny S t s = (Inr t, s)"
proof (induction t arbitrary: s)
  case (Program ts)
  then show ?case by (simp add: transformList_id)
next
  case (Block ts)
  then show ?case by (simp add: transformList_id)
next
  case (VariableDeclarationList ty ds)
  then show ?case by (simp add: transformList_id)
next
  case (Node k toks ts)
  then show ?case by (simp add: transformList_id)
qed simp_all

lemma transformList_classfree:
  "sum_list (map classes ts) = 0 \<Longrightarrow> transformList S ts s = (Inr ts, s)"
  by (rule transformList_id) (simp add: transformAny_classfree)

lemma createClassCall_not_null: "createClassCall a b c d \<noteq> NullTree"
  by (simp add: createClassCall_def createCallExpression_def)

lemma transformAny_null:
  assumes "transformAny S t s = (Inr t', s')"
  shows "t' = NullTree \<longleftrightarrow> t = NullTree"
proof (cases t)
  case (ClassDeclaration n sc els)
  with assms have "transformClassDeclaration S t s = (Inr t', s')" by simp
  from transformClassDeclaration_Inr[OF this] show ?thesis
    using ClassDeclaration by (auto simp: createVariableStatement_def)
next
  case (ClassExpression n sc els)
  with assms have "transformClassExpression S t s = (Inr t', s')" by simp
  from transformClassExpression_Inr[OF this] obtain classTree' hasSuper' s1 where
    1: "transformClassShared S t (createIdentifierToken (fst (addTempVar s)))
             (snd (addTempVar s)) = (Inr (classTree', hasSuper'), s1)"
    and r: "t' = (if hasSuper'
                then createParenExpression
                       (createAssignmentExpression
                          (createIdentifierExpression (createIdentifierToken (fst (addTempVar s))))
                          classTree')
                else classTree')"
    by blast
  from transformClassShared_Inr[OF 1] have "classTree' \<noteq> NullTree"
    by (auto simp: createClassCall_not_null)
  then show ?thesis using r ClassExpression by (simp add: createParenExpression_def)
qed (use assms in \<open>auto split: prod.split_asm sum.split_asm\<close>)

lemma flagTop_False [simp]: "flagTop False s = s"
  by (cases "stack s") (simp_all add: flagTop_def)

lemma flagTop_flagTop [simp]: "flagTop a (flagTop b s) = flagTop (b \<or> a) s"
  by (cases "stack s") (simp_all add: flagTop_def disj_assoc)


lemma flagTop_fields [simp]:
  "tempVars (flagTop b s) = tempVars s" "identifierIndex (flagTop b s) = identifierIndex s"
  "blockBinding (flagTop b s) = blockBinding s"
  by (simp_all add: flagTop_def)

lemma transformSuperInBlock_classfree:
  assumes "classes tree = 0" and "stack s = state # rest"
  shows "transformSuperInBlock S methodTree tree s =
           (Inr (fst (S (className state) methodTree tree)),
            flagTop (snd (S (className state) methodTree tree)) s)"
proof (cases "snd (S (className state) methodTree tree)")
  case True
  then show ?thesis using assms
    by (simp add: transformSuperInBlock.simps peekState_def transformAny_classfree split_beta
        flagTop_def)
next
  case False
  then show ?thesis using assms
    by (simp add: transformSuperInBlock.simps peekState_def transformAny_classfree split_beta)
qed

lemma classes_defaultConstructor_parts:
  "classes defaultConstructorParameters = 0" "classes defaultConstructorBody = 0"
  by (simp_all add: defaultConstructorParameters_def defaultConstructorBody_def
      createRestParameter_def createBlock_def createExpressionStatement_def
      createCallExpression_def createArgumentList_def createSpreadExpression_def
      createIdentifierExpression_def)

lemma getDefaultConstructor_eq:
  assumes "stack s = state # rest"
  shows "getDefaultConstructor S tree s =
           (Inr (createPropertyNameAssignment CONSTRUCTOR
                   (createFunctionExpression defaultConstructorParameters
                      (fst (S (className state) defaultConstructorTree defaultConstructorBody)))),
            flagTop (snd (S (className state) defaultConstructorTree defaultConstructorBody)) s)"
proof -
  have "transformSuperInBlock S defaultConstructorTree defaultConstructorBody s =
           (Inr (fst (S (className state) defaultConstructorTree defaultConstructorBody)),
            flagTop (snd (S (className state) defaultConstructorTree defaultConstructorBody)) s)"
    using transformSuperInBlock_classfree[OF classes_defaultConstructor_parts(2) assms] .
  then have "transformSuperInBlock S
     (PropertyMethodAssignment None (createIdentifierToken CONSTRUCTOR) False
        defaultConstructorParameters defaultConstructorBody) defaultConstructorBody s =
           (Inr (fst (S (className state) defaultConstructorTree defaultConstructorBody)),
            flagTop (snd (S (className state) defaultConstructorTree defaultConstructorBody)) s)"
    by (simp add: defaultConstructorTree_def)
  then show ?thesis
    by (simp add: getDefaultConstructor.simps transformConstructor.simps
        defaultConstructorTree_def transformAny_classfree classes_defaultConstructor_parts)
qed

lemma transformElements_facts:
  assumes "transformElements S ts c s = (Inr (ts', c'), s')"
  shows "length ts' = length ts \<and> (\<forall>t \<in> set ts. isClassElement t) \<and>
         (c' \<noteq> None \<longleftrightarrow> c \<noteq> None \<or> (\<exists>t \<in> set ts. isConstructor t))"
  using assms
proof (induction ts arbitrary: c s ts' c')
  case Nil
  then show ?case by simp
next
  case (Cons t ts)
  from transformElements_Cons_Inr[OF Cons.prems] obtain t' c1 s1 ts1 c2 where
    h: "(case t of
              GetAccessor l propertyName body \<Rightarrow>
                transformGetAccessor S t s = (Inr t', s1) \<and> c1 = c
            | SetAccessor l propertyName parameter body \<Rightarrow>
                transformSetAccessor S t s = (Inr t', s1) \<and> c1 = c
            | PropertyMethodAssignment l name isGenerator formalParameterList functionBody \<Rightarrow>
                if tokenValue name = CONSTRUCTOR
                then transformConstructor S t s = (Inr t', s1) \<and> c1 = Some t'
                else transformPropertyMethodAssignment S t s = (Inr t', s1) \<and> c1 = c
            | _ \<Rightarrow> False)"
    and r: "transformElements S ts c1 s1 = (Inr (ts1, c2), s')"
    and e: "(ts', c') = (t' # ts1, c2)"
    by blast
  from Cons.IH[OF r] have ih: "length ts1 = length ts" "\<forall>t \<in> set ts. isClassElement t"
    "c2 \<noteq> None \<longleftrightarrow> c1 \<noteq> None \<or> (\<exists>t \<in> set ts. isConstructor t)"
    by blast+
  have t: "isClassElement t" using h by (cases t) (simp_all add: isClassElement_def)
  have c1: "c1 \<noteq> None \<longleftrightarrow> c \<noteq> None \<or> isConstructor t"
    using h by (cases t) (auto simp: isConstructor_def split: if_splits)
  show ?case using e ih t c1 by auto
qed



text \<open>The elements before an unrecognized one are transformed, then the error is thrown.\<close>

lemma transformElements_unexpected:
  assumes "\<not> isClassElement bad"
    and "transformElements S before c s = (Inr r, s')"
  shows "transformElements S (before @ bad # after) c s = (Inl (UnexpectedClassElement bad), s')"
  using assms(2)
proof (induction before arbitrary: c s r)
  case Nil
  then show ?case using assms(1) by (cases bad) (simp_all add: isClassElement_def)
next
  case (Cons t ts)
  from transformElements_Cons_Inr[OF Cons.prems] obtain t' c1 s1 ts1 c2 where
    h: "(case t of
              GetAccessor l propertyName body \<Rightarrow>
                transformGetAccessor S t s = (Inr t', s1) \<and> c1 = c
            | SetAccessor l propertyName parameter body \<Rightarrow>
                transformSetAccessor S t s = (Inr t', s1) \<and> c1 = c
            | PropertyMethodAssignment l name isGenerator formalParameterList functionBody \<Rightarrow>
                if tokenValue name = CONSTRUCTOR
                then transformConstructor S t s = (Inr t', s1) \<and> c1 = Some t'
                else transformPropertyMethodAssignment S t s = (Inr t', s1) \<and> c1 = c
            | _ \<Rightarrow> False)"
    and r: "transformElements S ts c1 s1 = (Inr (ts1, c2), s')"
    by blast
  from Cons.IH[OF r]
  have "transformElements S (ts @ bad # after) c1 s1 = (Inl (UnexpectedClassElement bad), s')" .
  then show ?case using h by (cases t) (auto split: if_splits)
qed


text \<open>The equations that evaluate the transformer on a concrete tree.\<close>

lemmas factory_eval =
  createIdentifierToken_def createIdentifierExpression_def createArgumentList_def
  createCallExpression_def createExpressionStatement_def createBlock_def
  createMemberExpression_def createObjectLiteralExpression_def createNullLiteral_def
  createBooleanLiteral_def createParenExpression_def createAssignmentExpression_def
  createFunctionExpression_def createPropertyNameAssignment_def createRestParameter_def
  createSpreadExpression_def createVariableStatement_def
  CONSTRUCTOR_def CREATE_CLASS_def RUNTIME_def TRACEUR_def

lemmas transformer_eval =
  transformClassShared.simps transformClassDeclaration.simps transformClassExpression.simps
  transformPropertyMethodAssignment.simps transformGetAccessor.simps transformSetAccessor.simps
  transformConstructor.simps transformSuperInBlock.simps getDefaultConstructor.simps
  isClassTree_def newState_def peekState_def addTempVar_def removeTempVar_def
  generateUniqueIdentifier_def decimal.simps defaultConstructorTree_def
  defaultConstructorParameters_def defaultConstructorBody_def SuperTransformer_def
  isSuperExpression_def superMemberName_def isSuperCall_def memberNameOf_def superDispatch_def
  initialTransformer_def createClassCall_def isConstructor_def isClassElement_def
  memberUsesSuper_def superCallStatement_def methodNamed_def exampleEmptyClass_def
  examplePlainClass_def exampleInnerClass_def exampleOuterClass_def exampleSetter_def
  exampleBadClass_def insideClass_def

section \<open>Claims about the class transformer\<close>

text \<open>
  The class expression \<open>class {}\<close> has no superclass expression and no constructor.  For it
  the shared transform passes the null literal and \<open>false\<close> for the superclass, and the
  member list still holds the synthesized constructor \<open>constructor(...args) { super(...args) }\<close>,
  its \<open>super\<close> call rewritten.
\<close>

theorem default_constructor_without_superclass:
  "superClass exampleEmptyClass = NullTree \<and> elements exampleEmptyClass = [] \<and>
   transformClassShared SuperTransformer exampleEmptyClass (createIdentifierToken ''A'')
       initialTransformer =
     (Inr (createClassCall
             [createPropertyNameAssignment CONSTRUCTOR
                (createFunctionExpression defaultConstructorParameters
                   (createBlock
                      [createExpressionStatement
                         (superDispatch ''superCall''
                            (createIdentifierExpression (createIdentifierToken ''A''))
                            CONSTRUCTOR
                            [Node ARRAY_LITERAL_EXPRESSION []
                               [createSpreadExpression
                                  (createIdentifierExpression
                                     (createIdentifierToken ''args''))]])]))]
             createNullLiteral False False,
           True),
      initialTransformer)"
  by (simp add: transformer_eval factory_eval)

text \<open>
  C1.  A successful shared class transform passes, as the has-user-constructor boolean of
  the class-creation call, whether some element of the class is a user constructor.  If
  one is, the member list has as many entries as the class has elements.  If none is, a
  synthesized constructor is appended, whether or not the class has a superclass
  expression: the member list has one more entry than the class has elements, and its last
  entry is the property \<open>constructor\<close> whose function has the single rest parameter
  \<open>...args\<close> and, as its body, what the super rewrite returns for
  \<open>{ super(...args); }\<close> under the class's name, as the constructor transform builds it.
\<close>

theorem default_constructor_appended:
  "transformClassShared S tree name s = (Inr (call, hs), s') \<longrightarrow>
     (\<exists>members superClassArgument hasExtendsExpression.
        call = createClassCall members superClassArgument
                 (\<exists>e \<in> set (elements tree). isConstructor e) hasExtendsExpression \<and>
        (if \<exists>e \<in> set (elements tree). isConstructor e
         then length members = length (elements tree)
         else length members = Suc (length (elements tree)) \<and>
              last members =
                createPropertyNameAssignment CONSTRUCTOR
                  (createFunctionExpression defaultConstructorParameters
                     (fst (S (createIdentifierExpression name) defaultConstructorTree
                             defaultConstructorBody)))))"
proof
  assume a: "transformClassShared S tree name s = (Inr (call, hs), s')"
  let ?new = "(newState tree)\<lparr>className := createIdentifierExpression name\<rparr>"
  from transformClassShared_Inr[OF a] obtain superClass' s1 elements' constructor s2
      elements'' s3 state rest where
    1: "transformAny S (superClass tree) s = (Inr superClass', s1)"
    and 2: "transformElements S (elements tree) None
              (s1\<lparr>stack := (newState tree)\<lparr>className := createIdentifierExpression name\<rparr>
                            # stack s1\<rparr>) = (Inr (elements', constructor), s2)"
    and 3: "(case constructor of
               None \<Rightarrow> (\<exists>c. getDefaultConstructor S tree s2 = (Inr c, s3) \<and>
                             elements'' = elements' @ [c])
             | Some c \<Rightarrow> s3 = s2 \<and> elements'' = elements')"
    and st3: "stack s3 = state # rest"
    and r': "(call, hs) = (createClassCall elements''
                   (if superClass' = NullTree then createNullLiteral else superClass')
                   (constructor \<noteq> None) (superClass' \<noteq> NullTree),
                 hasSuper state)"
    and s': "s' = s3\<lparr>stack := rest\<rparr>"
    by blast
  from r' have r: "call = createClassCall elements''
                   (if superClass' = NullTree then createNullLiteral else superClass')
                   (constructor \<noteq> None) (superClass' \<noteq> NullTree)" by simp
  from transformElements_facts[OF 2] have len: "length elements' = length (elements tree)"
    and c: "constructor \<noteq> None \<longleftrightarrow> (\<exists>e \<in> set (elements tree). isConstructor e)"
    by auto
  from memberStep_stack[OF transform_steps(4)[OF 2]] sameButFlag_Cons[of ?new "stack s1" "stack s2"]
  obtain cur where s2: "stack s2 = cur # stack s1"
    and cn: "className cur = createIdentifierExpression name"
    by (auto simp: newState_def)
  have L: "if \<exists>e \<in> set (elements tree). isConstructor e
         then length elements'' = length (elements tree)
         else length elements'' = Suc (length (elements tree)) \<and>
              last elements'' =
                createPropertyNameAssignment CONSTRUCTOR
                  (createFunctionExpression defaultConstructorParameters
                     (fst (S (createIdentifierExpression name) defaultConstructorTree
                             defaultConstructorBody)))"
  proof (cases constructor)
    case None
    with 3 obtain d where d: "getDefaultConstructor S tree s2 = (Inr d, s3)"
      and e: "elements'' = elements' @ [d]" by auto
    from d getDefaultConstructor_eq[OF s2, of S tree] cn
    have "d = createPropertyNameAssignment CONSTRUCTOR
                  (createFunctionExpression defaultConstructorParameters
                     (fst (S (createIdentifierExpression name) defaultConstructorTree
                             defaultConstructorBody)))" by simp
    then show ?thesis using None c e len by simp
  next
    case (Some d)
    then show ?thesis using 3 c len by simp
  qed
  have cc: "(constructor \<noteq> None) = (\<exists>e \<in> set (elements tree). isConstructor e)"
    using c by simp
  show "\<exists>members superClassArgument hasExtendsExpression.
        call = createClassCall members superClassArgument
                 (\<exists>e \<in> set (elements tree). isConstructor e) hasExtendsExpression \<and>
        (if \<exists>e \<in> set (elements tree). isConstructor e
         then length members = length (elements tree)
         else length members = Suc (length (elements tree)) \<and>
              last members =
                createPropertyNameAssignment CONSTRUCTOR
                  (createFunctionExpression defaultConstructorParameters
                     (fst (S (createIdentifierExpression name) defaultConstructorTree
                             defaultConstructorBody))))"
    by (rule exI[of _ "elements''"],
        rule exI[of _ "if superClass' = NullTree then createNullLiteral else superClass'"],
        rule exI[of _ "superClass' \<noteq> NullTree"])
       (use r cc L in simp)
qed

theorem default_constructor_appended_witness:
  "transformClassShared SuperTransformer exampleInnerClass (createIdentifierToken ''A'')
       initialTransformer =
     (Inr (createClassCall
             [methodNamed ''m''
                [createExpressionStatement
                   (superDispatch ''superCall''
                      (createIdentifierExpression (createIdentifierToken ''A'')) ''m''
                      [Node ARRAY_LITERAL_EXPRESSION [] []])],
              createPropertyNameAssignment CONSTRUCTOR
                (createFunctionExpression defaultConstructorParameters
                   (fst (SuperTransformer
                           (createIdentifierExpression (createIdentifierToken ''A''))
                           defaultConstructorTree defaultConstructorBody)))]
             (createIdentifierExpression (createIdentifierToken ''B'')) False True,
           True),
      initialTransformer) \<and>
   transformClassShared SuperTransformer examplePlainClass (createIdentifierToken ''A'')
       initialTransformer =
     (Inr (createClassCall
             [createPropertyNameAssignment CONSTRUCTOR
                (createFunctionExpression (Node FORMAL_PARAMETER_LIST [] []) (createBlock []))]
             createNullLiteral True False,
           False),
      initialTransformer)"
  using default_constructor_appended[where S = SuperTransformer and tree = exampleInnerClass
      and name = "createIdentifierToken ''A''" and s = initialTransformer
      and call = "fst (projr (fst (transformClassShared SuperTransformer exampleInnerClass
                    (createIdentifierToken ''A'') initialTransformer)))"
      and hs = True and s' = initialTransformer]
    default_constructor_appended[where S = SuperTransformer and tree = examplePlainClass
      and name = "createIdentifierToken ''A''" and s = initialTransformer
      and call = "fst (projr (fst (transformClassShared SuperTransformer examplePlainClass
                    (createIdentifierToken ''A'') initialTransformer)))"
      and hs = False and s' = initialTransformer]
  by (simp add: transformer_eval factory_eval)




text \<open>
  C5.  In the class-creation call a successful shared transform returns: for a class
  without a superclass expression, the superclass argument is the null literal and the
  has-superclass boolean is \<open>false\<close>; for a class with one, the superclass argument is the
  transformed superclass expression (which is not \<open>null\<close>) and the boolean is \<open>true\<close>.
\<close>

theorem createClass_superclass_arguments:
  "transformClassShared S tree name s = (Inr (call, hs), s') \<longrightarrow>
     (\<exists>members hasConstructor.
        if superClass tree = NullTree
        then call = createClassCall members createNullLiteral hasConstructor False
        else (\<exists>superClass' s1. transformAny S (superClass tree) s = (Inr superClass', s1) \<and>
                superClass' \<noteq> NullTree \<and>
                call = createClassCall members superClass' hasConstructor True))"
proof
  assume a: "transformClassShared S tree name s = (Inr (call, hs), s')"
  from transformClassShared_Inr[OF a] obtain superClass' s1 elements' constructor s2
      elements'' s3 state rest where
    1: "transformAny S (superClass tree) s = (Inr superClass', s1)"
    and 2: "transformElements S (elements tree) None
              (s1\<lparr>stack := (newState tree)\<lparr>className := createIdentifierExpression name\<rparr>
                            # stack s1\<rparr>) = (Inr (elements', constructor), s2)"
    and 3: "(case constructor of
               None \<Rightarrow> (\<exists>c. getDefaultConstructor S tree s2 = (Inr c, s3) \<and>
                             elements'' = elements' @ [c])
             | Some c \<Rightarrow> s3 = s2 \<and> elements'' = elements')"
    and st3: "stack s3 = state # rest"
    and r': "(call, hs) = (createClassCall elements''
                   (if superClass' = NullTree then createNullLiteral else superClass')
                   (constructor \<noteq> None) (superClass' \<noteq> NullTree),
                 hasSuper state)"
    and s': "s' = s3\<lparr>stack := rest\<rparr>"
    by blast
  from r' have r: "call = createClassCall elements''
                   (if superClass' = NullTree then createNullLiteral else superClass')
                   (constructor \<noteq> None) (superClass' \<noteq> NullTree)" by simp
  from transformAny_null[OF 1] have n: "superClass' = NullTree \<longleftrightarrow> superClass tree = NullTree" .
  show "\<exists>members hasConstructor.
        if superClass tree = NullTree
        then call = createClassCall members createNullLiteral hasConstructor False
        else (\<exists>superClass' s1. transformAny S (superClass tree) s = (Inr superClass', s1) \<and>
                superClass' \<noteq> NullTree \<and>
                call = createClassCall members superClass' hasConstructor True)"
  proof (cases "superClass tree = NullTree")
    case True
    then show ?thesis using r n by auto
  next
    case False
    then have "superClass' \<noteq> NullTree" using n by simp
    then show ?thesis using False r 1 by auto
  qed
qed

theorem createClass_superclass_arguments_witness:
  "transformClassShared SuperTransformer examplePlainClass (createIdentifierToken ''A'')
       initialTransformer =
     (Inr (createClassCall
             [createPropertyNameAssignment CONSTRUCTOR
                (createFunctionExpression (Node FORMAL_PARAMETER_LIST [] []) (createBlock []))]
             createNullLiteral True False,
           False),
      initialTransformer) \<and>
   superClass exampleInnerClass = createIdentifierExpression (createIdentifierToken ''B'') \<and>
   transformAny SuperTransformer (superClass exampleInnerClass) initialTransformer =
     (Inr (createIdentifierExpression (createIdentifierToken ''B'')), initialTransformer) \<and>
   transformClassShared SuperTransformer exampleInnerClass (createIdentifierToken ''A'')
       initialTransformer =
     (Inr (createClassCall
             [methodNamed ''m''
                [createExpressionStatement
                   (superDispatch ''superCall''
                      (createIdentifierExpression (createIdentifierToken ''A'')) ''m''
                      [Node ARRAY_LITERAL_EXPRESSION [] []])],
              createPropertyNameAssignment CONSTRUCTOR
                (createFunctionExpression defaultConstructorParameters
                   (fst (SuperTransformer
                           (createIdentifierExpression (createIdentifierToken ''A''))
                           defaultConstructorTree defaultConstructorBody)))]
             (createIdentifierExpression (createIdentifierToken ''B'')) False True,
           True),
      initialTransformer)"
  using createClass_superclass_arguments[where S = SuperTransformer
      and tree = examplePlainClass
      and name = "createIdentifierToken ''A''" and s = initialTransformer
      and call = "fst (projr (fst (transformClassShared SuperTransformer examplePlainClass
                    (createIdentifierToken ''A'') initialTransformer)))"
      and hs = False and s' = initialTransformer]
    createClass_superclass_arguments[where S = SuperTransformer
      and tree = exampleInnerClass
      and name = "createIdentifierToken ''A''" and s = initialTransformer
      and call = "fst (projr (fst (transformClassShared SuperTransformer exampleInnerClass
                    (createIdentifierToken ''A'') initialTransformer)))"
      and hs = True and s' = initialTransformer]
  by (simp add: transformer_eval factory_eval)



text \<open>
  C8.  For a set accessor whose parameter and body transform successfully: when the super
  rewrite returns the body unchanged, \<open>transformSetAccessor\<close> returns the original
  set-accessor node, whatever the transformed parameter is; otherwise it returns a new
  set accessor with the transformed parameter and body.
\<close>

theorem set_accessor_parameter_discarded:
  "transformAny S parameter s = (Inr parameter', s1) \<and>
   transformSuperInBlock S (SetAccessor l propertyName parameter body) body s1 = (Inr body', s2) \<longrightarrow>
     transformSetAccessor S (SetAccessor l propertyName parameter body) s =
       (Inr (if body' = body then SetAccessor l propertyName parameter body
             else SetAccessor l propertyName parameter' body'), s2)"
  by (simp add: transformSetAccessor.simps)

theorem set_accessor_parameter_discarded_witness:
  "transformAny SuperTransformer
       (BindingElement (BindingIdentifier None (createIdentifierToken ''x'')) examplePlainClass)
       insideClass =
     (Inr (BindingElement (BindingIdentifier None (createIdentifierToken ''x''))
             (createClassCall
                [createPropertyNameAssignment CONSTRUCTOR
                   (createFunctionExpression (Node FORMAL_PARAMETER_LIST [] [])
                      (createBlock []))]
                createNullLiteral True False)),
      insideClass\<lparr>identifierIndex := 1\<rparr>) \<and>
   createClassCall
     [createPropertyNameAssignment CONSTRUCTOR
        (createFunctionExpression (Node FORMAL_PARAMETER_LIST [] []) (createBlock []))]
     createNullLiteral True False \<noteq> examplePlainClass \<and>
   transformSuperInBlock SuperTransformer exampleSetter (createBlock [])
       (insideClass\<lparr>identifierIndex := 1\<rparr>) =
     (Inr (createBlock []), insideClass\<lparr>identifierIndex := 1\<rparr>) \<and>
   transformSetAccessor SuperTransformer exampleSetter insideClass =
     (Inr exampleSetter, insideClass\<lparr>identifierIndex := 1\<rparr>)"
  using set_accessor_parameter_discarded[where S = SuperTransformer and l = None
      and propertyName = "createIdentifierToken ''v''"
      and parameter = "BindingElement (BindingIdentifier None (createIdentifierToken ''x''))
                         examplePlainClass"
      and body = "createBlock []" and s = insideClass
      and parameter' = "BindingElement (BindingIdentifier None (createIdentifierToken ''x''))
             (createClassCall
                [createPropertyNameAssignment CONSTRUCTOR
                   (createFunctionExpression (Node FORMAL_PARAMETER_LIST [] [])
                      (createBlock []))]
                createNullLiteral True False)"
      and ?s1.0 = "insideClass\<lparr>identifierIndex := 1\<rparr>" and body' = "createBlock []"
      and ?s2.0 = "insideClass\<lparr>identifierIndex := 1\<rparr>"]
  by (simp add: transformer_eval factory_eval)

text \<open>
  C9.  When the elements of a class hold one that is no get accessor, set accessor or
  property method assignment, and the superclass expression and the elements before it
  transform successfully, the shared transform throws \<open>Unexpected class element\<close> and
  the stack is left one entry higher than on entry: the entry pushed for the failing class
  is still on top.  Every later successful shared transform from that state returns with
  the stale entry still there.
\<close>

theorem unexpected_element_leaves_context:
  "isClassTree tree \<and> elements tree = before @ bad # after \<and> \<not> isClassElement bad \<and>
   transformAny S (superClass tree) s = (Inr superClass', s1) \<and>
   transformElements S before None
     (s1\<lparr>stack := (newState tree)\<lparr>className := createIdentifierExpression name\<rparr> # stack s1\<rparr>) =
     (Inr r, s2) \<longrightarrow>
     transformClassShared S tree name s = (Inl (UnexpectedClassElement bad), s2) \<and>
     (\<exists>entry. stack s2 = entry # stack s \<and> classTree entry = tree \<and>
              className entry = createIdentifierExpression name) \<and>
     (\<forall>tree2 name2 r2 s3.
        transformClassShared S tree2 name2 s2 = (Inr r2, s3) \<longrightarrow>
        stack s3 = stack s2 \<and> length (stack s3) = Suc (length (stack s)))"
proof (intro impI)
  let ?new = "(newState tree)\<lparr>className := createIdentifierExpression name\<rparr>"
  assume a: "isClassTree tree \<and> elements tree = before @ bad # after \<and> \<not> isClassElement bad \<and>
   transformAny S (superClass tree) s = (Inr superClass', s1) \<and>
   transformElements S before None (s1\<lparr>stack := ?new # stack s1\<rparr>) = (Inr r, s2)"
  then have 1: "transformAny S (superClass tree) s = (Inr superClass', s1)"
    and 2: "transformElements S before None (s1\<lparr>stack := ?new # stack s1\<rparr>) = (Inr r, s2)"
    and nb: "\<not> isClassElement bad" and c: "isClassTree tree"
    and e: "elements tree = before @ bad # after"
    by blast+
  have f: "transformElements S (elements tree) None (s1\<lparr>stack := ?new # stack s1\<rparr>) =
             (Inl (UnexpectedClassElement bad), s2)"
    using transformElements_unexpected[OF nb 2] e by simp
  have t: "transformClassShared S tree name s = (Inl (UnexpectedClassElement bad), s2)"
    using c 1 f by (simp add: transformClassShared.simps)
  have s1: "stack s1 = stack s" using stack_preserved(1)[OF 1] .
  obtain r' c' where r: "r = (r', c')" by (cases r)
  from memberStep_stack[OF transform_steps(4)[OF 2[unfolded r]]]
    sameButFlag_Cons[of ?new "stack s1" "stack s2"]
  obtain entry where en: "stack s2 = entry # stack s1" "classTree entry = classTree ?new"
    "className entry = className ?new"
    by auto
  have en': "\<exists>entry. stack s2 = entry # stack s \<and> classTree entry = tree \<and>
              className entry = createIdentifierExpression name"
    using en s1 by (simp add: newState_def)
  have later: "\<forall>tree2 name2 r2 s3.
        transformClassShared S tree2 name2 s2 = (Inr r2, s3) \<longrightarrow>
        stack s3 = stack s2 \<and> length (stack s3) = Suc (length (stack s))"
    using stack_preserved(3) en s1 by auto
  show "transformClassShared S tree name s = (Inl (UnexpectedClassElement bad), s2) \<and>
     (\<exists>entry. stack s2 = entry # stack s \<and> classTree entry = tree \<and>
              className entry = createIdentifierExpression name) \<and>
     (\<forall>tree2 name2 r2 s3.
        transformClassShared S tree2 name2 s2 = (Inr r2, s3) \<longrightarrow>
        stack s3 = stack s2 \<and> length (stack s3) = Suc (length (stack s)))"
    using t en' later by blast
qed

theorem unexpected_element_leaves_context_witness:
  "elements exampleBadClass =
     [GetAccessor None (createIdentifierToken ''g'') (createBlock [])] @
     Node EXPRESSION_STATEMENT [] [] # [methodNamed ''m'' []] \<and>
   \<not> isClassElement (Node EXPRESSION_STATEMENT [] []) \<and>
   transformClassShared SuperTransformer exampleBadClass (createIdentifierToken ''D'')
       initialTransformer =
     (Inl (UnexpectedClassElement (Node EXPRESSION_STATEMENT [] [])),
      initialTransformer
        \<lparr>stack := [(newState exampleBadClass)
                     \<lparr>className := createIdentifierExpression
                                     (createIdentifierToken ''D'')\<rparr>]\<rparr>) \<and>
   transformClassShared SuperTransformer examplePlainClass (createIdentifierToken ''E'')
       (initialTransformer
        \<lparr>stack := [(newState exampleBadClass)
                     \<lparr>className := createIdentifierExpression
                                     (createIdentifierToken ''D'')\<rparr>]\<rparr>) =
     (Inr (createClassCall
             [createPropertyNameAssignment CONSTRUCTOR
                (createFunctionExpression (Node FORMAL_PARAMETER_LIST [] []) (createBlock []))]
             createNullLiteral True False,
           False),
      initialTransformer
        \<lparr>stack := [(newState exampleBadClass)
                     \<lparr>className := createIdentifierExpression
                                     (createIdentifierToken ''D'')\<rparr>]\<rparr>)"
  using unexpected_element_leaves_context[where S = SuperTransformer
      and tree = exampleBadClass
      and before = "[GetAccessor None (createIdentifierToken ''g'') (createBlock [])]"
      and bad = "Node EXPRESSION_STATEMENT [] []" and after = "[methodNamed ''m'' []]"
      and s = initialTransformer and superClass' = NullTree and ?s1.0 = initialTransformer
      and name = "createIdentifierToken ''D''"
      and r = "([GetAccessor None (createIdentifierToken ''g'') (createBlock [])], None)"
      and ?s2.0 = "initialTransformer
        \<lparr>stack := [(newState exampleBadClass)
                     \<lparr>className := createIdentifierExpression
                                     (createIdentifierToken ''D'')\<rparr>]\<rparr>"]
  by (simp add: transformer_eval factory_eval)

end
